(* ===== verification/Prelude.thy ===== *)
theory Prelude
  imports "HOL-Library.Word"
begin

text \<open>
  Shared vocabulary of the development: Go's bytes and strings, its signed 64-bit integers,
  its errors, the results of the random source, and the generic lemmas the components use.
  A Go \<open>[]byte\<close> is a list of 8-bit words, a Go \<open>string\<close> (a byte sequence too) a list of
  characters, each standing for one byte; \<open>bytes_of_str\<close> and \<open>str_of_bytes\<close> are Go's
  conversions \<open>[]byte(s)\<close> and \<open>string(b)\<close>.
\<close>

named_theorems codec_simps \<open>round trips of encoders and decoders\<close>
named_theorems len_simps \<open>lengths of encoded values\<close>
named_theorems server_simps \<open>frame equations of the server's helpers\<close>

subsection \<open>Bytes and strings\<close>

type_synonym byte = "8 word"
type_synonym bytes = "byte list"

definition byte_of_char :: "char \<Rightarrow> byte" where
  "byte_of_char c = word_of_nat (of_char c)"

definition char_of_byte :: "byte \<Rightarrow> char" where
  "char_of_byte b = char_of (unat b)"

definition bytes_of_str :: "string \<Rightarrow> bytes" where
  "bytes_of_str s = map byte_of_char s"

definition str_of_bytes :: "bytes \<Rightarrow> string" where
  "str_of_bytes bs = map char_of_byte bs"

lemma of_char_less_256 [simp]: "(of_char c :: nat) < 256"
  using of_char_mod_256 [of c, where 'a = nat] by (metis mod_less_divisor zero_less_numeral)

lemma unat_byte_of_char [simp]: "unat (byte_of_char c) = of_char c"
  by (simp add: byte_of_char_def unat_of_nat)

lemma char_of_byte_of_char [simp]: "char_of_byte (byte_of_char c) = c"
  by (simp add: char_of_byte_def)

lemma unat_byte_less [simp]: "unat (b :: byte) < 256"
  using unsigned_less [of b, where ?'a = nat] by simp

lemma byte_of_char_of_byte [simp]: "byte_of_char (char_of_byte b) = b"
  by (simp add: byte_of_char_def char_of_byte_def)

lemma str_of_bytes_of_str [simp]: "str_of_bytes (bytes_of_str s) = s"
  by (simp add: str_of_bytes_def bytes_of_str_def o_def)

lemma bytes_of_str_of_bytes [simp]: "bytes_of_str (str_of_bytes b) = b"
  by (simp add: str_of_bytes_def bytes_of_str_def o_def)

lemma length_bytes_of_str [simp]: "length (bytes_of_str s) = length s"
  by (simp add: bytes_of_str_def)

lemma length_str_of_bytes [simp]: "length (str_of_bytes s) = length s"
  by (simp add: str_of_bytes_def)

lemma bytes_of_str_append [simp]: "bytes_of_str (a @ b) = bytes_of_str a @ bytes_of_str b"
  by (simp add: bytes_of_str_def)

lemma bytes_of_str_inject [simp]: "bytes_of_str a = bytes_of_str b \<longleftrightarrow> a = b"
  by (metis str_of_bytes_of_str)

lemma str_of_bytes_inject [simp]: "str_of_bytes a = str_of_bytes b \<longleftrightarrow> a = b"
  by (metis bytes_of_str_of_bytes)

lemma take_bytes_of_str: "take n (bytes_of_str s) = bytes_of_str (take n s)"
  by (simp add: bytes_of_str_def take_map)

subsection \<open>Big-endian integers\<close>

definition be16 :: "16 word \<Rightarrow> bytes" where
  "be16 w = [ucast (drop_bit 8 w), ucast w]"

definition be32 :: "32 word \<Rightarrow> bytes" where
  "be32 w = [ucast (drop_bit 24 w), ucast (drop_bit 16 w), ucast (drop_bit 8 w), ucast w]"

unbundle bit_operations_syntax

definition un_be16 :: "byte \<Rightarrow> byte \<Rightarrow> 16 word" where
  "un_be16 a b = push_bit 8 (ucast a) OR ucast b"

definition un_be32 :: "byte \<Rightarrow> byte \<Rightarrow> byte \<Rightarrow> byte \<Rightarrow> 32 word" where
  "un_be32 a b c d =
     push_bit 24 (ucast a) OR push_bit 16 (ucast b) OR push_bit 8 (ucast c) OR ucast d"

lemma length_be16 [simp, len_simps]: "length (be16 w) = 2"
  by (simp add: be16_def)

lemma length_be32 [simp, len_simps]: "length (be32 w) = 4"
  by (simp add: be32_def)

lemma un_be16_be16 [simp, codec_simps]:
  "un_be16 (ucast (drop_bit 8 w)) (ucast w) = w"
  by (rule bit_word_eqI)
    (auto simp: un_be16_def bit_or_iff bit_push_bit_iff bit_ucast_iff bit_drop_bit_eq)

lemma un_be32_be32 [simp, codec_simps]:
  "un_be32 (ucast (drop_bit 24 w)) (ucast (drop_bit 16 w)) (ucast (drop_bit 8 w)) (ucast w) = w"
proof (rule bit_word_eqI)
  fix n assume "n < LENGTH(32)"
  then show "bit (un_be32 (ucast (drop_bit 24 w)) (ucast (drop_bit 16 w))
      (ucast (drop_bit 8 w)) (ucast w)) n = bit w n"
    by (cases "n < 8"; cases "n < 16"; cases "n < 24")
      (auto simp: un_be32_def bit_or_iff bit_push_bit_iff bit_ucast_iff bit_drop_bit_eq)
qed

subsection \<open>Go's signed 64-bit integers\<close>

text \<open>
  \<open>int\<close> and \<open>int64\<close> values are mathematical integers in the 64-bit range; an operation that
  can leave the range is wrapped with \<open>wrap64\<close>.
\<close>

definition wrap64 :: "int \<Rightarrow> int" where
  "wrap64 x = (x + 2 ^ 63) mod 2 ^ 64 - 2 ^ 63"

definition in_int64 :: "int \<Rightarrow> bool" where
  "in_int64 x \<longleftrightarrow> - (2 ^ 63) \<le> x \<and> x < 2 ^ 63"

lemma wrap64_id [simp]: "in_int64 x \<Longrightarrow> wrap64 x = x"
  by (simp add: wrap64_def in_int64_def)

lemma in_int64_wrap64 [simp]: "in_int64 (wrap64 x)"
  by (simp add: wrap64_def in_int64_def)

subsection \<open>Errors and results\<close>

text \<open>
  A Go pair \<open>(value, error)\<close> is a sum: \<open>Inl\<close> the error, \<open>Inr\<close> the value. Errors made by the
  program keep their message (the format arguments left out), errors that come from the
  standard library or the operating system are named by their source.
\<close>

datatype go_error =
    EMsg string       \<comment> \<open>\<open>fmt.Errorf\<close> / \<open>errors.New\<close> of this program\<close>
  | EJson | EBase64 | ERand | ECipher | EKey
  | EEOF | ENet | ETimeout | EOs

type_synonym 'a result = "go_error + 'a"

definition is_ok :: "'a result \<Rightarrow> bool" where
  "is_ok r \<longleftrightarrow> (case r of Inl _ \<Rightarrow> False | Inr _ \<Rightarrow> True)"

lemma is_ok_simps [simp]: "is_ok (Inr x)" "\<not> is_ok (Inl e)"
  by (simp_all add: is_ok_def)

subsection \<open>The random source\<close>

text \<open>
  \<open>crypto/rand.Reader\<close> is an environment that answers each read: a \<open>draw\<close> either fails or
  supplies bytes (for \<open>io.ReadFull\<close> and \<open>rand.Read\<close>) or a number (for \<open>rand.Int\<close>, which
  returns a value below its bound; reducing an arbitrary number modulo the bound reaches
  exactly those). A function that reads \<open>k\<close> times uses the draws \<open>0, \<dots>, k - 1\<close> of its source;
  \<open>rng_skip\<close> hands the rest to the next call.
\<close>

record draw =
  draw_ok :: bool
  draw_byte :: "nat \<Rightarrow> byte"
  draw_num :: nat

type_synonym rng = "nat \<Rightarrow> draw"

definition read_full :: "draw \<Rightarrow> nat \<Rightarrow> bytes result" where
  "read_full d n = (if draw_ok d then Inr (map (draw_byte d) [0..<n]) else Inl ERand)"

definition rand_int :: "draw \<Rightarrow> nat \<Rightarrow> nat result" where
  "rand_int d n = (if draw_ok d then Inr (draw_num d mod n) else Inl ERand)"

definition rng_skip :: "nat \<Rightarrow> rng \<Rightarrow> rng" where
  "rng_skip k r = (\<lambda>i. r (i + k))"

definition zero_rng :: rng where
  "zero_rng = (\<lambda>_. \<lparr>draw_ok = True, draw_byte = (\<lambda>_. 0), draw_num = 0\<rparr>)"

lemma zero_rng_simps [simp]: "draw_ok (zero_rng i)" "draw_num (zero_rng i) = 0"
    "draw_byte (zero_rng i) j = 0" "rng_skip k zero_rng = zero_rng"
  by (simp_all add: zero_rng_def rng_skip_def)

lemma rng_skip_apply [simp]: "rng_skip k r i = r (i + k)"
  by (simp add: rng_skip_def)

lemma read_full_length [len_simps]: "read_full d n = Inr bs \<Longrightarrow> length bs = n"
  by (auto simp: read_full_def split: if_splits)

lemma read_full_ok: "draw_ok d \<Longrightarrow> \<exists>bs. read_full d n = Inr bs \<and> length bs = n"
  by (simp add: read_full_def)

lemma rand_int_less: "rand_int d n = Inr k \<Longrightarrow> 0 < n \<Longrightarrow> k < n"
  by (auto simp: rand_int_def split: if_splits)

subsection \<open>Lists\<close>

lemma take_length_append: "length xs = n \<Longrightarrow> take n (xs @ ys) = xs"
  by simp

lemma drop_length_append: "length xs = n \<Longrightarrow> drop n (xs @ ys) = ys"
  by simp

lemma append_eq_same_length:
  "xs @ ys = us @ vs \<Longrightarrow> length xs = length us \<Longrightarrow> xs = us \<and> ys = vs"
  by simp

lemma filter_all_id: "list_all P xs \<Longrightarrow> filter P xs = xs"
  by (induction xs) auto

subsection \<open>Splitting and joining\<close>

text \<open>\<open>strings.Split\<close> at one character, and \<open>strings.Join\<close> with it.\<close>

fun split_at :: "'a \<Rightarrow> 'a list \<Rightarrow> 'a list list" where
  "split_at c [] = [[]]"
| "split_at c (x # xs) = (if x = c then [] # split_at c xs
     else case split_at c xs of [] \<Rightarrow> [[x]] | p # ps \<Rightarrow> (x # p) # ps)"

fun join_with :: "'a \<Rightarrow> 'a list list \<Rightarrow> 'a list" where
  "join_with c [] = []"
| "join_with c [p] = p"
| "join_with c (p # q # ps) = p @ c # join_with c (q # ps)"

lemma split_at_nonempty [simp]: "split_at c s \<noteq> []"
  by (induction s) (auto split: list.splits)

lemma split_at_absent: "c \<notin> set s \<Longrightarrow> split_at c s = [s]"
  by (induction s) auto

lemma split_at_append: "c \<notin> set a \<Longrightarrow> split_at c (a @ c # b) = a # split_at c b"
  by (induction a) auto

lemma split_at_app: "split_at c (a @ c # b) = split_at c a @ split_at c b"
  by (induction a) (auto split: list.splits)

lemma join_split: "join_with c (split_at c s) = s"
proof (induction s)
  case (Cons x s)
  obtain p ps where s: "split_at c s = p # ps" by (cases "split_at c s") auto
  show ?case
  proof (cases "x = c")
    case True
    then show ?thesis using Cons s by simp
  next
    case False
    have "join_with c ((x # p) # ps) = x # join_with c (p # ps)" by (cases ps) simp_all
    then show ?thesis using Cons s False by simp
  qed
qed simp

lemma split_at_clean: "p \<in> set (split_at c s) \<Longrightarrow> c \<notin> set p"
  by (induction s arbitrary: p) (auto split: if_splits list.splits)

lemma split_join: "ps \<noteq> [] \<Longrightarrow> (\<And>p. p \<in> set ps \<Longrightarrow> c \<notin> set p) \<Longrightarrow> split_at c (join_with c ps) = ps"
  by (induction c ps rule: join_with.induct) (simp_all add: split_at_append split_at_absent)

lemma split_at_one: "split_at c s = [a] \<Longrightarrow> s = a \<and> c \<notin> set a"
  using join_split [of c s] split_at_clean [of a c s] by simp

lemma split_at_two: "split_at c s = [a, b] \<Longrightarrow> s = a @ c # b \<and> c \<notin> set a \<and> c \<notin> set b"
  using join_split [of c s] split_at_clean [of a c s] split_at_clean [of b c s] by simp

lemma join_with_suffix: "n < length ps \<Longrightarrow> \<exists>pre. join_with c ps = pre @ join_with c (drop n ps)"
proof (induction c ps arbitrary: n rule: join_with.induct)
  case (3 c p q ps)
  show ?case
  proof (cases n)
    case (Suc k)
    then obtain pre where "join_with c (q # ps) = pre @ join_with c (drop k (q # ps))" using 3 by auto
    then have "join_with c (p # q # ps) = (p @ c # pre) @ join_with c (drop n (p # q # ps))" using Suc by simp
    then show ?thesis by blast
  qed simp
qed auto

lemma join_with_Nil: "join_with c ps = [] \<longleftrightarrow> ps = [] \<or> ps = [[]]"
  by (cases "(c, ps)" rule: join_with.cases) auto

end
