(* ===== verification/Base64.thy ===== *)
theory Base64
  imports Prelude
begin

text \<open>
  \<open>encoding/base64\<close> and \<open>encoding/hex\<close> as the program uses them:
  \<open>StdEncoding.EncodeToString\<close> and \<open>StdEncoding.DecodeString\<close> (nonces, MACs, keys,
  ciphertexts), \<open>RawURLEncoding.EncodeToString\<close> (session identifiers) and
  \<open>hex.EncodeToString\<close> (panel tokens and password hashes). The decoder is Go's: carriage
  returns and newlines are ignored, and the unused bits of the last digit are not checked.
\<close>

subsection \<open>Digits\<close>

definition std_alphabet :: string where
  "std_alphabet = ''ABCDEFGHIJKLMNOPQRSTUVWXYZabcdefghijklmnopqrstuvwxyz0123456789+/''"

definition url_alphabet :: string where
  "url_alphabet = ''ABCDEFGHIJKLMNOPQRSTUVWXYZabcdefghijklmnopqrstuvwxyz0123456789-_''"

definition b64_digit :: "string \<Rightarrow> nat \<Rightarrow> char" where
  "b64_digit alphabet n = alphabet ! (n mod 64)"

definition b64_value :: "char \<Rightarrow> nat option" where
  "b64_value c = (let n = of_char c in
     if 65 \<le> n \<and> n \<le> 90 then Some (n - 65)
     else if 97 \<le> n \<and> n \<le> 122 then Some (n - 97 + 26)
     else if 48 \<le> n \<and> n \<le> 57 then Some (n - 48 + 52)
     else if n = 43 then Some 62
     else if n = 47 then Some 63
     else None)"

lemma b64_values: "map b64_value std_alphabet = map Some [0..<64]"
  by (simp add: std_alphabet_def b64_value_def Let_def upt_conv_Cons)

lemma b64_value_digit [codec_simps]: "b64_value (b64_digit std_alphabet n) = Some (n mod 64)"
proof -
  have "length std_alphabet = 64" by (simp add: std_alphabet_def)
  then have "b64_value (std_alphabet ! (n mod 64)) = map b64_value std_alphabet ! (n mod 64)"
    by simp
  also have "\<dots> = Some (n mod 64)"
    unfolding b64_values by simp
  finally show ?thesis by (simp add: b64_digit_def)
qed

lemma b64_value_less: "b64_value c = Some n \<Longrightarrow> n < 64"
  by (auto simp: b64_value_def Let_def split: if_splits)

definition b64_plain_char :: "char \<Rightarrow> bool" where
  "b64_plain_char c \<longleftrightarrow> b64_value c \<noteq> None \<or> c = CHR ''=''"

subsection \<open>Encoding\<close>

definition b64_group :: "byte \<Rightarrow> byte \<Rightarrow> byte \<Rightarrow> nat" where
  "b64_group a b c = unat a * 65536 + unat b * 256 + unat c"

fun b64_encode :: "string \<Rightarrow> bool \<Rightarrow> bytes \<Rightarrow> string" where
  "b64_encode al pad [] = []"
| "b64_encode al pad [a] =
     (let n = b64_group a 0 0 in
      [b64_digit al (n div 262144), b64_digit al (n div 4096)] @ (if pad then ''=='' else ''''))"
| "b64_encode al pad [a, b] =
     (let n = b64_group a b 0 in
      [b64_digit al (n div 262144), b64_digit al (n div 4096), b64_digit al (n div 64)]
        @ (if pad then ''='' else ''''))"
| "b64_encode al pad (a # b # c # rest) =
     (let n = b64_group a b c in
      [b64_digit al (n div 262144), b64_digit al (n div 4096), b64_digit al (n div 64),
       b64_digit al n] @ b64_encode al pad rest)"

definition StdEncodeToString :: "bytes \<Rightarrow> string" where
  "StdEncodeToString bs = b64_encode std_alphabet True bs"

definition RawURLEncodeToString :: "bytes \<Rightarrow> string" where
  "RawURLEncodeToString bs = b64_encode url_alphabet False bs"

subsection \<open>Decoding\<close>

definition byte_of_nat :: "nat \<Rightarrow> byte" where
  "byte_of_nat n = word_of_nat n"

fun b64_quanta :: "string \<Rightarrow> bytes result" where
  "b64_quanta [] = Inr []"
| "b64_quanta (a # b # c # d # rest) =
     (case (b64_value a, b64_value b) of
        (Some x, Some y) \<Rightarrow>
          (if c = CHR ''='' then
             (if d = CHR ''='' \<and> rest = [] then Inr [byte_of_nat (x * 4 + y div 16)]
              else Inl EBase64)
           else (case b64_value c of
             None \<Rightarrow> Inl EBase64
           | Some z \<Rightarrow>
               (if d = CHR ''='' then
                  (if rest = [] then
                     Inr [byte_of_nat (x * 4 + y div 16), byte_of_nat (y * 16 + z div 4)]
                   else Inl EBase64)
                else (case b64_value d of
                  None \<Rightarrow> Inl EBase64
                | Some w \<Rightarrow>
                    (case b64_quanta rest of
                       Inl e \<Rightarrow> Inl e
                     | Inr bs \<Rightarrow> Inr (byte_of_nat (x * 4 + y div 16)
                                     # byte_of_nat (y * 16 + z div 4)
                                     # byte_of_nat (z * 64 + w) # bs))))))
      | _ \<Rightarrow> Inl EBase64)"
| "b64_quanta _ = Inl EBase64"

definition not_newline :: "char \<Rightarrow> bool" where
  "not_newline c \<longleftrightarrow> of_char c \<noteq> (10 :: nat) \<and> of_char c \<noteq> (13 :: nat)"

definition StdDecodeString :: "string \<Rightarrow> bytes result" where
  "StdDecodeString s = b64_quanta (filter not_newline s)"

subsection \<open>Round trip and lengths\<close>

lemma byte_of_nat_unat: "n mod 256 = unat b \<Longrightarrow> byte_of_nat n = b"
  by (rule word_unat_eq_iff [THEN iffD2]) (simp add: byte_of_nat_def unat_of_nat)

text \<open>The four digits of a group in terms of its three bytes.\<close>

lemma scale_mod:
  fixes a c k m :: nat
  assumes "c < k" and "0 < m"
  shows "(a * k + c) mod (m * k) = (a mod m) * k + c"
proof -
  have "a mod m * k + c < m * k"
  proof -
    have "(a mod m) * k + c < (a mod m) * k + k" using assms by simp
    also have "\<dots> = (a mod m + 1) * k" by simp
    also have "\<dots> \<le> m * k" using assms by (intro mult_right_mono) (simp_all add: Suc_le_eq)
    finally show ?thesis .
  qed
  moreover have "a * k + c = (a mod m * k + c) + (a div m) * (m * k)"
    by (metis (no_types, lifting) add.assoc add.commute distrib_right div_mult_mod_eq mult.assoc)
  ultimately show ?thesis by (metis mod_less mod_mult_self1)
qed

lemma group_digits:
  fixes a b c :: nat
  assumes "b < 256" and "c < 256"
  defines "n \<equiv> a * 65536 + b * 256 + c"
  shows "n div 262144 = a div 4"
    and "n div 4096 mod 64 = (a mod 4) * 16 + b div 16"
    and "n div 64 mod 64 = (b mod 16) * 4 + c div 64"
    and "n mod 64 = c mod 64"
proof -
  have n256: "n div 256 = a * 256 + b"
    using assms by simp
  have n64: "n div 64 = (a * 256 + b) * 4 + c div 64"
    using assms by simp
  have n65536: "n div 65536 = a"
    using div_mult2_eq [of n 256 256] n256 assms by simp
  show "n div 262144 = a div 4"
    using div_mult2_eq [of n 65536 4] n65536 by simp
  have "n div 4096 = (a * 256 + b) div 16"
    using div_mult2_eq [of n 256 16] n256 by simp
  also have "\<dots> = a * 16 + b div 16" by simp
  finally show "n div 4096 mod 64 = (a mod 4) * 16 + b div 16"
    using scale_mod [of "b div 16" 16 4 a] assms by simp
  have "(a * 256 + b) mod 16 = b mod 16"
    using mod_mult_self3 [of "a * 16" 16 b] by (simp add: mult.commute)
  then show "n div 64 mod 64 = (b mod 16) * 4 + c div 64"
    unfolding n64 using scale_mod [of "c div 64" 4 16 "a * 256 + b"] assms by simp
  have "n = (a * 1024 + b * 4) * 64 + c" by (simp add: n_def)
  then show "n mod 64 = c mod 64" by (metis mod_mult_self3)
qed

lemma b64_digit_neq_pad [simp]: "b64_digit std_alphabet n \<noteq> CHR ''=''"
proof
  assume "b64_digit std_alphabet n = CHR ''=''"
  then have "b64_value (CHR ''='') = Some (n mod 64)"
    using b64_value_digit [of n] by simp
  then show False by (simp add: b64_value_def)
qed

lemma group_bytes:
  fixes a b c :: byte
  defines "n \<equiv> b64_group a b c"
  shows "byte_of_nat ((n div 262144 mod 64) * 4 + (n div 4096 mod 64) div 16) = a"
    and "byte_of_nat ((n div 4096 mod 64) * 16 + (n div 64 mod 64) div 4) = b"
    and "byte_of_nat ((n div 64 mod 64) * 64 + n mod 64) = c"
proof -
  have le: "unat a < 256" "unat b < 256" "unat c < 256" by simp_all
  note d = group_digits [OF le(2,3), of "unat a", folded b64_group_def, folded n_def]
  have small: "unat b div 16 < 16" "unat c div 64 < 4" "unat a div 4 < 64"
    using le by (simp_all add: less_mult_imp_div_less)
  have "((unat a mod 4) * 16 + unat b div 16) div 16 = unat a mod 4" using small by simp
  then show "byte_of_nat ((n div 262144 mod 64) * 4 + (n div 4096 mod 64) div 16) = a"
    using le small by (intro byte_of_nat_unat) (simp add: d div_mult_mod_eq)
  have "(((unat a mod 4) * 16 + unat b div 16) * 16 + unat b mod 16) mod 256 = unat b"
  proof -
    have "(((unat a mod 4) * 16 + unat b div 16) * 16 + unat b mod 16)
        = (unat a mod 4) * 256 + (unat b div 16 * 16 + unat b mod 16)" by simp
    also have "\<dots> = (unat a mod 4) * 256 + unat b" by (simp only: div_mult_mod_eq)
    finally show ?thesis using le by (simp only: mod_mult_self3 mod_less)
  qed
  moreover have "((unat b mod 16) * 4 + unat c div 64) div 4 = unat b mod 16" using small by simp
  ultimately show "byte_of_nat ((n div 4096 mod 64) * 16 + (n div 64 mod 64) div 4) = b"
    by (intro byte_of_nat_unat) (simp only: d)
  have "(((unat b mod 16) * 4 + unat c div 64) * 64 + unat c mod 64) mod 256 = unat c"
  proof -
    have "(((unat b mod 16) * 4 + unat c div 64) * 64 + unat c mod 64)
        = (unat b mod 16) * 256 + (unat c div 64 * 64 + unat c mod 64)" by simp
    also have "\<dots> = (unat b mod 16) * 256 + unat c" by (simp only: div_mult_mod_eq)
    finally show ?thesis using le by (simp only: mod_mult_self3 mod_less)
  qed
  then show "byte_of_nat ((n div 64 mod 64) * 64 + n mod 64) = c"
    by (intro byte_of_nat_unat) (simp only: d)
qed

lemma b64_quanta_encode: "b64_quanta (b64_encode std_alphabet True bs) = Inr bs"
proof (induction "std_alphabet" True bs rule: b64_encode.induct)
  case (2 a)
  then show ?case using group_bytes [of a 0 0] by (simp add: Let_def b64_value_digit)
next
  case (3 a b)
  then show ?case using group_bytes [of a b 0] by (simp add: Let_def b64_value_digit)
next
  case (4 a b c rest)
  then show ?case using group_bytes [of a b c] by (simp add: Let_def b64_value_digit)
qed simp

lemma b64_digit_plain: "b64_plain_char (b64_digit std_alphabet n)"
  by (simp add: b64_plain_char_def b64_value_digit)

lemma b64_encode_plain: "list_all b64_plain_char (b64_encode std_alphabet True bs)"
  by (induction "std_alphabet" True bs rule: b64_encode.induct)
    (auto simp: Let_def b64_digit_plain b64_plain_char_def b64_value_digit)

lemma b64_plain_not_newline: "b64_plain_char c \<Longrightarrow> not_newline c"
  by (auto simp: b64_plain_char_def not_newline_def b64_value_def Let_def split: if_splits)

lemma StdDecode_Encode [simp, codec_simps]: "StdDecodeString (StdEncodeToString bs) = Inr bs"
proof -
  have "list_all not_newline (b64_encode std_alphabet True bs)"
    using b64_encode_plain [of bs] by (auto simp: list_all_iff intro: b64_plain_not_newline)
  then show ?thesis
    by (simp add: StdDecodeString_def StdEncodeToString_def filter_all_id b64_quanta_encode)
qed

lemma StdEncode_inject [simp]: "StdEncodeToString a = StdEncodeToString b \<longleftrightarrow> a = b"
  by (metis StdDecode_Encode Inr_inject)

lemma length_StdEncode [len_simps]: "length (StdEncodeToString bs) = 4 * ((length bs + 2) div 3)"
  unfolding StdEncodeToString_def
proof (induction "std_alphabet" True bs rule: b64_encode.induct)
  case (4 a b c rest)
  have "(5 + length rest) div 3 = Suc ((2 + length rest) div 3)" by presburger
  with 4 show ?case by (simp add: Let_def)
qed (auto simp: Let_def)

lemma StdEncode_empty [simp]: "StdEncodeToString [] = []"
  by (simp add: StdEncodeToString_def)

lemma StdEncode_eq_Nil [simp]: "StdEncodeToString bs = [] \<longleftrightarrow> bs = []"
  by (metis StdEncode_inject StdEncode_empty)

lemma StdDecode_empty [simp]: "StdDecodeString [] = Inr []"
  by (simp add: StdDecodeString_def)

lemma RawURL_eq_Nil [simp]: "RawURLEncodeToString bs = [] \<longleftrightarrow> bs = []"
  by (cases "(url_alphabet, False, bs)" rule: b64_encode.cases)
    (simp_all add: RawURLEncodeToString_def Let_def)

lemma b64_quanta_length: "b64_quanta s = Inr bs \<Longrightarrow> length bs \<le> 3 * (length s div 4)"
proof (induction s arbitrary: bs rule: b64_quanta.induct)
  case (2 a b c d rest)
  have "(4 + length rest) div 4 = Suc (length rest div 4)" by presburger
  with 2 show ?case
    by (fastforce split: option.splits if_splits sum.splits)
qed auto

text \<open>The decoder is not injective: newlines are skipped.\<close>

lemma StdDecode_newline: "StdDecodeString (CHR 0x0A # s) = StdDecodeString s"
  by (simp add: StdDecodeString_def not_newline_def)

subsection \<open>Hexadecimal\<close>

definition hex_digit :: "nat \<Rightarrow> char" where
  "hex_digit n = ''0123456789abcdef'' ! (n mod 16)"

definition hexEncodeToString :: "bytes \<Rightarrow> string" where
  "hexEncodeToString bs = concat (map (\<lambda>b. [hex_digit (unat b div 16), hex_digit (unat b)]) bs)"

lemma hex_digit_inject: "m < 16 \<Longrightarrow> n < 16 \<Longrightarrow> hex_digit m = hex_digit n \<longleftrightarrow> m = n"
proof -
  have "distinct ''0123456789abcdef''" by code_simp
  then show "m < 16 \<Longrightarrow> n < 16 \<Longrightarrow> hex_digit m = hex_digit n \<longleftrightarrow> m = n"
    by (simp add: hex_digit_def nth_eq_iff_index_eq)
qed

lemma hexEncode_inject [simp]: "hexEncodeToString a = hexEncodeToString b \<longleftrightarrow> a = b"
proof (induction a arbitrary: b)
  case Nil
  then show ?case by (cases b) (auto simp: hexEncodeToString_def)
next
  case (Cons x xs)
  show ?case
  proof (cases b)
    case Nil
    then show ?thesis by (simp add: hexEncodeToString_def)
  next
    case (Cons y ys)
    have "hex_digit (unat x div 16) = hex_digit (unat y div 16) \<and> hex_digit (unat x) = hex_digit (unat y)
        \<longleftrightarrow> x = y"
    proof
      assume h: "hex_digit (unat x div 16) = hex_digit (unat y div 16) \<and> hex_digit (unat x) = hex_digit (unat y)"
      have lt: "unat x div 16 < 16" "unat y div 16 < 16"
        using unat_byte_less [of x] unat_byte_less [of y] by linarith+
      have "hex_digit (unat x mod 16) = hex_digit (unat y mod 16)"
        using h by (simp add: hex_digit_def)
      then have "unat x mod 16 = unat y mod 16" "unat x div 16 = unat y div 16"
        using h lt by (auto simp: hex_digit_inject)
      then have "unat x = unat y" by (metis div_mult_mod_eq)
      then show "x = y" by (simp add: word_unat_eq_iff)
    qed simp
    then show ?thesis
      using Cons.IH [of ys] Cons by (auto simp: hexEncodeToString_def)
  qed
qed

lemma length_hexEncode [len_simps]: "length (hexEncodeToString bs) = 2 * length bs"
  by (induction bs) (auto simp: hexEncodeToString_def)

end
