(* ===== verification/Crypto.thy ===== *)
theory Crypto
  imports Prelude
begin

text \<open>
  The primitives of Go's \<open>crypto\<close> packages the program calls, written from their standards:
  \<open>sha256\<close> (FIPS 180-4), \<open>hmac\<close> over it (FIPS 198-1) and AES-256 in Galois counter mode with
  a 12-byte nonce and no additional data (FIPS 197, SP 800-38D), as \<open>cipher.NewGCM\<close> builds it.
  What the rest of the development uses of them is at the end of the theory: output lengths,
  and the interface \<open>aead\<close> (opening a sealed message gives the message back; a ciphertext
  shorter than a tag is refused), which AES-GCM is shown to satisfy. The X25519 function
  itself (RFC 7748) is the one primitive that stays a parameter, in the theory \<open>Handshake\<close>.
\<close>

subsection \<open>SHA-256\<close>

type_synonym word32 = "32 word"

definition rotr :: "nat \<Rightarrow> word32 \<Rightarrow> word32" where
  "rotr n x = drop_bit n x OR push_bit (32 - n) x"

definition Ch :: "word32 \<Rightarrow> word32 \<Rightarrow> word32 \<Rightarrow> word32" where
  "Ch x y z = (x AND y) XOR (NOT x AND z)"

definition Maj :: "word32 \<Rightarrow> word32 \<Rightarrow> word32 \<Rightarrow> word32" where
  "Maj x y z = (x AND y) XOR (x AND z) XOR (y AND z)"

definition big_sigma0 :: "word32 \<Rightarrow> word32" where
  "big_sigma0 x = rotr 2 x XOR rotr 13 x XOR rotr 22 x"

definition big_sigma1 :: "word32 \<Rightarrow> word32" where
  "big_sigma1 x = rotr 6 x XOR rotr 11 x XOR rotr 25 x"

definition small_sigma0 :: "word32 \<Rightarrow> word32" where
  "small_sigma0 x = rotr 7 x XOR rotr 18 x XOR drop_bit 3 x"

definition small_sigma1 :: "word32 \<Rightarrow> word32" where
  "small_sigma1 x = rotr 17 x XOR rotr 19 x XOR drop_bit 10 x"

definition sha256_k :: "word32 list" where
  "sha256_k =
    [1116352408, 1899447441, 3049323471, 3921009573, 961987163, 1508970993, 2453635748, 2870763221,
     3624381080, 310598401, 607225278, 1426881987, 1925078388, 2162078206, 2614888103, 3248222580,
     3835390401, 4022224774, 264347078, 604807628, 770255983, 1249150122, 1555081692, 1996064986,
     2554220882, 2821834349, 2952996808, 3210313671, 3336571891, 3584528711, 113926993, 338241895,
     666307205, 773529912, 1294757372, 1396182291, 1695183700, 1986661051, 2177026350, 2456956037,
     2730485921, 2820302411, 3259730800, 3345764771, 3516065817, 3600352804, 4094571909, 275423344,
     430227734, 506948616, 659060556, 883997877, 958139571, 1322822218, 1537002063, 1747873779,
     1955562222, 2024104815, 2227730452, 2361852424, 2428436474, 2756734187, 3204031479, 3329325298]"

type_synonym hash_state =
  "word32 \<times> word32 \<times> word32 \<times> word32 \<times> word32 \<times> word32 \<times> word32 \<times> word32"

definition sha256_init :: hash_state where
  "sha256_init = (1779033703, 3144134277, 1013904242, 2773480762, 1359893119, 2600822924, 528734635, 1541459225)"

definition sha256_pad :: "bytes \<Rightarrow> bytes" where
  "sha256_pad m = (let l = length m; z = (119 - l mod 64) mod 64 in
     m @ [0x80] @ replicate z 0
       @ be32 (word_of_nat (8 * l div 2 ^ 32)) @ be32 (word_of_nat (8 * l)))"

fun words_of_bytes :: "bytes \<Rightarrow> word32 list" where
  "words_of_bytes (a # b # c # d # rest) = un_be32 a b c d # words_of_bytes rest"
| "words_of_bytes _ = []"

text \<open>The message schedule, kept newest word first.\<close>

fun sha256_extend :: "nat \<Rightarrow> word32 list \<Rightarrow> word32 list" where
  "sha256_extend 0 ws = ws"
| "sha256_extend (Suc k) ws = sha256_extend k
     ((small_sigma1 (ws ! 1) + ws ! 6 + small_sigma0 (ws ! 14) + ws ! 15) # ws)"

definition sha256_schedule :: "word32 list \<Rightarrow> word32 list" where
  "sha256_schedule block = rev (sha256_extend 48 (rev block))"

fun sha256_round :: "hash_state \<Rightarrow> word32 \<times> word32 \<Rightarrow> hash_state" where
  "sha256_round (a, b, c, d, e, f, g, h) (k, w) =
     (let t1 = h + big_sigma1 e + Ch e f g + k + w;
          t2 = big_sigma0 a + Maj a b c
      in (t1 + t2, a, b, c, d + t1, e, f, g))"

fun sha256_add :: "hash_state \<Rightarrow> hash_state \<Rightarrow> hash_state" where
  "sha256_add (a, b, c, d, e, f, g, h) (a', b', c', d', e', f', g', h') =
     (a + a', b + b', c + c', d + d', e + e', f + f', g + g', h + h')"

definition sha256_block :: "hash_state \<Rightarrow> word32 list \<Rightarrow> hash_state" where
  "sha256_block st block =
     sha256_add st (foldl sha256_round st (zip sha256_k (sha256_schedule block)))"

fun sha256_blocks :: "nat \<Rightarrow> hash_state \<Rightarrow> word32 list \<Rightarrow> hash_state" where
  "sha256_blocks 0 st ws = st"
| "sha256_blocks (Suc n) st ws = sha256_blocks n (sha256_block st (take 16 ws)) (drop 16 ws)"

fun sha256_output :: "hash_state \<Rightarrow> bytes" where
  "sha256_output (a, b, c, d, e, f, g, h) =
     be32 a @ be32 b @ be32 c @ be32 d @ be32 e @ be32 f @ be32 g @ be32 h"

definition sha256 :: "bytes \<Rightarrow> bytes" where
  "sha256 m = (let p = sha256_pad m in
     sha256_output (sha256_blocks (length p div 64) sha256_init (words_of_bytes p)))"

lemma length_sha256_output [simp]: "length (sha256_output st) = 32"
  by (cases st rule: sha256_output.cases) simp

lemma length_sha256 [simp, len_simps]: "length (sha256 m) = 32"
  by (simp add: sha256_def Let_def del: sha256_blocks.simps)

subsection \<open>HMAC\<close>

definition hmac_key :: "bytes \<Rightarrow> bytes" where
  "hmac_key k = (let k0 = if length k > 64 then sha256 k else k in
     k0 @ replicate (64 - length k0) 0)"

definition hmac :: "bytes \<Rightarrow> bytes \<Rightarrow> bytes" where
  "hmac k m = sha256 (map (\<lambda>x. x XOR 0x5c) (hmac_key k)
     @ sha256 (map (\<lambda>x. x XOR 0x36) (hmac_key k) @ m))"

lemma length_hmac [simp, len_simps]: "length (hmac k m) = 32"
  by (simp add: hmac_def)

subsection \<open>AES-256\<close>

definition aes_sbox :: "byte list" where
  "aes_sbox =
    [0x63, 0x7c, 0x77, 0x7b, 0xf2, 0x6b, 0x6f, 0xc5, 0x30, 0x1, 0x67, 0x2b, 0xfe, 0xd7, 0xab, 0x76,
     0xca, 0x82, 0xc9, 0x7d, 0xfa, 0x59, 0x47, 0xf0, 0xad, 0xd4, 0xa2, 0xaf, 0x9c, 0xa4, 0x72, 0xc0,
     0xb7, 0xfd, 0x93, 0x26, 0x36, 0x3f, 0xf7, 0xcc, 0x34, 0xa5, 0xe5, 0xf1, 0x71, 0xd8, 0x31, 0x15,
     0x4, 0xc7, 0x23, 0xc3, 0x18, 0x96, 0x5, 0x9a, 0x7, 0x12, 0x80, 0xe2, 0xeb, 0x27, 0xb2, 0x75,
     0x9, 0x83, 0x2c, 0x1a, 0x1b, 0x6e, 0x5a, 0xa0, 0x52, 0x3b, 0xd6, 0xb3, 0x29, 0xe3, 0x2f, 0x84,
     0x53, 0xd1, 0x0, 0xed, 0x20, 0xfc, 0xb1, 0x5b, 0x6a, 0xcb, 0xbe, 0x39, 0x4a, 0x4c, 0x58, 0xcf,
     0xd0, 0xef, 0xaa, 0xfb, 0x43, 0x4d, 0x33, 0x85, 0x45, 0xf9, 0x2, 0x7f, 0x50, 0x3c, 0x9f, 0xa8,
     0x51, 0xa3, 0x40, 0x8f, 0x92, 0x9d, 0x38, 0xf5, 0xbc, 0xb6, 0xda, 0x21, 0x10, 0xff, 0xf3, 0xd2,
     0xcd, 0xc, 0x13, 0xec, 0x5f, 0x97, 0x44, 0x17, 0xc4, 0xa7, 0x7e, 0x3d, 0x64, 0x5d, 0x19, 0x73,
     0x60, 0x81, 0x4f, 0xdc, 0x22, 0x2a, 0x90, 0x88, 0x46, 0xee, 0xb8, 0x14, 0xde, 0x5e, 0xb, 0xdb,
     0xe0, 0x32, 0x3a, 0xa, 0x49, 0x6, 0x24, 0x5c, 0xc2, 0xd3, 0xac, 0x62, 0x91, 0x95, 0xe4, 0x79,
     0xe7, 0xc8, 0x37, 0x6d, 0x8d, 0xd5, 0x4e, 0xa9, 0x6c, 0x56, 0xf4, 0xea, 0x65, 0x7a, 0xae, 0x8,
     0xba, 0x78, 0x25, 0x2e, 0x1c, 0xa6, 0xb4, 0xc6, 0xe8, 0xdd, 0x74, 0x1f, 0x4b, 0xbd, 0x8b, 0x8a,
     0x70, 0x3e, 0xb5, 0x66, 0x48, 0x3, 0xf6, 0xe, 0x61, 0x35, 0x57, 0xb9, 0x86, 0xc1, 0x1d, 0x9e,
     0xe1, 0xf8, 0x98, 0x11, 0x69, 0xd9, 0x8e, 0x94, 0x9b, 0x1e, 0x87, 0xe9, 0xce, 0x55, 0x28, 0xdf,
     0x8c, 0xa1, 0x89, 0xd, 0xbf, 0xe6, 0x42, 0x68, 0x41, 0x99, 0x2d, 0xf, 0xb0, 0x54, 0xbb, 0x16]"

definition sub_byte :: "byte \<Rightarrow> byte" where
  "sub_byte b = aes_sbox ! unat b"

definition xtime :: "byte \<Rightarrow> byte" where
  "xtime b = push_bit 1 b XOR (if bit b 7 then 0x1b else 0)"

definition xor_bytes :: "bytes \<Rightarrow> bytes \<Rightarrow> bytes" where
  "xor_bytes a b = map2 (XOR) a b"

text \<open>A block is 16 bytes, column by column; \<open>shift_rows\<close> reads row \<open>r\<close> from column \<open>c + r\<close>.\<close>

definition shift_rows :: "bytes \<Rightarrow> bytes" where
  "shift_rows s = map (\<lambda>i. s ! ((i + 4 * (i mod 4)) mod 16)) [0..<16]"

fun mix_columns :: "bytes \<Rightarrow> bytes" where
  "mix_columns (a # b # c # d # rest) =
     (xtime a XOR xtime b XOR b XOR c XOR d) # (a XOR xtime b XOR xtime c XOR c XOR d)
     # (a XOR b XOR xtime c XOR xtime d XOR d) # (xtime a XOR a XOR b XOR c XOR xtime d)
     # mix_columns rest"
| "mix_columns _ = []"

definition aes_rcon :: "byte list" where
  "aes_rcon = [0x01, 0x02, 0x04, 0x08, 0x10, 0x20, 0x40]"

text \<open>The key schedule of a 32-byte key: 60 words of 4 bytes, kept newest first.\<close>

definition key_word :: "nat \<Rightarrow> bytes list \<Rightarrow> bytes" where
  "key_word i ws = (let t = hd ws in
     xor_bytes (ws ! 7)
      (if i mod 8 = 0 then
         xor_bytes (map sub_byte (rotate1 t)) [aes_rcon ! (i div 8 - 1), 0, 0, 0]
       else if i mod 8 = 4 then map sub_byte t
       else t))"

fun expand_key :: "nat \<Rightarrow> nat \<Rightarrow> bytes list \<Rightarrow> bytes list" where
  "expand_key 0 i ws = ws"
| "expand_key (Suc k) i ws = expand_key k (Suc i) (key_word i ws # ws)"

definition key_words :: "bytes \<Rightarrow> bytes list" where
  "key_words key = map (\<lambda>i. take 4 (drop (4 * i) key)) [0..<8]"

definition key_schedule :: "bytes \<Rightarrow> bytes" where
  "key_schedule key = concat (rev (expand_key 52 8 (rev (key_words key))))"

definition round_key :: "bytes \<Rightarrow> nat \<Rightarrow> bytes" where
  "round_key w r = take 16 (drop (16 * r) w)"

definition aes_round :: "bytes \<Rightarrow> bytes \<Rightarrow> bytes" where
  "aes_round s k = xor_bytes (mix_columns (shift_rows (map sub_byte s))) k"

definition aes256 :: "bytes \<Rightarrow> bytes \<Rightarrow> bytes" where
  "aes256 key block = (let w = key_schedule key;
       s = foldl aes_round (xor_bytes block (round_key w 0)) (map (round_key w) [1..<14])
     in xor_bytes (shift_rows (map sub_byte s)) (round_key w 14))"

subsection \<open>Galois counter mode\<close>

definition word128 :: "bytes \<Rightarrow> 128 word" where
  "word128 bs = foldl (\<lambda>acc b. push_bit 8 acc OR ucast b) 0 bs"

definition bytes128 :: "128 word \<Rightarrow> bytes" where
  "bytes128 w = map (\<lambda>i. ucast (drop_bit (8 * (15 - i)) w)) [0..<16]"

text \<open>Multiplication in the field of 2^128 elements; bit 0 of the standard is bit 127 here.\<close>

fun gf_mult :: "nat \<Rightarrow> 128 word \<Rightarrow> 128 word \<Rightarrow> 128 word \<Rightarrow> 128 word" where
  "gf_mult 0 x v z = z"
| "gf_mult (Suc k) x v z =
     gf_mult k x
       (if bit v 0 then drop_bit 1 v XOR 0xe1000000000000000000000000000000 else drop_bit 1 v)
       (if bit x k then z XOR v else z)"

fun ghash_blocks :: "nat \<Rightarrow> 128 word \<Rightarrow> bytes \<Rightarrow> 128 word \<Rightarrow> 128 word" where
  "ghash_blocks 0 h bs y = y"
| "ghash_blocks (Suc n) h bs y =
     ghash_blocks n h (drop 16 bs) (gf_mult 128 (y XOR word128 (take 16 bs)) h 0)"

definition zero_pad16 :: "bytes \<Rightarrow> bytes" where
  "zero_pad16 bs = bs @ replicate ((16 - length bs mod 16) mod 16) 0"

definition ghash :: "128 word \<Rightarrow> bytes \<Rightarrow> 128 word" where
  "ghash h c = (let p = zero_pad16 c @ bytes128 (word_of_nat (8 * length c)) in
     ghash_blocks (length p div 16) h p 0)"

definition counter_block :: "bytes \<Rightarrow> nat \<Rightarrow> bytes" where
  "counter_block nonce i = nonce @ be32 (word_of_nat i)"

definition key_stream :: "bytes \<Rightarrow> bytes \<Rightarrow> nat \<Rightarrow> bytes" where
  "key_stream key nonce n =
     concat (map (\<lambda>i. bytes128 (word128 (aes256 key (counter_block nonce (i + 2)))))
       [0..<(n + 15) div 16])"

definition gcm_tag :: "bytes \<Rightarrow> bytes \<Rightarrow> bytes \<Rightarrow> bytes" where
  "gcm_tag key nonce c =
     bytes128 (ghash (word128 (aes256 key (replicate 16 0))) c
       XOR word128 (aes256 key (counter_block nonce 1)))"

definition gcm_crypt :: "bytes \<Rightarrow> bytes \<Rightarrow> bytes \<Rightarrow> bytes" where
  "gcm_crypt key nonce m = xor_bytes m (key_stream key nonce (length m))"

definition gcm_Seal :: "bytes \<Rightarrow> bytes \<Rightarrow> bytes \<Rightarrow> bytes" where
  "gcm_Seal key nonce m = (let c = gcm_crypt key nonce m in c @ gcm_tag key nonce c)"

definition gcm_Open :: "bytes \<Rightarrow> bytes \<Rightarrow> bytes \<Rightarrow> bytes result" where
  "gcm_Open key nonce ct =
     (if length ct < 16 then Inl ECipher
      else let c = take (length ct - 16) ct; tag = drop (length ct - 16) ct in
        if gcm_tag key nonce c = tag then Inr (gcm_crypt key nonce c) else Inl ECipher)"

subsection \<open>Facts about the mode\<close>

lemma length_bytes128 [simp, len_simps]: "length (bytes128 w) = 16"
  by (simp add: bytes128_def)

lemma length_concat_const: "(\<And>x. x \<in> set xs \<Longrightarrow> length (f x) = n) \<Longrightarrow>
    length (concat (map f xs)) = n * length xs"
  by (induction xs) auto

lemma length_key_stream: "n \<le> length (key_stream key nonce n)"
proof -
  have "length (key_stream key nonce n) = 16 * ((n + 15) div 16)"
    unfolding key_stream_def by (subst length_concat_const [where n = 16]) simp_all
  then show ?thesis by simp
qed

lemma length_xor_bytes [simp]: "length (xor_bytes a b) = min (length a) (length b)"
  by (simp add: xor_bytes_def)

lemma xor_bytes_cancel: "length a \<le> length b \<Longrightarrow> xor_bytes (xor_bytes a b) b = a"
  unfolding xor_bytes_def
proof (induction a arbitrary: b)
  case (Cons x xs)
  then show ?case by (cases b) (auto simp: xor.assoc)
qed simp

lemma length_gcm_crypt [simp, len_simps]: "length (gcm_crypt key nonce m) = length m"
  using length_key_stream [of "length m" key nonce] by (simp add: gcm_crypt_def)

lemma gcm_crypt_crypt [simp]: "gcm_crypt key nonce (gcm_crypt key nonce m) = m"
proof -
  have "gcm_crypt key nonce (gcm_crypt key nonce m)
      = xor_bytes (xor_bytes m (key_stream key nonce (length m))) (key_stream key nonce (length m))"
    by (metis gcm_crypt_def length_gcm_crypt)
  then show ?thesis by (simp add: xor_bytes_cancel length_key_stream)
qed

lemma length_gcm_tag [simp, len_simps]: "length (gcm_tag key nonce c) = 16"
  by (simp add: gcm_tag_def)

subsection \<open>The interface of an authenticated cipher\<close>

text \<open>
  What \<open>cipher.go\<close> relies on: a sealed message opens to itself, sealing adds exactly the
  tag, opening accepts only what sealing the opened text would produce, and the opened text
  has the length of the ciphertext without its tag.
\<close>

locale aead =
  fixes seal :: "bytes \<Rightarrow> bytes \<Rightarrow> bytes \<Rightarrow> bytes"
    and unseal :: "bytes \<Rightarrow> bytes \<Rightarrow> bytes \<Rightarrow> bytes result"
    and overhead :: nat
  assumes unseal_seal: "unseal k n (seal k n m) = Inr m"
    and length_seal: "length (seal k n m) = length m + overhead"
    and unseal_sound: "unseal k n c = Inr m \<Longrightarrow> c = seal k n m"
begin

lemma seal_inject: "seal k n m = seal k n m' \<longleftrightarrow> m = m'"
  by (metis unseal_seal Inr_inject)

lemma unseal_iff: "unseal k n c = Inr m \<longleftrightarrow> c = seal k n m"
  using unseal_seal unseal_sound by blast

lemma unseal_length: "unseal k n c = Inr m \<Longrightarrow> length c = length m + overhead"
  by (simp add: unseal_iff length_seal)

lemma unseal_short: "length c < overhead \<Longrightarrow> \<exists>e. unseal k n c = Inl e"
proof (cases "unseal k n c")
  case (Inr m)
  moreover assume "length c < overhead"
  ultimately show ?thesis using unseal_length [of k n c m] by simp
qed simp

end

lemma gcm_Open_sound:
  assumes "gcm_Open key nonce ct = Inr m"
  shows "ct = gcm_Seal key nonce m"
proof -
  let ?c = "take (length ct - 16) ct" and ?t = "drop (length ct - 16) ct"
  have "gcm_tag key nonce ?c = ?t" and m: "m = gcm_crypt key nonce ?c"
    using assms by (auto simp: gcm_Open_def Let_def split: if_splits)
  then show ?thesis by (simp add: gcm_Seal_def Let_def)
qed

interpretation gcm: aead gcm_Seal gcm_Open 16
proof unfold_locales
  show "gcm_Open k n (gcm_Seal k n m) = Inr m" for k n m
    by (simp add: gcm_Open_def gcm_Seal_def Let_def)
  show "length (gcm_Seal k n m) = length m + 16" for k n m
    by (simp add: gcm_Seal_def Let_def)
qed (rule gcm_Open_sound)

end
