(* ===== verification/GoJson.thy ===== *)
theory GoJson
  imports Prelude
begin

text \<open>
  \<open>encoding/json\<close> as the program uses it. \<open>json_parse\<close> is the package's scanner, a pushdown
  automaton that consumes one character at a time (so no fuel and no termination argument is
  needed), with its limit of 10000 open containers; \<open>json_print\<close> is the compact encoder with
  HTML escaping that \<open>json.Marshal\<close> uses. \<open>Unmarshal\<close> into a struct is \<open>obj_members\<close> followed
  by one \<open>field_...\<close> per struct field: member names match a field up to case folding, later
  members overwrite earlier ones, \<open>null\<close> leaves the field alone, a value of the wrong type or
  a number out of the field's range is an error. Main result: parsing a printed value gives it
  back (for ASCII strings), and a text cut inside a string never parses.
\<close>

subsection \<open>Values\<close>

datatype json =
    JNull
  | JBool bool
  | JNum string
  | JStr string
  | JArr "json list"
  | JObj "(string \<times> json) list"

abbreviation code :: "char \<Rightarrow> nat" where
  "code c \<equiv> of_char c"

subsection \<open>Strings: UTF-8, escaping, unescaping\<close>

definition between :: "nat \<Rightarrow> nat \<Rightarrow> nat \<Rightarrow> bool" where
  "between lo hi n \<longleftrightarrow> lo \<le> n \<and> n \<le> hi"

definition is_cont :: "char \<Rightarrow> bool" where
  "is_cont c \<longleftrightarrow> between 0x80 0xBF (code c)"

text \<open>The length of the well-formed UTF-8 sequence at the head of a string, 0 if there is none.\<close>

fun utf8_len :: "string \<Rightarrow> nat" where
  "utf8_len [] = 0"
| "utf8_len (a # rest) =
     (let n = code a in
      if n < 0x80 then 1
      else if between 0xC2 0xDF n then
        (case rest of b # _ \<Rightarrow> if is_cont b then 2 else 0 | _ \<Rightarrow> 0)
      else if between 0xE0 0xEF n then
        (case rest of b # c # _ \<Rightarrow>
           if between (if n = 0xE0 then 0xA0 else 0x80) (if n = 0xED then 0x9F else 0xBF) (code b)
              \<and> is_cont c then 3 else 0
         | _ \<Rightarrow> 0)
      else if between 0xF0 0xF4 n then
        (case rest of b # c # d # _ \<Rightarrow>
           if between (if n = 0xF0 then 0x90 else 0x80) (if n = 0xF4 then 0x8F else 0xBF) (code b)
              \<and> is_cont c \<and> is_cont d then 4 else 0
         | _ \<Rightarrow> 0)
      else 0)"

definition chr :: "nat \<Rightarrow> char" where
  "chr n = char_of n"

definition replacement :: string where
  "replacement = [chr 0xEF, chr 0xBF, chr 0xBD]"

definition utf8_encode :: "nat \<Rightarrow> string" where
  "utf8_encode r =
     (if r < 0x80 then [chr r]
      else if r < 0x800 then [chr (0xC0 + r div 64), chr (0x80 + r mod 64)]
      else if r < 0x10000 then
        [chr (0xE0 + r div 4096), chr (0x80 + r div 64 mod 64), chr (0x80 + r mod 64)]
      else [chr (0xF0 + r div 262144), chr (0x80 + r div 4096 mod 64),
            chr (0x80 + r div 64 mod 64), chr (0x80 + r mod 64)])"

definition hex_value :: "char \<Rightarrow> nat option" where
  "hex_value c = (let n = code c in
     if between 48 57 n then Some (n - 48)
     else if between 97 102 n then Some (n - 87)
     else if between 65 70 n then Some (n - 55)
     else None)"

text \<open>\<open>getu4\<close>: the rune of a \<open>\u\<close> escape at the head of a string.\<close>

fun getu4 :: "string \<Rightarrow> nat option" where
  "getu4 (e # u # a # b # c # d # _) =
     (if e = CHR 0x5C \<and> u = CHR ''u'' then
        (case (hex_value a, hex_value b, hex_value c, hex_value d) of
           (Some w, Some x, Some y, Some z) \<Rightarrow> Some (((w * 16 + x) * 16 + y) * 16 + z)
         | _ \<Rightarrow> None)
      else None)"
| "getu4 _ = None"

definition is_surrogate :: "nat \<Rightarrow> bool" where
  "is_surrogate r \<longleftrightarrow> between 0xD800 0xDFFF r"

definition decode_surrogates :: "nat \<Rightarrow> nat option \<Rightarrow> nat option" where
  "decode_surrogates hi lo = (case lo of
     Some l \<Rightarrow> (if between 0xD800 0xDBFF hi \<and> between 0xDC00 0xDFFF l
       then Some ((hi - 0xD800) * 1024 + (l - 0xDC00) + 0x10000) else None)
   | None \<Rightarrow> None)"

definition simple_escape :: "char \<Rightarrow> char" where
  "simple_escape c =
     (if c = CHR ''b'' then chr 8 else if c = CHR ''f'' then chr 12
      else if c = CHR ''n'' then chr 10 else if c = CHR ''r'' then chr 13
      else if c = CHR ''t'' then chr 9 else c)"

function unquote :: "string \<Rightarrow> string" where
  "unquote s = (case s of
     [] \<Rightarrow> []
   | c # rest \<Rightarrow>
       if c = CHR 0x5C then
         (case getu4 s of
            Some r \<Rightarrow>
              (if is_surrogate r then
                 (case decode_surrogates r (getu4 (drop 6 s)) of
                    Some r' \<Rightarrow> utf8_encode r' @ unquote (drop 12 s)
                  | None \<Rightarrow> replacement @ unquote (drop 6 s))
               else utf8_encode r @ unquote (drop 6 s))
          | None \<Rightarrow>
              (case rest of [] \<Rightarrow> [] | e # rest' \<Rightarrow> simple_escape e # unquote rest'))
       else if utf8_len s = 0 then replacement @ unquote rest
       else take (utf8_len s) s @ unquote (drop (utf8_len s) s))"
  by pat_completeness auto
termination
  by (relation "measure length") auto

declare unquote.simps [simp del]

definition hex_lower :: "nat \<Rightarrow> char" where
  "hex_lower n = ''0123456789abcdef'' ! (n mod 16)"

definition escape_u :: "nat \<Rightarrow> string" where
  "escape_u n = [CHR 0x5C, CHR ''u'', hex_lower (n div 4096), hex_lower (n div 256),
     hex_lower (n div 16), hex_lower n]"

definition escape_ascii :: "char \<Rightarrow> string" where
  "escape_ascii c = (let n = code c in
     if c = CHR 0x22 \<or> c = CHR 0x5C then [CHR 0x5C, c]
     else if n = 8 then [CHR 0x5C, CHR ''b''] else if n = 12 then [CHR 0x5C, CHR ''f'']
     else if n = 10 then [CHR 0x5C, CHR ''n''] else if n = 13 then [CHR 0x5C, CHR ''r'']
     else if n = 9 then [CHR 0x5C, CHR ''t'']
     else if n < 0x20 \<or> c = CHR ''<'' \<or> c = CHR ''>'' \<or> c = CHR ''&'' then escape_u n
     else [c])"

function escape :: "string \<Rightarrow> string" where
  "escape s = (case s of
     [] \<Rightarrow> []
   | c # rest \<Rightarrow>
       if code c < 0x80 then escape_ascii c @ escape rest
       else if utf8_len s = 0 then escape_u 0xFFFD @ escape rest
       else if take 3 s = [chr 0xE2, chr 0x80, chr 0xA8] then escape_u 0x2028 @ escape (drop 3 s)
       else if take 3 s = [chr 0xE2, chr 0x80, chr 0xA9] then escape_u 0x2029 @ escape (drop 3 s)
       else take (utf8_len s) s @ escape (drop (utf8_len s) s))"
  by pat_completeness auto
termination
  by (relation "measure length") auto

declare escape.simps [simp del]

subsection \<open>The encoder\<close>

definition json_quote :: "string \<Rightarrow> string" where
  "json_quote s = ''\"'' @ escape s @ ''\"''"

fun json_print :: "json \<Rightarrow> string"
and json_print_elems :: "json list \<Rightarrow> string"
and json_print_members :: "(string \<times> json) list \<Rightarrow> string" where
  "json_print JNull = ''null''"
| "json_print (JBool b) = (if b then ''true'' else ''false'')"
| "json_print (JNum l) = l"
| "json_print (JStr s) = json_quote s"
| "json_print (JArr vs) = ''['' @ json_print_elems vs @ '']''"
| "json_print (JObj ms) = ''{'' @ json_print_members ms @ ''}''"
| "json_print_elems [] = ''''"
| "json_print_elems [v] = json_print v"
| "json_print_elems (v # w # vs) = json_print v @ '','' @ json_print_elems (w # vs)"
| "json_print_members [] = ''''"
| "json_print_members [(k, v)] = json_quote k @ '':'' @ json_print v"
| "json_print_members ((k, v) # m # ms) =
     json_quote k @ '':'' @ json_print v @ '','' @ json_print_members (m # ms)"

subsection \<open>Integers as text\<close>

fun nat_digits :: "nat \<Rightarrow> string" where
  "nat_digits n = (if n < 10 then [chr (48 + n)] else nat_digits (n div 10) @ [chr (48 + n mod 10)])"

declare nat_digits.simps [simp del]

definition int_text :: "int \<Rightarrow> string" where
  "int_text i = (if i < 0 then ''-'' @ nat_digits (nat (- i)) else nat_digits (nat i))"

definition is_digit :: "char \<Rightarrow> bool" where
  "is_digit c \<longleftrightarrow> between 48 57 (code c)"

text \<open>\<open>strconv.ParseUint\<close> and \<open>strconv.ParseInt\<close>, base 10, before the range check.\<close>

definition parse_digits :: "string \<Rightarrow> nat option" where
  "parse_digits s = (if s \<noteq> [] \<and> list_all is_digit s
     then Some (foldl (\<lambda>n c. n * 10 + (code c - 48)) 0 s) else None)"

definition parse_int :: "string \<Rightarrow> int option" where
  "parse_int s = (case s of
     c # rest \<Rightarrow>
       (if c = CHR ''-'' then map_option (\<lambda>n. - int n) (parse_digits rest)
        else if c = CHR ''+'' then map_option int (parse_digits rest)
        else map_option int (parse_digits s))
   | [] \<Rightarrow> None)"

subsection \<open>The scanner\<close>

text \<open>
  The open containers, innermost first: an array with its elements so far, or an object with
  its members so far and the key whose value is being read (both newest first).
\<close>

datatype container =
    FArr "json list"
  | FObj "(string \<times> json) list" string

datatype numstate = NNeg | N0 | N1 | NDot | NDot0 | NE | NESign | NE0

datatype strstate = SNormal | SEsc | SHex nat

datatype mode =
    MBegin                                   \<comment> \<open>a value must start here\<close>
  | MBeginOrEmpty                            \<comment> \<open>after \<open>[\<close>: a value or \<open>]\<close>\<close>
  | MKeyOrEmpty                              \<comment> \<open>after \<open>{\<close>: a key or \<open>}\<close>\<close>
  | MKey "(string \<times> json) list"             \<comment> \<open>after \<open>,\<close> in an object\<close>
  | MColon "(string \<times> json) list" string    \<comment> \<open>after a key\<close>
  | MEnd json                                \<comment> \<open>after a value\<close>
  | MStr strstate string                     \<comment> \<open>inside a string value, body newest first\<close>
  | MKeyStr "(string \<times> json) list" strstate string
  | MNum numstate string
  | MLit string json                         \<comment> \<open>inside \<open>true\<close>, \<open>false\<close>, \<open>null\<close>: what is left\<close>
  | MErr

type_synonym jstate = "container list \<times> mode"

definition is_space :: "char \<Rightarrow> bool" where
  "is_space c \<longleftrightarrow> (let n = code c in n = 32 \<or> n = 9 \<or> n = 10 \<or> n = (13 :: nat))"

definition max_depth :: nat where
  "max_depth = 10000"

definition begin_value :: "container list \<Rightarrow> char \<Rightarrow> jstate" where
  "begin_value st c =
     (if c = CHR ''{'' then (st, if length st < max_depth then MKeyOrEmpty else MErr)
      else if c = CHR ''['' then
        (if length st < max_depth then (FArr [] # st, MBeginOrEmpty) else (st, MErr))
      else if c = CHR 0x22 then (st, MStr SNormal [])
      else if c = CHR ''-'' then (st, MNum NNeg [c])
      else if c = CHR ''0'' then (st, MNum N0 [c])
      else if c = CHR ''t'' then (st, MLit ''rue'' (JBool True))
      else if c = CHR ''f'' then (st, MLit ''alse'' (JBool False))
      else if c = CHR ''n'' then (st, MLit ''ull'' JNull)
      else if is_digit c then (st, MNum N1 [c])
      else (st, MErr))"

definition end_value :: "container list \<Rightarrow> json \<Rightarrow> char \<Rightarrow> jstate" where
  "end_value st v c =
     (if is_space c then (st, MEnd v)
      else case st of
        [] \<Rightarrow> (st, MErr)
      | FArr vs # st' \<Rightarrow>
          (if c = CHR '','' then (FArr (v # vs) # st', MBegin)
           else if c = CHR '']'' then (st', MEnd (JArr (rev (v # vs))))
           else (st, MErr))
      | FObj ms k # st' \<Rightarrow>
          (if c = CHR '','' then (st', MKey ((k, v) # ms))
           else if c = CHR ''}'' then (st', MEnd (JObj (rev ((k, v) # ms))))
           else (st, MErr)))"

text \<open>One character inside a string: \<open>None\<close> is an invalid character or escape.\<close>

fun string_step :: "strstate \<Rightarrow> char \<Rightarrow> strstate option" where
  "string_step SNormal c =
     (if c = CHR 0x5C then Some SEsc else if code c < 0x20 then None else Some SNormal)"
| "string_step SEsc c =
     (if c \<in> set [CHR ''b'', CHR ''f'', CHR ''n'', CHR ''r'', CHR ''t'', CHR 0x5C, CHR ''/'', CHR 0x22]
      then Some SNormal else if c = CHR ''u'' then Some (SHex 4) else None)"
| "string_step (SHex n) c =
     (if hex_value c = None then None else if n \<le> 1 then Some SNormal else Some (SHex (n - 1)))"

text \<open>One character inside a number: the next state, or \<open>None\<close> when the number ends before it.\<close>

fun number_step :: "numstate \<Rightarrow> char \<Rightarrow> numstate option" where
  "number_step NNeg c = (if c = CHR ''0'' then Some N0 else if is_digit c then Some N1 else None)"
| "number_step N0 c = (if c = CHR ''.'' then Some NDot
     else if c = CHR ''e'' \<or> c = CHR ''E'' then Some NE else None)"
| "number_step N1 c = (if is_digit c then Some N1 else if c = CHR ''.'' then Some NDot
     else if c = CHR ''e'' \<or> c = CHR ''E'' then Some NE else None)"
| "number_step NDot c = (if is_digit c then Some NDot0 else None)"
| "number_step NDot0 c = (if is_digit c then Some NDot0
     else if c = CHR ''e'' \<or> c = CHR ''E'' then Some NE else None)"
| "number_step NE c = (if c = CHR ''+'' \<or> c = CHR ''-'' then Some NESign
     else if is_digit c then Some NE0 else None)"
| "number_step NESign c = (if is_digit c then Some NE0 else None)"
| "number_step NE0 c = (if is_digit c then Some NE0 else None)"

definition number_final :: "numstate \<Rightarrow> bool" where
  "number_final n \<longleftrightarrow> (case n of N0 \<Rightarrow> True | N1 \<Rightarrow> True | NDot0 \<Rightarrow> True | NE0 \<Rightarrow> True | _ \<Rightarrow> False)"

fun json_step :: "jstate \<Rightarrow> char \<Rightarrow> jstate" where
  "json_step (st, MBegin) c = (if is_space c then (st, MBegin) else begin_value st c)"
| "json_step (st, MBeginOrEmpty) c =
     (if is_space c then (st, MBeginOrEmpty)
      else if c = CHR '']'' then (tl st, MEnd (JArr []))
      else begin_value st c)"
| "json_step (st, MKeyOrEmpty) c =
     (if is_space c then (st, MKeyOrEmpty)
      else if c = CHR ''}'' then (st, MEnd (JObj []))
      else if c = CHR 0x22 then (st, MKeyStr [] SNormal []) else (st, MErr))"
| "json_step (st, MKey ms) c =
     (if is_space c then (st, MKey ms)
      else if c = CHR 0x22 then (st, MKeyStr ms SNormal []) else (st, MErr))"
| "json_step (st, MColon ms k) c =
     (if is_space c then (st, MColon ms k)
      else if c = CHR '':'' then (FObj ms k # st, MBegin) else (st, MErr))"
| "json_step (st, MEnd v) c = end_value st v c"
| "json_step (st, MStr q acc) c =
     (if q = SNormal \<and> c = CHR 0x22 then (st, MEnd (JStr (unquote (rev acc))))
      else case string_step q c of None \<Rightarrow> (st, MErr) | Some q' \<Rightarrow> (st, MStr q' (c # acc)))"
| "json_step (st, MKeyStr ms q acc) c =
     (if q = SNormal \<and> c = CHR 0x22 then (st, MColon ms (unquote (rev acc)))
      else case string_step q c of None \<Rightarrow> (st, MErr) | Some q' \<Rightarrow> (st, MKeyStr ms q' (c # acc)))"
| "json_step (st, MNum n acc) c =
     (case number_step n c of
        Some n' \<Rightarrow> (st, MNum n' (c # acc))
      | None \<Rightarrow> (if number_final n then end_value st (JNum (rev acc)) c else (st, MErr)))"
| "json_step (st, MLit l v) c =
     (case l of
        x # rest \<Rightarrow> (if c = x then (st, if rest = [] then MEnd v else MLit rest v) else (st, MErr))
      | [] \<Rightarrow> (st, MErr))"
| "json_step (st, MErr) c = (st, MErr)"

definition json_run :: "jstate \<Rightarrow> string \<Rightarrow> jstate" where
  "json_run s cs = foldl json_step s cs"

definition json_finish :: "jstate \<Rightarrow> json option" where
  "json_finish s = (case s of
     ([], MEnd v) \<Rightarrow> Some v
   | ([], MNum n acc) \<Rightarrow> (if number_final n then Some (JNum (rev acc)) else None)
   | _ \<Rightarrow> None)"

definition json_parse :: "string \<Rightarrow> json option" where
  "json_parse cs = json_finish (json_run ([], MBegin) cs)"

lemma json_run_simps [simp]:
  "json_run s [] = s" "json_run s (c # cs) = json_run (json_step s c) cs"
  "json_run s (xs @ ys) = json_run (json_run s xs) ys"
  by (simp_all add: json_run_def)

subsection \<open>Unmarshal into struct fields\<close>

definition is_Kelvin :: "string \<Rightarrow> bool" where
  "is_Kelvin s \<longleftrightarrow> take 3 s = [chr 0xE2, chr 0x84, chr 0xAA]"

definition is_long_s :: "string \<Rightarrow> bool" where
  "is_long_s s \<longleftrightarrow> take 2 s = [chr 0xC5, chr 0xBF]"

definition ascii_lower :: "char \<Rightarrow> char" where
  "ascii_lower c = (if between 65 90 (code c) then chr (code c + 32) else c)"

text \<open>
  \<open>foldName\<close>, up to the representative it picks: two names match when they agree after
  case folding. Besides the ASCII letters only the Kelvin sign and the long s fold to ASCII,
  and all field names of the program are ASCII.
\<close>

function fold_name :: "string \<Rightarrow> string" where
  "fold_name s = (case s of
     [] \<Rightarrow> []
   | c # rest \<Rightarrow>
       if is_Kelvin s then CHR ''k'' # fold_name (drop 3 s)
       else if is_long_s s then CHR ''s'' # fold_name (drop 2 s)
       else ascii_lower c # fold_name rest)"
  by pat_completeness auto
termination
  by (relation "measure length") auto

declare fold_name.simps [simp del]

definition matches_field :: "string \<Rightarrow> string \<Rightarrow> bool" where
  "matches_field f k \<longleftrightarrow> k = f \<or> fold_name k = fold_name f"

text \<open>
  A field decoder maps the field's current value and a member's value to the new value. The
  members are taken in order, starting from the value the field already has.
\<close>

definition field_fold ::
  "('a \<Rightarrow> json \<Rightarrow> 'a option) \<Rightarrow> string \<Rightarrow> 'a \<Rightarrow> (string \<times> json) list \<Rightarrow> 'a option" where
  "field_fold dec f init ms =
     fold (\<lambda>(k, v) acc. if matches_field f k then Option.bind acc (\<lambda>a. dec a v) else acc) ms (Some init)"

definition dec_str :: "string \<Rightarrow> json \<Rightarrow> string option" where
  "dec_str a v = (case v of JNull \<Rightarrow> Some a | JStr s \<Rightarrow> Some s | _ \<Rightarrow> None)"

definition dec_bool :: "bool \<Rightarrow> json \<Rightarrow> bool option" where
  "dec_bool a v = (case v of JNull \<Rightarrow> Some a | JBool b \<Rightarrow> Some b | _ \<Rightarrow> None)"

definition dec_int :: "int \<Rightarrow> json \<Rightarrow> int option" where
  "dec_int a v = (case v of
     JNull \<Rightarrow> Some a
   | JNum l \<Rightarrow> (case parse_int l of Some i \<Rightarrow> (if in_int64 i then Some i else None) | None \<Rightarrow> None)
   | _ \<Rightarrow> None)"

definition dec_word :: "'a::len word \<Rightarrow> json \<Rightarrow> 'a word option" where
  "dec_word a v = (case v of
     JNull \<Rightarrow> Some a
   | JNum l \<Rightarrow> (case parse_digits l of
       Some n \<Rightarrow> (if n < 2 ^ LENGTH('a) then Some (word_of_nat n) else None) | None \<Rightarrow> None)
   | _ \<Rightarrow> None)"

text \<open>The members of the top-level value: an object, or none for \<open>null\<close>.\<close>

definition obj_members :: "bytes \<Rightarrow> (string \<times> json) list result" where
  "obj_members raw = (case json_parse (str_of_bytes raw) of
     Some (JObj ms) \<Rightarrow> Inr ms
   | Some JNull \<Rightarrow> Inr []
   | _ \<Rightarrow> Inl EJson)"

definition json_marshal :: "json \<Rightarrow> bytes" where
  "json_marshal v = bytes_of_str (json_print v)"

end
