(* ===== verification/JsonRound.thy ===== *)
theory JsonRound
  imports GoJson
begin

text \<open>
  The facts about \<open>encoding/json\<close> the frame codecs rest on: parsing a printed value returns it
  (\<open>json_parse_print\<close>), and no proper prefix of a printed object parses
  (\<open>json_parse_prefix\<close>), which is what happens to a datagram cut by a short receive buffer.
\<close>

subsection \<open>ASCII strings survive escaping\<close>

definition ascii :: "string \<Rightarrow> bool" where
  "ascii s \<longleftrightarrow> list_all (\<lambda>c. code c < 0x80) s"

lemma ascii_simps [simp]: "ascii []" "ascii (c # s) \<longleftrightarrow> code c < 0x80 \<and> ascii s"
    "ascii (s @ t) \<longleftrightarrow> ascii s \<and> ascii t"
  by (auto simp: ascii_def)

lemma escape_Nil [simp]: "escape [] = []"
  by (subst escape.simps) simp

lemma escape_Cons_ascii [simp]: "code c < 0x80 \<Longrightarrow> escape (c # s) = escape_ascii c @ escape s"
  by (subst escape.simps) simp

lemma unquote_Nil [simp]: "unquote [] = []"
  by (subst unquote.simps) simp

lemma unquote_plain: "code c < 0x80 \<Longrightarrow> c \<noteq> CHR 0x5C \<Longrightarrow> unquote (c # s) = c # unquote s"
  by (subst unquote.simps) simp

lemma unquote_escape: "e \<noteq> CHR ''u'' \<Longrightarrow> unquote (CHR 0x5C # e # s) = simple_escape e # unquote s"
proof -
  assume "e \<noteq> CHR ''u''"
  then have "getu4 (CHR 0x5C # e # s) = None"
    by (cases "CHR 0x5C # e # s" rule: getu4.cases) auto
  then show ?thesis by (subst unquote.simps) simp
qed

lemma hex_value_lower: "hex_value (hex_lower n) = Some (n mod 16)"
proof -
  have "map hex_value ''0123456789abcdef'' = map Some [0..<16]"
    by (simp add: hex_value_def between_def Let_def upt_conv_Cons)
  moreover have "hex_value (''0123456789abcdef'' ! (n mod 16))
      = map hex_value ''0123456789abcdef'' ! (n mod 16)"
    by (subst nth_map) simp_all
  ultimately show ?thesis by (simp add: hex_lower_def)
qed

lemma getu4_escape_u: "n < 0x80 \<Longrightarrow> getu4 (escape_u n @ s) = Some n"
proof -
  assume "n < 0x80"
  then have "n div 4096 = 0" "n div 256 = 0" "n div 16 < 16" by simp_all
  then show ?thesis by (simp add: escape_u_def hex_value_lower)
qed

lemma unquote_escape_u: "n < 0x80 \<Longrightarrow> unquote (escape_u n @ s) = chr n # unquote s"
proof -
  assume n: "n < 0x80"
  have s: "escape_u n @ s = CHR 0x5C # tl (escape_u n) @ s" by (simp add: escape_u_def)
  have d: "drop 6 (escape_u n @ s) = s" by (simp add: escape_u_def)
  have "\<not> is_surrogate n" using n by (simp add: is_surrogate_def between_def)
  then show ?thesis
    using n getu4_escape_u [OF n, of s] d by (subst unquote.simps) (simp add: s utf8_encode_def)
qed

lemma chr_code [simp]: "chr (code c) = c"
  by (simp add: chr_def)

lemma code_chr [simp]: "n < 256 \<Longrightarrow> code (chr n) = n"
  by (simp add: chr_def)

lemma chr_eq_iff: "n < 256 \<Longrightarrow> chr n = c \<longleftrightarrow> code c = n"
  by (metis chr_code code_chr)

lemma unquote_escape_ascii: "code c < 0x80 \<Longrightarrow> unquote (escape_ascii c @ s) = c # unquote s"
  by (auto simp: escape_ascii_def Let_def unquote_escape unquote_plain unquote_escape_u
        simple_escape_def chr_eq_iff)

lemma unquote_escape_string [codec_simps]: "ascii s \<Longrightarrow> unquote (escape s) = s"
  by (induction s) (auto simp: unquote_escape_ascii)

subsection \<open>Scanning a printed string\<close>

lemma hex_lower_not: "hex_value (hex_lower n) \<noteq> None"
  by (simp add: hex_value_lower)

lemma run_string_escape_u:
  "json_run (st, MStr SNormal acc) (escape_u n) = (st, MStr SNormal (rev (escape_u n) @ acc))"
  by (simp add: escape_u_def hex_value_lower)

lemma run_key_escape_u:
  "json_run (st, MKeyStr ms SNormal acc) (escape_u n) = (st, MKeyStr ms SNormal (rev (escape_u n) @ acc))"
  by (simp add: escape_u_def hex_value_lower)

lemma run_string_escape_ascii: "code c < 0x80 \<Longrightarrow>
  json_run (st, MStr SNormal acc) (escape_ascii c) = (st, MStr SNormal (rev (escape_ascii c) @ acc))"
  by (auto simp: escape_ascii_def Let_def run_string_escape_u)

lemma run_key_escape_ascii: "code c < 0x80 \<Longrightarrow>
  json_run (st, MKeyStr ms SNormal acc) (escape_ascii c)
    = (st, MKeyStr ms SNormal (rev (escape_ascii c) @ acc))"
  by (auto simp: escape_ascii_def Let_def run_key_escape_u)

lemma run_string_escape: "ascii s \<Longrightarrow>
  json_run (st, MStr SNormal acc) (escape s) = (st, MStr SNormal (rev (escape s) @ acc))"
  by (induction s arbitrary: acc) (auto simp: run_string_escape_ascii)

lemma run_key_escape: "ascii s \<Longrightarrow>
  json_run (st, MKeyStr ms SNormal acc) (escape s) = (st, MKeyStr ms SNormal (rev (escape s) @ acc))"
  by (induction s arbitrary: acc) (auto simp: run_key_escape_ascii)

lemma is_space_quote [simp]: "\<not> is_space CHR 0x22"
  by (simp add: is_space_def)

lemma run_key_quote:
  assumes "ascii k"
  shows "json_run (st, MKey ms) (json_quote k) = (st, MColon ms k)"
  using assms by (simp add: json_quote_def run_key_escape codec_simps)

lemma run_string_quote:
  assumes "ascii s"
  shows "json_run (st, MBegin) (json_quote s) = (st, MEnd (JStr s))"
  using assms by (simp add: json_quote_def begin_value_def run_string_escape codec_simps)

subsection \<open>Numbers\<close>

fun number_run :: "numstate \<Rightarrow> string \<Rightarrow> numstate option" where
  "number_run n [] = Some n"
| "number_run n (c # cs) = (case number_step n c of None \<Rightarrow> None | Some n' \<Rightarrow> number_run n' cs)"

definition number_start :: "char \<Rightarrow> numstate option" where
  "number_start c = (if c = CHR ''-'' then Some NNeg else if c = CHR ''0'' then Some N0
     else if is_digit c then Some N1 else None)"

definition number_literal :: "string \<Rightarrow> bool" where
  "number_literal l = (case l of [] \<Rightarrow> False | c # cs \<Rightarrow>
     (case number_start c of None \<Rightarrow> False | Some n \<Rightarrow>
       (case number_run n cs of None \<Rightarrow> False | Some n' \<Rightarrow> number_final n')))"

lemma run_number: "number_run n cs = Some n' \<Longrightarrow>
    json_run (st, MNum n acc) cs = (st, MNum n' (rev cs @ acc))"
  by (induction n cs arbitrary: acc rule: number_run.induct) (auto split: option.splits)

lemma digit_not_other:
  assumes "is_digit c"
  shows "c \<notin> set ''{[-tfn+'' \<and> c \<noteq> CHR 0x22 \<and> \<not> is_space c"
proof -
  have "c \<notin> set ''{[-tfn+''" "c \<noteq> CHR 0x22"
    using assms by (auto simp: is_digit_def between_def)
  moreover have "\<not> is_space c"
    using assms by (auto simp: is_digit_def between_def is_space_def Let_def)
  ultimately show ?thesis by simp
qed

lemma begin_digit: "is_digit c \<Longrightarrow> c \<noteq> CHR ''0'' \<Longrightarrow> json_step (st, MBegin) c = (st, MNum N1 [c])"
  using digit_not_other [of c] by (simp add: begin_value_def)

lemma begin_number: "number_start c = Some n \<Longrightarrow> json_step (st, MBegin) c = (st, MNum n [c])"
proof -
  assume s: "number_start c = Some n"
  consider "c = CHR ''-''" "n = NNeg" | "c = CHR ''0''" "n = N0"
    | "is_digit c" "c \<noteq> CHR ''0''" "n = N1"
    using s by (auto simp: number_start_def split: if_splits)
  then show ?thesis
    by cases (simp_all add: begin_value_def begin_digit is_space_def Let_def del: json_step.simps,
      simp_all add: begin_value_def is_space_def Let_def)
qed

lemma run_number_literal:
  assumes "number_literal l"
  shows "\<exists>n. json_run (st, MBegin) l = (st, MNum n (rev l)) \<and> number_final n"
  using assms
  by (auto simp: number_literal_def begin_number run_number simp del: json_step.simps split: list.splits option.splits)

lemma nat_digits_nonempty [simp]: "nat_digits n \<noteq> []"
  by (subst nat_digits.simps) simp

lemma is_digit_chr [simp]: "n < 10 \<Longrightarrow> is_digit (chr (48 + n))"
  by (simp add: is_digit_def between_def)

lemma nat_digits_digits: "list_all is_digit (nat_digits n)"
proof (induction n rule: nat_digits.induct)
  case (1 n)
  then show ?case by (subst nat_digits.simps) auto
qed

lemma number_run_digits: "list_all is_digit cs \<Longrightarrow> number_run N1 cs = Some N1"
  by (induction cs) auto

lemma nat_digits_head: "0 < n \<Longrightarrow> hd (nat_digits n) \<noteq> CHR ''0''"
proof (induction n rule: nat_digits.induct)
  case (1 n)
  show ?case
  proof (cases "n < 10")
    case True
    have "chr (48 + n) \<noteq> CHR ''0''"
    proof
      assume "chr (48 + n) = CHR ''0''"
      then have "code (chr (48 + n)) = (48 :: nat)" by simp
      then show False using True 1 by simp
    qed
    with True show ?thesis by (subst nat_digits.simps) simp
  next
    case False
    then have "0 < n div 10" by simp
    with False 1 show ?thesis by (subst nat_digits.simps) simp
  qed
qed

lemma nat_digits_0 [simp]: "nat_digits 0 = ''0''"
  by (subst nat_digits.simps) (simp add: chr_eq_iff)

lemma digit_not_minus: "is_digit c \<Longrightarrow> c \<noteq> CHR ''-''"
  by (auto simp: is_digit_def between_def)

lemma nat_digits_cases:
  obtains "n = 0" "nat_digits n = ''0''"
  | c cs where "nat_digits n = c # cs" "is_digit c" "c \<noteq> CHR ''0''" "c \<noteq> CHR ''-''"
      "list_all is_digit cs"
proof (cases "n = 0")
  case False
  obtain c cs where "nat_digits n = c # cs" by (cases "nat_digits n") auto
  then show ?thesis
    using that(2) nat_digits_head [of n] nat_digits_digits [of n] False
    by (auto simp: digit_not_minus)
qed (use that in simp)

lemma number_literal_nat [simp]: "number_literal (nat_digits n)"
  by (cases n rule: nat_digits_cases)
    (auto simp: number_literal_def number_start_def number_run_digits number_final_def)

lemma number_literal_int [simp]: "number_literal (int_text i)"
proof (cases "i < 0")
  case True
  show ?thesis
    by (cases "nat (- i)" rule: nat_digits_cases)
      (use True in \<open>auto simp: int_text_def number_literal_def number_start_def number_run_digits
        number_final_def\<close>)
qed (simp add: int_text_def)

lemma digits_value: "foldl (\<lambda>n c. n * 10 + (code c - 48)) 0 (nat_digits n) = n"
proof (induction n rule: nat_digits.induct)
  case (1 n)
  then show ?case by (subst nat_digits.simps) auto
qed

lemma parse_digits_nat [simp, codec_simps]: "parse_digits (nat_digits n) = Some n"
  by (simp add: parse_digits_def nat_digits_digits digits_value)

lemma parse_int_digit: "is_digit c \<Longrightarrow> parse_int (c # cs) = map_option int (parse_digits (c # cs))"
  using digit_not_other [of c] by (simp add: parse_int_def)

lemma parse_int_text [simp, codec_simps]: "parse_int (int_text i) = Some i"
proof (cases "i < 0")
  case False
  obtain c cs where d: "nat_digits (nat i) = c # cs" by (cases "nat_digits (nat i)") auto
  then have "is_digit c" using nat_digits_digits [of "nat i"] by simp
  with False d parse_digits_nat [of "nat i"] show ?thesis
    by (simp add: int_text_def parse_int_digit)
qed (simp add: int_text_def parse_int_def)

subsection \<open>Round trip\<close>

fun json_depth :: "json \<Rightarrow> nat"
and elems_depth :: "json list \<Rightarrow> nat"
and members_depth :: "(string \<times> json) list \<Rightarrow> nat" where
  "json_depth (JArr vs) = Suc (elems_depth vs)"
| "json_depth (JObj ms) = Suc (members_depth ms)"
| "json_depth v = 0"
| "elems_depth [] = 0"
| "elems_depth (v # vs) = max (json_depth v) (elems_depth vs)"
| "members_depth [] = 0"
| "members_depth ((k, v) # ms) = max (json_depth v) (members_depth ms)"

text \<open>Values the encoder can produce: ASCII strings and keys, numbers that are JSON numbers.\<close>

fun json_ok :: "json \<Rightarrow> bool"
and elems_ok :: "json list \<Rightarrow> bool"
and members_ok :: "(string \<times> json) list \<Rightarrow> bool" where
  "json_ok (JNum l) = number_literal l"
| "json_ok (JStr s) = ascii s"
| "json_ok (JArr vs) = elems_ok vs"
| "json_ok (JObj ms) = members_ok ms"
| "json_ok v = True"
| "elems_ok [] = True"
| "elems_ok (v # vs) = (json_ok v \<and> elems_ok vs)"
| "members_ok [] = True"
| "members_ok ((k, v) # ms) = (ascii k \<and> json_ok v \<and> members_ok ms)"

text \<open>A number is complete only when the next character is seen.\<close>

definition settled :: "container list \<Rightarrow> json \<Rightarrow> jstate \<Rightarrow> bool" where
  "settled st v s \<longleftrightarrow> s = (st, MEnd v)
     \<or> (\<exists>n l. s = (st, MNum n (rev l)) \<and> number_final n \<and> v = JNum l)"

lemma not_digit_delim [simp]: "\<not> is_digit CHR '',''" "\<not> is_digit CHR '']''" "\<not> is_digit CHR ''}''"
  by (simp_all add: is_digit_def between_def)

lemma number_step_delim:
  assumes "c \<in> set '',]}''" and "number_final n"
  shows "number_step n c = None"
proof -
  consider "c = CHR '',''" | "c = CHR '']''" | "c = CHR ''}''" using assms(1) by auto
  then show ?thesis using assms(2) by cases (cases n; simp add: number_final_def)+
qed

lemma settled_step:
  assumes "settled st v s" and c: "c \<in> set '',]}''"
  shows "json_step s c = end_value st v c"
proof -
  consider "s = (st, MEnd v)" | n l where "s = (st, MNum n (rev l))" "number_final n" "v = JNum l"
    using assms(1) by (auto simp: settled_def)
  then show ?thesis
  proof cases
    case 2
    with number_step_delim [OF c, of n] show ?thesis by simp
  qed simp
qed

lemmas settled_comma = settled_step [where c = "CHR '',''", simplified]
  and settled_bracket = settled_step [where c = "CHR '']''", simplified]
  and settled_brace = settled_step [where c = "CHR ''}''", simplified]

lemma settled_MEnd [simp]: "settled st v (st, MEnd v)"
  by (simp add: settled_def)

lemma delims [simp]: "\<not> is_space CHR '',''" "\<not> is_space CHR '']''" "\<not> is_space CHR ''}''"
    "\<not> is_space CHR '':''" "\<not> is_space CHR ''{''" "\<not> is_space CHR ''[''"
    "\<not> is_space CHR ''t''" "\<not> is_space CHR ''f''" "\<not> is_space CHR ''n''"
  by (simp_all add: is_space_def Let_def)

lemma number_literal_head: "number_literal l \<Longrightarrow> \<exists>c cs. l = c # cs \<and> c \<noteq> CHR '']'' \<and> \<not> is_space c"
proof -
  assume n: "number_literal l"
  then obtain c cs where l: "l = c # cs" by (cases l) (auto simp: number_literal_def)
  with n have "c = CHR ''-'' \<or> is_digit c"
    by (auto simp: number_literal_def number_start_def is_digit_def between_def
        split: option.splits if_splits)
  then have "c \<noteq> CHR '']'' \<and> \<not> is_space c"
    using digit_not_other [of c] by (auto simp: is_space_def Let_def is_digit_def between_def)
  with l show ?thesis by blast
qed

lemma json_print_head: "json_ok v \<Longrightarrow>
    \<exists>c cs. json_print v = c # cs \<and> c \<noteq> CHR '']'' \<and> \<not> is_space c"
  using number_literal_head by (cases v) (auto simp: json_quote_def)

lemma elems_print_head:
  assumes "elems_ok (v # vs)"
  shows "\<exists>c cs. json_print_elems (v # vs) = c # cs \<and> c \<noteq> CHR '']'' \<and> \<not> is_space c"
proof -
  obtain c cs where "json_print v = c # cs" "c \<noteq> CHR '']''" "\<not> is_space c"
    using assms json_print_head [of v] by auto
  then show ?thesis by (cases vs) auto
qed

lemma run_BeginOrEmpty:
  "c \<noteq> CHR '']'' \<Longrightarrow> \<not> is_space c \<Longrightarrow> json_run (st, MBeginOrEmpty) (c # cs) = json_run (st, MBegin) (c # cs)"
  by simp

lemma members_print_head: "ms \<noteq> [] \<Longrightarrow> \<exists>cs. json_print_members ms = CHR 0x22 # cs"
  by (cases ms rule: json_print_members.cases) (auto simp: json_quote_def)

lemma run_KeyOrEmpty: "json_run (st, MKeyOrEmpty) (CHR 0x22 # cs) = json_run (st, MKey []) (CHR 0x22 # cs)"
  by simp

theorem run_json_print:
  "json_ok v \<Longrightarrow> length st + json_depth v \<le> max_depth \<Longrightarrow>
     settled st v (json_run (st, MBegin) (json_print v))"
  "elems_ok vs \<Longrightarrow> vs \<noteq> [] \<Longrightarrow> Suc (length st) + elems_depth vs \<le> max_depth \<Longrightarrow>
     json_run (FArr acc # st, MBegin) (json_print_elems vs @ '']'') = (st, MEnd (JArr (rev acc @ vs)))"
  "members_ok ms \<Longrightarrow> ms \<noteq> [] \<Longrightarrow> Suc (length st) + members_depth ms \<le> max_depth \<Longrightarrow>
     json_run (st, MKey macc) (json_print_members ms @ ''}'') = (st, MEnd (JObj (rev macc @ ms)))"
proof (induction v and vs and ms arbitrary: st and st acc and st macc
    rule: json_print_json_print_elems_json_print_members.induct)
  case 1
  then show ?case by (simp add: begin_value_def)
next
  case (2 b)
  then show ?case by (simp add: begin_value_def)
next
  case (3 l)
  then show ?case using run_number_literal [of l st] by (auto simp: settled_def simp del: json_run_simps)
next
  case (4 s)
  then show ?case by (simp add: run_string_quote del: json_run_simps)
next
  case (5 vs)
  show ?case
  proof (cases vs)
    case Nil
    with 5 show ?thesis by (simp add: begin_value_def)
  next
    case (Cons v vs')
    then obtain c cs where hd: "json_print_elems vs = c # cs" "c \<noteq> CHR '']''" "\<not> is_space c"
      using 5 elems_print_head [of v vs'] by auto
    have "json_run (st, MBegin) (json_print (JArr vs))
        = json_run (FArr [] # st, MBeginOrEmpty) (c # (cs @ '']''))"
      using 5 hd by (simp add: begin_value_def)
    also have "\<dots> = json_run (FArr [] # st, MBegin) (c # (cs @ '']''))"
      by (rule run_BeginOrEmpty) (use hd in simp_all)
    also have "\<dots> = json_run (FArr [] # st, MBegin) (json_print_elems vs @ '']'')"
      using hd by simp
    also have "\<dots> = (st, MEnd (JArr vs))"
      using 5 Cons by (simp del: json_run_simps)
    finally show ?thesis by (simp del: json_run_simps)
  qed
next
  case (6 ms)
  show ?case
  proof (cases ms)
    case Nil
    with 6 show ?thesis by (simp add: begin_value_def)
  next
    case (Cons m ms')
    then obtain cs where hd: "json_print_members ms = CHR 0x22 # cs"
      using members_print_head [of ms] by auto
    have "json_run (st, MBegin) (json_print (JObj ms))
        = json_run (st, MKeyOrEmpty) (CHR 0x22 # (cs @ ''}''))"
      using 6 hd by (simp add: begin_value_def)
    also have "\<dots> = json_run (st, MKey []) (CHR 0x22 # (cs @ ''}''))"
      by (rule run_KeyOrEmpty)
    also have "\<dots> = json_run (st, MKey []) (json_print_members ms @ ''}'')"
      using hd by simp
    also have "\<dots> = (st, MEnd (JObj ms))"
      using 6 Cons by (simp del: json_run_simps)
    finally show ?thesis by (simp del: json_run_simps)
  qed
next
  case (8 v)
  then have "settled (FArr acc # st) v (json_run (FArr acc # st, MBegin) (json_print v))" by simp
  then show ?case by (simp add: settled_bracket end_value_def)
next
  case (9 v w vs)
  then have "settled (FArr acc # st) v (json_run (FArr acc # st, MBegin) (json_print v))" by simp
  moreover have "json_run (FArr (v # acc) # st, MBegin) (json_print_elems (w # vs) @ '']'')
      = (st, MEnd (JArr (rev (v # acc) @ w # vs)))"
    using 9 by (intro "9.IH"(2)) simp_all
  ultimately show ?case by (simp add: settled_comma end_value_def)
next
  case (11 k v)
  then have "settled (FObj macc k # st) v (json_run (FObj macc k # st, MBegin) (json_print v))" by simp
  note brace = settled_brace [OF this]
  have "ascii k" using 11 by simp
  then show ?case by (simp add: run_key_quote brace end_value_def)
next
  case (12 k v m ms)
  then have "settled (FObj macc k # st) v (json_run (FObj macc k # st, MBegin) (json_print v))" by simp
  note comma = settled_comma [OF this]
  have "json_run (st, MKey ((k, v) # macc)) (json_print_members (m # ms) @ ''}'')
      = (st, MEnd (JObj (rev ((k, v) # macc) @ m # ms)))"
    using 12 by (intro "12.IH"(2)) simp_all
  moreover have "ascii k" using 12 by simp
  ultimately show ?case by (simp add: run_key_quote comma end_value_def)
qed simp_all

lemma json_parse_print [codec_simps]:
  assumes "json_ok v" and "json_depth v \<le> max_depth"
  shows "json_parse (json_print v) = Some v"
proof -
  have "settled [] v (json_run ([], MBegin) (json_print v))"
    using assms by (intro run_json_print(1)) simp_all
  then show ?thesis by (auto simp: json_parse_def json_finish_def settled_def)
qed

lemma obj_members_marshal [codec_simps]:
  "members_ok ms \<Longrightarrow> members_depth ms < max_depth \<Longrightarrow>
     obj_members (json_marshal (JObj ms)) = Inr ms"
  using json_parse_print [of "JObj ms"]
  by (simp add: obj_members_def json_marshal_def del: json_print.simps)

subsection \<open>No proper prefix of an object parses\<close>

text \<open>
  While the outermost object is open, either a container is open whose outermost one is an
  object, or the automaton is between the members of that object.
\<close>

fun in_object :: "jstate \<Rightarrow> bool" where
  "in_object ([], m) = (case m of
     MKeyOrEmpty \<Rightarrow> True | MKey _ \<Rightarrow> True | MColon _ _ \<Rightarrow> True | MKeyStr _ _ _ \<Rightarrow> True
   | MEnd v \<Rightarrow> True | MErr \<Rightarrow> True | _ \<Rightarrow> False)"
| "in_object (st, m) = True"

lemma in_object_end_value: "in_object (end_value st v c)"
proof (cases st)
  case (Cons f fs)
  then show ?thesis
    by (cases f; cases fs) (simp_all add: end_value_def)
qed (simp add: end_value_def)

lemma in_object_cases:
  "in_object (st, m) \<Longrightarrow> st \<noteq> [] \<or> m = MKeyOrEmpty \<or> (\<exists>ms. m = MKey ms) \<or> (\<exists>ms k. m = MColon ms k)
     \<or> (\<exists>ms q a. m = MKeyStr ms q a) \<or> (\<exists>v. m = MEnd v) \<or> m = MErr"
  by (cases st; cases m) auto

lemma in_object_nonempty: "st \<noteq> [] \<Longrightarrow> in_object (st, m)"
  by (cases st) auto

lemma in_object_step:
  assumes "in_object s"
  shows "in_object (json_step s c)"
proof (cases s)
  case (Pair st m)
  show ?thesis
  proof (cases m)
    case MBegin
    then have "st \<noteq> []" using assms Pair by (cases st) auto
    then show ?thesis using MBegin Pair by (auto simp: begin_value_def intro!: in_object_nonempty)
  next
    case MBeginOrEmpty
    then have "st \<noteq> []" using assms Pair by (cases st) auto
    then show ?thesis using MBeginOrEmpty Pair
      by (cases "tl st") (auto simp: begin_value_def intro!: in_object_nonempty)
  next
    case (MStr q a)
    then have "st \<noteq> []" using assms Pair by (cases st) auto
    then show ?thesis using MStr Pair by (auto intro!: in_object_nonempty split: option.splits)
  next
    case (MNum n a)
    then have "st \<noteq> []" using assms Pair by (cases st) auto
    then show ?thesis using MNum Pair
      by (auto intro!: in_object_nonempty in_object_end_value split: option.splits)
  next
    case (MLit l v)
    then have "st \<noteq> []" using assms Pair by (cases st) auto
    then show ?thesis using MLit Pair by (auto intro!: in_object_nonempty split: list.splits)
  qed (use Pair in \<open>cases st; auto simp: in_object_end_value split: option.splits\<close>)+
qed

lemma in_object_run: "in_object s \<Longrightarrow> in_object (json_run s cs)"
  by (induction cs arbitrary: s) (simp_all add: in_object_step)

lemma run_MErr: "json_run (st, MErr) cs = (st, MErr)"
  by (induction cs) auto

lemma run_after_end:
  "json_run ([], MEnd v) cs = ([], MEnd w) \<Longrightarrow> list_all is_space cs"
proof (induction cs)
  case (Cons c cs)
  then show ?case by (cases "is_space c") (auto simp: end_value_def run_MErr)
qed simp

lemma json_print_members_close: "\<exists>cs. json_print (JObj ms) = CHR ''{'' # cs @ ''}''"
  by auto

theorem json_parse_prefix:
  assumes ok: "members_ok ms" "members_depth ms < max_depth"
    and whole: "json_print (JObj ms) = p @ q" and "q \<noteq> []"
  shows "json_parse p = None"
proof (cases p)
  case Nil
  then show ?thesis by (simp add: json_parse_def json_finish_def)
next
  case (Cons c p')
  then have c: "c = CHR ''{''" using whole by simp
  have s0: "json_run ([], MBegin) p = json_run ([], MKeyOrEmpty) p'"
    using Cons c by (simp add: begin_value_def max_depth_def)
  have "in_object (json_run ([], MKeyOrEmpty) p')"
    by (rule in_object_run) simp
  then obtain st m where sm: "json_run ([], MKeyOrEmpty) p' = (st, m)" and inv: "in_object (st, m)"
    by (metis surj_pair)
  have "json_run ([], MBegin) (json_print (JObj ms)) = ([], MEnd (JObj ms))"
    using run_json_print(1) [of "JObj ms" "[]"] ok by (auto simp: settled_def simp del: json_run_simps)
  then have full: "json_run (st, m) q = ([], MEnd (JObj ms))"
    unfolding whole using s0 sm by simp
  show ?thesis
  proof (cases "\<exists>v. (st, m) = ([], MEnd v)")
    case True
    then have "list_all is_space q" using full by (auto intro: run_after_end)
    moreover have "last q = CHR ''}''"
      using whole \<open>q \<noteq> []\<close> by (metis json_print_members_close last_ConsR last_appendR
          append_is_Nil_conv last_snoc not_Cons_self2)
    ultimately have False using \<open>q \<noteq> []\<close> by (auto simp: list_all_iff dest!: bspec [OF _ last_in_set])
    then show ?thesis ..
  next
    case False
    with inv have "json_finish (st, m) = None"
      by (cases st) (auto simp: json_finish_def split: mode.splits)
    with s0 sm show ?thesis by (simp add: json_parse_def)
  qed
qed

subsection \<open>Struct fields\<close>

definition str_field :: "string \<Rightarrow> (string \<times> json) list \<Rightarrow> string option" where
  "str_field f ms = field_fold dec_str f [] ms"

definition int_field :: "string \<Rightarrow> (string \<times> json) list \<Rightarrow> int option" where
  "int_field f ms = field_fold dec_int f 0 ms"

definition bool_field :: "string \<Rightarrow> (string \<times> json) list \<Rightarrow> bool option" where
  "bool_field f ms = field_fold dec_bool f False ms"

definition word_field :: "string \<Rightarrow> (string \<times> json) list \<Rightarrow> 'a::len word option" where
  "word_field f ms = field_fold dec_word f 0 ms"

definition with_field :: "'a option \<Rightarrow> ('a \<Rightarrow> 'b result) \<Rightarrow> 'b result" where
  "with_field x k = (case x of None \<Rightarrow> Inl EJson | Some a \<Rightarrow> k a)"

lemma with_field_simps [simp]: "with_field (Some a) k = k a" "with_field None k = Inl EJson"
  by (simp_all add: with_field_def)

lemma with_field_Inr: "with_field x k = Inr y \<longleftrightarrow> (\<exists>a. x = Some a \<and> k a = Inr y)"
  by (cases x) auto

text \<open>Lower-case names, as in every struct tag of the program, fold to themselves.\<close>

definition plain_name :: "string \<Rightarrow> bool" where
  "plain_name s \<longleftrightarrow> list_all (\<lambda>c. between 97 122 (code c) \<or> c = CHR ''_'' \<or> is_digit c) s"

lemma fold_name_Nil [simp]: "fold_name [] = []"
  by (subst fold_name.simps) simp

lemma fold_name_plain: "plain_name s \<Longrightarrow> fold_name s = s"
proof (induction s)
  case (Cons c s)
  then have c: "between 97 122 (code c) \<or> c = CHR ''_'' \<or> is_digit c"
    by (simp add: plain_name_def)
  then have "code c < (0x80 :: nat)" "\<not> between 65 90 (code c)"
    by (auto simp: between_def is_digit_def)
  then have "\<not> is_Kelvin (c # s)" "\<not> is_long_s (c # s)" "ascii_lower c = c"
    by (auto simp: is_Kelvin_def is_long_s_def ascii_lower_def)
  with Cons show ?case by (subst fold_name.simps) (simp add: plain_name_def)
qed simp

text \<open>An ASCII name folds to its lower case.\<close>

lemma fold_name_ascii: "list_all (\<lambda>c. code c < 0x80) s \<Longrightarrow> fold_name s = map ascii_lower s"
proof (induction s)
  case (Cons c s)
  then have "\<not> is_Kelvin (c # s)" "\<not> is_long_s (c # s)"
    by (auto simp: is_Kelvin_def is_long_s_def)
  with Cons show ?case by (subst fold_name.simps) simp
qed simp

lemma matches_plain: "plain_name f \<Longrightarrow> plain_name k \<Longrightarrow> matches_field f k \<longleftrightarrow> k = f"
  by (auto simp: matches_field_def fold_name_plain)

lemma field_fold_None: "fold (\<lambda>(k, v) acc. if P k then Option.bind acc (\<lambda>a. dec a v) else acc) ms None = None"
  by (induction ms) auto

lemma field_fold_Nil [simp]: "field_fold dec f a [] = Some a"
  by (simp add: field_fold_def)

lemma field_fold_Cons [simp]: "field_fold dec f a ((k, v) # ms) =
   (if matches_field f k then (case dec a v of None \<Rightarrow> None | Some b \<Rightarrow> field_fold dec f b ms)
    else field_fold dec f a ms)"
  by (simp add: field_fold_def field_fold_None split: option.splits)

text \<open>The simplification rules that evaluate the decoding of a printed struct.\<close>

lemma plain_name_Nil [simp]: "plain_name []"
  by (simp add: plain_name_def)

lemma plain_name_Cons [simp]: "plain_name (c # s) \<longleftrightarrow>
    (between 97 122 (code c) \<or> c = CHR ''_'' \<or> is_digit c) \<and> plain_name s"
  by (simp add: plain_name_def)

lemma dec_simps [simp]:
  "dec_str a (JStr s) = Some s" "dec_bool b (JBool c) = Some c"
  by (simp_all add: dec_str_def dec_bool_def)

lemma dec_int_text [simp]: "in_int64 i \<Longrightarrow> dec_int a (JNum (int_text i)) = Some i"
  by (simp add: dec_int_def)

lemma dec_word_text [simp]: "dec_word a (JNum (nat_digits (unat w))) = Some (w :: 'a::len word)"
  using unsigned_less [of w, where ?'a = nat] by (simp add: dec_word_def)

lemmas field_eval = str_field_def int_field_def bool_field_def word_field_def matches_plain
  between_def is_digit_def

subsection \<open>Plain text and the length of printed structs\<close>

text \<open>Characters the encoder copies: base64 digits, letters, and the punctuation of names.\<close>

definition plain_char :: "char \<Rightarrow> bool" where
  "plain_char c \<longleftrightarrow> escape_ascii c = [c] \<and> code c < 0x80"

definition plain_text :: "string \<Rightarrow> bool" where
  "plain_text s \<longleftrightarrow> list_all plain_char s"

lemma plain_text_ascii: "plain_text s \<Longrightarrow> ascii s"
  by (auto simp: plain_text_def ascii_def list_all_iff plain_char_def)

lemma escape_plain: "plain_text s \<Longrightarrow> escape s = s"
  by (induction s) (auto simp: plain_text_def plain_char_def)

lemma plain_charI: "code c < 0x80 \<Longrightarrow> 0x20 \<le> code c \<Longrightarrow> c \<notin> set ''<>&'' \<Longrightarrow> c \<noteq> CHR 0x22 \<Longrightarrow>
    c \<noteq> CHR 0x5C \<Longrightarrow> plain_char c"
  by (auto simp: plain_char_def escape_ascii_def Let_def)

lemma length_quote_plain [len_simps]: "plain_text s \<Longrightarrow> length (json_quote s) = length s + 2"
  by (simp add: json_quote_def escape_plain)

lemma nat_digits_length: "n < 10 ^ k \<Longrightarrow> 0 < k \<Longrightarrow> length (nat_digits n) \<le> k"
proof (induction n arbitrary: k rule: nat_digits.induct)
  case (1 n)
  show ?case
  proof (cases "n < 10")
    case True
    with 1 show ?thesis by (subst nat_digits.simps) simp
  next
    case False
    then obtain j where k: "k = Suc j" "0 < j" using 1 by (cases k; cases "k - 1") auto
    then have "n div 10 < 10 ^ j" using 1 by (simp add: less_mult_imp_div_less)
    with 1 False k have "length (nat_digits (n div 10)) \<le> j" by simp
    with False k show ?thesis by (subst nat_digits.simps) simp
  qed
qed

lemma nat_digits_length_pos: "0 < length (nat_digits n)"
  by simp

end
