(* ===== verification/SecureFrames.thy ===== *)
theory SecureFrames
  imports Base64 Crypto JsonRound
begin

text \<open>
  Package \<open>secureproto\<close>, data plane: \<open>cipher.go\<close> (payload encryption), \<open>frame_v2.go\<close> and
  \<open>datagram_v2.go\<close> (the two data frames) and \<open>policy_engine.go\<close> (the obfuscation mode).
  Shown: what is encrypted decrypts to itself, a built frame parses to its fields and payload,
  the padding is bounded and so is the frame, and what the frame does not authenticate.
\<close>

subsection \<open>cipher.go\<close>

definition normalizeKey :: "bytes \<Rightarrow> bytes" where
  "normalizeKey k = take 32 k @ replicate (32 - length k) 0"

definition NonceSize :: nat where
  "NonceSize = 12"

definition Encrypt :: "rng \<Rightarrow> bytes \<Rightarrow> bytes \<Rightarrow> string result" where
  "Encrypt rng sessionKey plaintext =
     (case read_full (rng 0) NonceSize of
        Inl e \<Rightarrow> Inl e
      | Inr nonce \<Rightarrow>
          Inr (StdEncodeToString (nonce @ gcm_Seal (normalizeKey sessionKey) nonce plaintext)))"

definition Decrypt :: "bytes \<Rightarrow> string \<Rightarrow> bytes result" where
  "Decrypt sessionKey encoded =
     (case StdDecodeString encoded of
        Inl e \<Rightarrow> Inl e
      | Inr raw \<Rightarrow>
          (if length raw < NonceSize then Inl (EMsg ''ciphertext too short'')
           else gcm_Open (normalizeKey sessionKey) (take NonceSize raw) (drop NonceSize raw)))"

lemma length_normalizeKey [simp, len_simps]: "length (normalizeKey k) = 32"
  by (simp add: normalizeKey_def)

lemma read_full_NonceSize: "read_full d NonceSize = Inr n \<Longrightarrow> length n = 12"
  by (drule read_full_length) (simp add: NonceSize_def)

lemma Decrypt_Encrypt [codec_simps]: "Encrypt rng k p = Inr c \<Longrightarrow> Decrypt k c = Inr p"
  by (auto simp: Encrypt_def Decrypt_def NonceSize_def gcm.unseal_seal
      dest!: read_full_NonceSize [unfolded NonceSize_def] split: sum.splits)

lemma Encrypt_ok: "draw_ok (rng 0) \<Longrightarrow> \<exists>c. Encrypt rng k p = Inr c"
  by (auto simp: Encrypt_def read_full_def)

lemma Encrypt_length [len_simps]:
  "Encrypt rng k p = Inr c \<Longrightarrow> length c = 4 * ((length p + 30) div 3)"
  by (auto simp: Encrypt_def length_StdEncode gcm.length_seal
      dest!: read_full_NonceSize split: sum.splits)

lemma Decrypt_too_short: "StdDecodeString c = Inr raw \<Longrightarrow> length raw < 28 \<Longrightarrow> \<exists>e. Decrypt k c = Inl e"
  using gcm.unseal_short [of "drop NonceSize raw"]
  by (auto simp: Decrypt_def NonceSize_def)

text \<open>What decrypts is the encryption of its plaintext under the nonce it carries.\<close>

lemma Decrypt_sound:
  assumes "Decrypt k c = Inr p"
  shows "\<exists>nonce. length nonce = 12 \<and>
    StdDecodeString c = Inr (nonce @ gcm_Seal (normalizeKey k) nonce p)"
proof -
  obtain raw where raw: "StdDecodeString c = Inr raw" "12 \<le> length raw"
    "gcm_Open (normalizeKey k) (take 12 raw) (drop 12 raw) = Inr p"
    using assms by (auto simp: Decrypt_def NonceSize_def split: sum.splits if_splits)
  then have "drop 12 raw = gcm_Seal (normalizeKey k) (take 12 raw) p"
    by (simp add: gcm.unseal_iff)
  then have "raw = take 12 raw @ gcm_Seal (normalizeKey k) (take 12 raw) p"
    by (metis append_take_drop_id)
  then show ?thesis using raw by (intro exI [of _ "take 12 raw"]) simp
qed

lemma plain_text_append [simp]: "plain_text (a @ b) \<longleftrightarrow> plain_text a \<and> plain_text b"
  by (simp add: plain_text_def)

lemma b64_plain_plain: "b64_plain_char c \<Longrightarrow> plain_char c"
  by (rule plain_charI)
    (auto simp: b64_plain_char_def b64_value_def Let_def split: if_splits)

lemma plain_StdEncode [simp]: "plain_text (StdEncodeToString bs)"
  using b64_encode_plain [of bs]
  by (auto simp: plain_text_def StdEncodeToString_def list_all_iff intro: b64_plain_plain)

lemma ascii_StdEncode [simp]: "ascii (StdEncodeToString bs)"
  by (simp add: plain_text_ascii)

lemma url_alphabet_plain: "list_all plain_char url_alphabet"
  by (simp add: url_alphabet_def plain_char_def escape_ascii_def Let_def)

lemma b64_digit_url_plain [simp]: "plain_char (b64_digit url_alphabet n)"
proof -
  have "b64_digit url_alphabet n \<in> set url_alphabet"
    unfolding b64_digit_def by (rule nth_mem) (simp add: url_alphabet_def)
  then show ?thesis using url_alphabet_plain by (auto simp: list_all_iff)
qed

lemma plain_RawURL [simp]: "plain_text (RawURLEncodeToString bs)"
  unfolding RawURLEncodeToString_def plain_text_def
  by (induction "url_alphabet" False bs rule: b64_encode.induct) (auto simp: Let_def)

lemma Encrypt_plain: "Encrypt rng k p = Inr c \<Longrightarrow> plain_text c"
  by (auto simp: Encrypt_def split: sum.splits)

subsection \<open>policy\_engine.go\<close>

definition SelectObfsMode :: "32 word \<Rightarrow> nat \<Rightarrow> string" where
  "SelectObfsMode seq payloadLen =
     (if payloadLen > 900 then ''burst''
      else if seq mod 3 = 0 then ''drip''
      else if seq mod 3 = 1 then ''cover''
      else ''adaptive'')"

definition SelectObfsModeForProfile :: "string \<Rightarrow> 32 word \<Rightarrow> nat \<Rightarrow> string" where
  "SelectObfsModeForProfile profile seq payloadLen =
     (if profile = ''aggressive'' then
        (if payloadLen > 1100 then ''burst''
         else if seq mod 2 = 0 then ''cover'' else ''adaptive'')
      else if profile = ''recovery'' then (if seq mod 2 = 0 then ''drip'' else ''cover'')
      else SelectObfsMode seq payloadLen)"

definition obfs_modes :: "string set" where
  "obfs_modes = {''burst'', ''drip'', ''cover'', ''adaptive''}"

lemma SelectObfsMode_modes: "SelectObfsMode seq n \<in> obfs_modes"
  by (simp add: SelectObfsMode_def obfs_modes_def)

lemma SelectObfsModeForProfile_modes: "SelectObfsModeForProfile profile seq n \<in> obfs_modes"
  using SelectObfsMode_modes [of seq n] by (simp add: SelectObfsModeForProfile_def obfs_modes_def)

lemma obfs_modes_plain: "m \<in> obfs_modes \<Longrightarrow> plain_text m \<and> length m \<le> 8"
  by (auto simp: obfs_modes_def plain_text_def plain_char_def escape_ascii_def Let_def)

lemma obfs_modes_not_bind: "m \<in> obfs_modes \<Longrightarrow> m \<noteq> ''bind''"
  by (auto simp: obfs_modes_def)

subsection \<open>frame\_v2.go\<close>

definition TypeData :: string where
  "TypeData = ''data_v1''"

record DataFrameV2 =
  df_Type :: string
  df_ProtoVersion :: string
  df_Channel :: "8 word"
  df_Sequence :: "32 word"
  df_Mode :: string
  df_Ciphertext :: string
  df_Padding :: string

definition DataFrameV2_members :: "DataFrameV2 \<Rightarrow> (string \<times> json) list" where
  "DataFrameV2_members f =
     [(''type'', JStr (df_Type f)),
      (''proto_version'', JStr (df_ProtoVersion f)),
      (''channel'', JNum (nat_digits (unat (df_Channel f)))),
      (''sequence'', JNum (nat_digits (unat (df_Sequence f)))),
      (''mode'', JStr (df_Mode f)),
      (''ciphertext'', JStr (df_Ciphertext f)),
      (''padding'', JStr (df_Padding f))]"

definition DataFrameV2_marshal :: "DataFrameV2 \<Rightarrow> bytes" where
  "DataFrameV2_marshal f = json_marshal (JObj (DataFrameV2_members f))"

definition DataFrameV2_unmarshal :: "bytes \<Rightarrow> DataFrameV2 result" where
  "DataFrameV2_unmarshal raw = (case obj_members raw of Inl e \<Rightarrow> Inl e | Inr ms \<Rightarrow>
     with_field (str_field ''type'' ms) (\<lambda>t.
     with_field (str_field ''proto_version'' ms) (\<lambda>pv.
     with_field (word_field ''channel'' ms) (\<lambda>ch.
     with_field (word_field ''sequence'' ms) (\<lambda>sq.
     with_field (str_field ''mode'' ms) (\<lambda>m.
     with_field (str_field ''ciphertext'' ms) (\<lambda>c.
     with_field (str_field ''padding'' ms) (\<lambda>p.
       Inr \<lparr>df_Type = t, df_ProtoVersion = pv, df_Channel = ch, df_Sequence = sq,
            df_Mode = m, df_Ciphertext = c, df_Padding = p\<rparr>))))))))"

definition randomPadding :: "rng \<Rightarrow> int \<Rightarrow> bytes result" where
  "randomPadding rng maxPad =
     (if maxPad \<le> 0 then Inr []
      else case rand_int (rng 0) (nat (maxPad + 1)) of
        Inl e \<Rightarrow> Inl e
      | Inr n \<Rightarrow> (if n = 0 then Inr [] else read_full (rng 1) n))"

definition BuildDataFrameV2 ::
  "rng \<Rightarrow> bytes \<Rightarrow> 8 word \<Rightarrow> 32 word \<Rightarrow> string \<Rightarrow> bytes \<Rightarrow> int \<Rightarrow> bytes result" where
  "BuildDataFrameV2 rng sessionKey channel seq mode payload maxPad =
     (case Encrypt rng sessionKey payload of
        Inl e \<Rightarrow> Inl e
      | Inr enc \<Rightarrow>
          (case randomPadding (rng_skip 1 rng) maxPad of
             Inl e \<Rightarrow> Inl e
           | Inr pad \<Rightarrow>
               Inr (DataFrameV2_marshal
                 \<lparr>df_Type = TypeData, df_ProtoVersion = ''v2'', df_Channel = channel,
                  df_Sequence = seq, df_Mode = mode, df_Ciphertext = enc,
                  df_Padding = StdEncodeToString pad\<rparr>)))"

definition ParseDataFrameV2 :: "bytes \<Rightarrow> bytes \<Rightarrow> (DataFrameV2 \<times> bytes) result" where
  "ParseDataFrameV2 sessionKey raw =
     (case DataFrameV2_unmarshal raw of
        Inl e \<Rightarrow> Inl e
      | Inr frame \<Rightarrow>
          (if df_Type frame \<noteq> TypeData \<or> df_ProtoVersion frame \<noteq> ''v2''
           then Inl (EMsg ''invalid v2 frame'')
           else (case Decrypt sessionKey (df_Ciphertext frame) of
             Inl e \<Rightarrow> Inl e
           | Inr payload \<Rightarrow> Inr (frame, payload))))"

definition DataFrameV2_ascii :: "DataFrameV2 \<Rightarrow> bool" where
  "DataFrameV2_ascii f \<longleftrightarrow> ascii (df_Type f) \<and> ascii (df_ProtoVersion f) \<and> ascii (df_Mode f)
     \<and> ascii (df_Ciphertext f) \<and> ascii (df_Padding f)"

lemma DataFrameV2_roundtrip [codec_simps]:
  "DataFrameV2_ascii f \<Longrightarrow> DataFrameV2_unmarshal (DataFrameV2_marshal f) = Inr f"
proof -
  assume a: "DataFrameV2_ascii f"
  have "obj_members (DataFrameV2_marshal f) = Inr (DataFrameV2_members f)"
    unfolding DataFrameV2_marshal_def
    by (rule obj_members_marshal)
      (use a in \<open>simp_all add: DataFrameV2_members_def DataFrameV2_ascii_def max_depth_def\<close>)
  then show ?thesis
    by (simp add: DataFrameV2_unmarshal_def) (simp add: DataFrameV2_members_def field_eval)
qed

lemma ascii_TypeData [simp]: "ascii TypeData" "ascii ''v2''"
  by (simp_all add: TypeData_def)

lemma randomPadding_bound: "randomPadding rng maxPad = Inr pad \<Longrightarrow> length pad \<le> nat maxPad"
  by (auto simp: randomPadding_def split: if_splits sum.splits
      dest!: rand_int_less read_full_length)

lemma randomPadding_ok: "draw_ok (rng 0) \<Longrightarrow> draw_ok (rng 1) \<Longrightarrow> \<exists>pad. randomPadding rng maxPad = Inr pad"
  by (auto simp: randomPadding_def rand_int_def read_full_def)

lemma BuildDataFrameV2_cases:
  assumes "BuildDataFrameV2 rng k ch seq mode p maxPad = Inr raw"
  obtains enc pad where "Encrypt rng k p = Inr enc" "randomPadding (rng_skip 1 rng) maxPad = Inr pad"
    "raw = DataFrameV2_marshal \<lparr>df_Type = TypeData, df_ProtoVersion = ''v2'', df_Channel = ch,
       df_Sequence = seq, df_Mode = mode, df_Ciphertext = enc, df_Padding = StdEncodeToString pad\<rparr>"
  using assms by (auto simp: BuildDataFrameV2_def split: sum.splits)

lemma BuildDataFrameV2_ok:
  "draw_ok (rng 0) \<Longrightarrow> draw_ok (rng 1) \<Longrightarrow> draw_ok (rng 2) \<Longrightarrow>
     \<exists>raw. BuildDataFrameV2 rng k ch seq mode p maxPad = Inr raw"
proof -
  assume d: "draw_ok (rng 0)" "draw_ok (rng 1)" "draw_ok (rng 2)"
  have "draw_ok (rng_skip 1 rng 0)" "draw_ok (rng_skip 1 rng 1)"
    using d by (simp_all add: numeral_2_eq_2)
  then show ?thesis
    using d randomPadding_ok [of "rng_skip 1 rng" maxPad] Encrypt_ok [of rng k p]
    by (auto simp: BuildDataFrameV2_def)
qed

lemma ParseDataFrameV2_marshal:
  assumes "DataFrameV2_ascii f" "df_Type f = TypeData" "df_ProtoVersion f = ''v2''"
    and "Decrypt k (df_Ciphertext f) = Inr p"
  shows "ParseDataFrameV2 k (DataFrameV2_marshal f) = Inr (f, p)"
  using assms by (simp add: ParseDataFrameV2_def DataFrameV2_roundtrip)

lemma ParseDataFrameV2_BuildDataFrameV2 [codec_simps]:
  assumes "BuildDataFrameV2 rng k ch seq mode p maxPad = Inr raw" and "ascii mode"
  shows "\<exists>frame. ParseDataFrameV2 k raw = Inr (frame, p) \<and> df_Channel frame = ch
    \<and> df_Sequence frame = seq \<and> df_Mode frame = mode"
  using assms(1)
proof (cases rule: BuildDataFrameV2_cases)
  case (1 enc pad)
  then show ?thesis
    using assms(2) Decrypt_Encrypt [OF 1(1)] Encrypt_plain [OF 1(1)]
    by (subst 1(3), subst ParseDataFrameV2_marshal)
      (simp_all add: DataFrameV2_ascii_def plain_text_ascii)
qed

subsection \<open>The size of a frame\<close>

lemma plain_char_lit: "between 97 122 (code c) \<or> c = CHR ''_'' \<or> is_digit c \<Longrightarrow> plain_char c"
  by (rule plain_charI) (auto simp: between_def is_digit_def)

lemma plain_name_text: "plain_name s \<Longrightarrow> plain_text s"
  by (auto simp: plain_name_def plain_text_def list_all_iff plain_char_lit)

lemma length_quote_name [len_simps]: "plain_name s \<Longrightarrow> length (json_quote s) = length s + 2"
  by (simp add: length_quote_plain plain_name_text)

lemma plain_TypeData [simp]: "plain_text TypeData" "plain_text ''v2''" "length TypeData = 7"
  by (simp_all add: TypeData_def plain_name_text between_def is_digit_def)

lemma DataFrameV2_length [len_simps]:
  assumes "plain_text (df_Type f)" "plain_text (df_ProtoVersion f)" "plain_text (df_Mode f)"
    "plain_text (df_Ciphertext f)" "plain_text (df_Padding f)"
  shows "length (DataFrameV2_marshal f) =
    92 + length (df_Type f) + length (df_ProtoVersion f) + length (nat_digits (unat (df_Channel f)))
      + length (nat_digits (unat (df_Sequence f))) + length (df_Mode f) + length (df_Ciphertext f)
      + length (df_Padding f)"
  using assms
  by (simp add: DataFrameV2_marshal_def json_marshal_def DataFrameV2_members_def
      length_quote_plain length_quote_name between_def is_digit_def)

lemma channel_digits: "length (nat_digits (unat (c :: 8 word))) \<le> 3"
proof (rule nat_digits_length)
  show "unat c < 10 ^ 3" by (rule less_le_trans [OF unat_byte_less]) simp
qed simp

lemma sequence_digits: "length (nat_digits (unat (s :: 32 word))) \<le> 10"
proof (rule nat_digits_length)
  have "unat s < 2 ^ 32" using unsigned_less [of s, where ?'a = nat] by simp
  then show "unat s < 10 ^ 10" by simp
qed simp

lemma BuildDataFrameV2_length:
  assumes "BuildDataFrameV2 rng k ch seq mode p maxPad = Inr raw" and "plain_text mode"
  shows "length raw \<le> 4 * ((length p + 30) div 3) + 4 * ((nat maxPad + 2) div 3) + length mode + 120"
  using assms(1)
proof (cases rule: BuildDataFrameV2_cases)
  case (1 enc pad)
  have "length pad \<le> nat maxPad" using 1(2) by (rule randomPadding_bound)
  then have "(length pad + 2) div 3 \<le> (nat maxPad + 2) div 3" by (intro div_le_mono) simp
  then show ?thesis
    using assms(2) Encrypt_plain [OF 1(1)] Encrypt_length [OF 1(1)]
      channel_digits [of ch] sequence_digits [of seq]
    by (simp add: 1(3) DataFrameV2_length length_StdEncode)
qed

subsection \<open>datagram\_v2.go\<close>

record DatagramFrameV2 =
  dg_Type :: string
  dg_ProtoVersion :: string
  dg_SessionID :: string
  dg_Channel :: "8 word"
  dg_Sequence :: "32 word"
  dg_Mode :: string
  dg_Ciphertext :: string
  dg_Padding :: string

definition DatagramFrameV2_members :: "DatagramFrameV2 \<Rightarrow> (string \<times> json) list" where
  "DatagramFrameV2_members f =
     [(''type'', JStr (dg_Type f)),
      (''proto_version'', JStr (dg_ProtoVersion f)),
      (''session_id'', JStr (dg_SessionID f)),
      (''channel'', JNum (nat_digits (unat (dg_Channel f)))),
      (''sequence'', JNum (nat_digits (unat (dg_Sequence f)))),
      (''mode'', JStr (dg_Mode f)),
      (''ciphertext'', JStr (dg_Ciphertext f)),
      (''padding'', JStr (dg_Padding f))]"

definition DatagramFrameV2_marshal :: "DatagramFrameV2 \<Rightarrow> bytes" where
  "DatagramFrameV2_marshal f = json_marshal (JObj (DatagramFrameV2_members f))"

definition DatagramFrameV2_unmarshal :: "bytes \<Rightarrow> DatagramFrameV2 result" where
  "DatagramFrameV2_unmarshal raw = (case obj_members raw of Inl e \<Rightarrow> Inl e | Inr ms \<Rightarrow>
     with_field (str_field ''type'' ms) (\<lambda>t.
     with_field (str_field ''proto_version'' ms) (\<lambda>pv.
     with_field (str_field ''session_id'' ms) (\<lambda>sid.
     with_field (word_field ''channel'' ms) (\<lambda>ch.
     with_field (word_field ''sequence'' ms) (\<lambda>sq.
     with_field (str_field ''mode'' ms) (\<lambda>m.
     with_field (str_field ''ciphertext'' ms) (\<lambda>c.
     with_field (str_field ''padding'' ms) (\<lambda>p.
       Inr \<lparr>dg_Type = t, dg_ProtoVersion = pv, dg_SessionID = sid, dg_Channel = ch,
            dg_Sequence = sq, dg_Mode = m, dg_Ciphertext = c, dg_Padding = p\<rparr>)))))))))"

definition BuildDatagramFrameV2 ::
  "rng \<Rightarrow> bytes \<Rightarrow> string \<Rightarrow> 8 word \<Rightarrow> 32 word \<Rightarrow> string \<Rightarrow> bytes \<Rightarrow> int \<Rightarrow> bytes result" where
  "BuildDatagramFrameV2 rng sessionKey sessionID channel seq mode payload maxPad =
     (case BuildDataFrameV2 rng sessionKey channel seq mode payload maxPad of
        Inl e \<Rightarrow> Inl e
      | Inr frameRaw \<Rightarrow>
          (case DataFrameV2_unmarshal frameRaw of
             Inl e \<Rightarrow> Inl e
           | Inr dataFrame \<Rightarrow>
               Inr (DatagramFrameV2_marshal
                 \<lparr>dg_Type = df_Type dataFrame, dg_ProtoVersion = df_ProtoVersion dataFrame,
                  dg_SessionID = sessionID, dg_Channel = df_Channel dataFrame,
                  dg_Sequence = df_Sequence dataFrame, dg_Mode = df_Mode dataFrame,
                  dg_Ciphertext = df_Ciphertext dataFrame, dg_Padding = df_Padding dataFrame\<rparr>)))"

definition ParseDatagramSessionID :: "bytes \<Rightarrow> string result" where
  "ParseDatagramSessionID raw = (case obj_members raw of Inl e \<Rightarrow> Inl e | Inr ms \<Rightarrow>
     with_field (str_field ''type'' ms) (\<lambda>t.
     with_field (str_field ''proto_version'' ms) (\<lambda>pv.
     with_field (str_field ''session_id'' ms) (\<lambda>sid.
       if t \<noteq> TypeData \<or> pv \<noteq> ''v2'' \<or> sid = [] then Inl (EMsg ''invalid datagram v2 header'')
       else Inr sid))))"

definition ParseDatagramFrameV2 :: "bytes \<Rightarrow> bytes \<Rightarrow> (DatagramFrameV2 \<times> bytes) result" where
  "ParseDatagramFrameV2 sessionKey raw =
     (case DatagramFrameV2_unmarshal raw of
        Inl e \<Rightarrow> Inl e
      | Inr d \<Rightarrow>
          (if dg_Type d \<noteq> TypeData \<or> dg_ProtoVersion d \<noteq> ''v2'' \<or> dg_SessionID d = []
           then Inl (EMsg ''invalid datagram v2'')
           else (case Decrypt sessionKey (dg_Ciphertext d) of
             Inl e \<Rightarrow> Inl e
           | Inr plain \<Rightarrow> Inr (d, plain))))"

definition DatagramFrameV2_ascii :: "DatagramFrameV2 \<Rightarrow> bool" where
  "DatagramFrameV2_ascii f \<longleftrightarrow> ascii (dg_Type f) \<and> ascii (dg_ProtoVersion f) \<and> ascii (dg_SessionID f)
     \<and> ascii (dg_Mode f) \<and> ascii (dg_Ciphertext f) \<and> ascii (dg_Padding f)"

lemma DatagramFrameV2_obj:
  "DatagramFrameV2_ascii f \<Longrightarrow>
     obj_members (DatagramFrameV2_marshal f) = Inr (DatagramFrameV2_members f)"
  unfolding DatagramFrameV2_marshal_def
  by (rule obj_members_marshal)
    (simp_all add: DatagramFrameV2_members_def DatagramFrameV2_ascii_def max_depth_def)

lemma DatagramFrameV2_roundtrip [codec_simps]:
  "DatagramFrameV2_ascii f \<Longrightarrow> DatagramFrameV2_unmarshal (DatagramFrameV2_marshal f) = Inr f"
  by (simp add: DatagramFrameV2_unmarshal_def DatagramFrameV2_obj)
    (simp add: DatagramFrameV2_members_def field_eval)

lemma BuildDatagramFrameV2_cases:
  assumes "BuildDatagramFrameV2 rng k sid ch seq mode p maxPad = Inr raw" and "ascii mode"
  obtains enc pad where "Encrypt rng k p = Inr enc" "randomPadding (rng_skip 1 rng) maxPad = Inr pad"
    "raw = DatagramFrameV2_marshal \<lparr>dg_Type = TypeData, dg_ProtoVersion = ''v2'', dg_SessionID = sid,
       dg_Channel = ch, dg_Sequence = seq, dg_Mode = mode, dg_Ciphertext = enc,
       dg_Padding = StdEncodeToString pad\<rparr>"
proof -
  obtain f where f: "BuildDataFrameV2 rng k ch seq mode p maxPad = Inr f"
    using assms by (auto simp: BuildDatagramFrameV2_def split: sum.splits)
  from f show ?thesis
  proof (cases rule: BuildDataFrameV2_cases)
    case (1 enc pad)
    have "DataFrameV2_unmarshal f = Inr \<lparr>df_Type = TypeData, df_ProtoVersion = ''v2'', df_Channel = ch,
       df_Sequence = seq, df_Mode = mode, df_Ciphertext = enc, df_Padding = StdEncodeToString pad\<rparr>"
      unfolding 1(3) using assms(2) Encrypt_plain [OF 1(1)]
      by (intro DataFrameV2_roundtrip) (simp add: DataFrameV2_ascii_def plain_text_ascii)
    then show ?thesis
      using that [OF 1(1,2)] assms(1) f by (simp add: BuildDatagramFrameV2_def)
  qed
qed

lemma BuildDatagramFrameV2_ok:
  assumes "draw_ok (rng 0)" "draw_ok (rng 1)" "draw_ok (rng 2)" "ascii mode"
  shows "\<exists>raw. BuildDatagramFrameV2 rng k sid ch seq mode p maxPad = Inr raw"
proof -
  obtain f where f: "BuildDataFrameV2 rng k ch seq mode p maxPad = Inr f"
    using BuildDataFrameV2_ok assms by blast
  then obtain frame where "ParseDataFrameV2 k f = Inr (frame, p)"
    using ParseDataFrameV2_BuildDataFrameV2 assms(4) by blast
  then have "\<exists>d. DataFrameV2_unmarshal f = Inr d"
    by (auto simp: ParseDataFrameV2_def split: sum.splits)
  with f show ?thesis by (auto simp: BuildDatagramFrameV2_def)
qed

lemma ParseDatagram_BuildDatagram:
  assumes "BuildDatagramFrameV2 rng k sid ch seq mode p maxPad = Inr raw"
    and "ascii mode" "ascii sid" "sid \<noteq> []"
  shows "\<exists>d. ParseDatagramFrameV2 k raw = Inr (d, p) \<and> dg_SessionID d = sid \<and> dg_Channel d = ch
    \<and> dg_Sequence d = seq \<and> dg_Mode d = mode"
  using assms(1,2)
proof (cases rule: BuildDatagramFrameV2_cases)
  case (1 enc pad)
  then show ?thesis
    using assms(2-) Decrypt_Encrypt [OF 1(1)] Encrypt_plain [OF 1(1)]
    by (simp add: 1(3) ParseDatagramFrameV2_def DatagramFrameV2_roundtrip DatagramFrameV2_ascii_def
        plain_text_ascii)
qed

lemma ParseDatagramFrameV2_Inr:
  assumes "ParseDatagramFrameV2 k raw = Inr (d, p)"
  shows "DatagramFrameV2_unmarshal raw = Inr d" "dg_Type d = TypeData" "dg_ProtoVersion d = ''v2''"
    "dg_SessionID d \<noteq> []" "Decrypt k (dg_Ciphertext d) = Inr p"
  using assms by (auto simp: ParseDatagramFrameV2_def split: sum.splits if_splits)

lemma ParseDatagramSessionID_Inr:
  assumes "ParseDatagramSessionID raw = Inr sid"
  shows "sid \<noteq> [] \<and> (\<exists>ms. obj_members raw = Inr ms \<and> str_field ''session_id'' ms = Some sid)"
proof -
  obtain ms where ms: "obj_members raw = Inr ms"
    using assms by (cases "obj_members raw") (auto simp: ParseDatagramSessionID_def)
  then obtain t pv s where "str_field ''type'' ms = Some t" "str_field ''proto_version'' ms = Some pv"
    and s: "str_field ''session_id'' ms = Some s"
    and r: "(if t \<noteq> TypeData \<or> pv \<noteq> ''v2'' \<or> s = [] then Inl (EMsg ''invalid datagram v2 header'')
       else Inr s) = Inr sid"
    using assms by (simp only: ParseDatagramSessionID_def sum.case with_field_Inr) blast
  then have "s = sid \<and> sid \<noteq> []" by (metis (full_types) Inl_Inr_False Inr_inject)
  with ms s show ?thesis by simp
qed

lemma DatagramFrameV2_unmarshal_Inr:
  assumes "DatagramFrameV2_unmarshal raw = Inr d"
  shows "\<exists>ms. obj_members raw = Inr ms \<and> str_field ''type'' ms = Some (dg_Type d)
    \<and> str_field ''proto_version'' ms = Some (dg_ProtoVersion d)
    \<and> str_field ''session_id'' ms = Some (dg_SessionID d)"
proof -
  obtain ms where ms: "obj_members raw = Inr ms"
    using assms by (cases "obj_members raw") (auto simp: DatagramFrameV2_unmarshal_def)
  with assms show ?thesis
    by (simp add: DatagramFrameV2_unmarshal_def with_field_Inr) fastforce
qed

lemma ParseDatagramSessionID_of_frame:
  assumes "ParseDatagramFrameV2 k raw = Inr (d, p)"
  shows "ParseDatagramSessionID raw = Inr (dg_SessionID d)"
proof -
  note f = ParseDatagramFrameV2_Inr [OF assms]
  obtain ms where "obj_members raw = Inr ms" "str_field ''type'' ms = Some (dg_Type d)"
    "str_field ''proto_version'' ms = Some (dg_ProtoVersion d)"
    "str_field ''session_id'' ms = Some (dg_SessionID d)"
    using DatagramFrameV2_unmarshal_Inr [OF f(1)] by blast
  with f show ?thesis by (simp add: ParseDatagramSessionID_def)
qed

lemma DatagramFrameV2_length [len_simps]:
  assumes "plain_text (dg_Type f)" "plain_text (dg_ProtoVersion f)" "plain_text (dg_SessionID f)"
    "plain_text (dg_Mode f)" "plain_text (dg_Ciphertext f)" "plain_text (dg_Padding f)"
  shows "length (DatagramFrameV2_marshal f) =
    108 + length (dg_Type f) + length (dg_ProtoVersion f) + length (dg_SessionID f)
      + length (nat_digits (unat (dg_Channel f))) + length (nat_digits (unat (dg_Sequence f)))
      + length (dg_Mode f) + length (dg_Ciphertext f) + length (dg_Padding f)"
  using assms
  by (simp add: DatagramFrameV2_marshal_def json_marshal_def DatagramFrameV2_members_def
      length_quote_plain length_quote_name between_def is_digit_def)

text \<open>A datagram cut short, whatever the cut, does not parse at all.\<close>

lemma datagram_prefix_rejected:
  assumes "DatagramFrameV2_ascii f" and "DatagramFrameV2_marshal f = p @ q" and "q \<noteq> []"
  shows "obj_members p = Inl EJson"
proof -
  have "json_print (JObj (DatagramFrameV2_members f)) = str_of_bytes (DatagramFrameV2_marshal f)"
    by (simp only: DatagramFrameV2_marshal_def json_marshal_def str_of_bytes_of_str)
  also have "\<dots> = str_of_bytes p @ str_of_bytes q"
    by (simp only: assms(2) str_of_bytes_def map_append)
  finally have whole: "json_print (JObj (DatagramFrameV2_members f)) = str_of_bytes p @ str_of_bytes q" .
  have "members_ok (DatagramFrameV2_members f)" "members_depth (DatagramFrameV2_members f) < max_depth"
    using assms(1) by (simp_all add: DatagramFrameV2_members_def DatagramFrameV2_ascii_def max_depth_def)
  then have "json_parse (str_of_bytes p) = None"
    using whole by (rule json_parse_prefix) (use assms(3) in \<open>simp add: str_of_bytes_def\<close>)
  then show ?thesis by (simp add: obj_members_def)
qed

lemma datagram_minimum_length:
  assumes "BuildDatagramFrameV2 rng k sid ch seq mode p maxPad = Inr raw"
    and "plain_text mode" "plain_text sid"
  shows "length raw \<ge> 4 * ((length p + 30) div 3) + length mode + length sid + 119"
proof -
  have "ascii mode" using assms(2) by (rule plain_text_ascii)
  with assms(1) show ?thesis
  proof (cases rule: BuildDatagramFrameV2_cases)
    case (1 enc pad)
    have pos: "1 \<le> length (nat_digits n)" for n
      by (cases "nat_digits n") auto
    have "length raw = 108 + 7 + 2 + length sid + length (nat_digits (unat ch))
        + length (nat_digits (unat seq)) + length mode + 4 * ((length p + 30) div 3)
        + length (StdEncodeToString pad)"
      using assms(2,3) Encrypt_plain [OF 1(1)] Encrypt_length [OF 1(1)]
      by (simp add: 1(3) DatagramFrameV2_length)
    then show ?thesis using pos [of "unat ch"] pos [of "unat seq"] by linarith
  qed
qed

end
