(* ===== verification/Handshake.thy ===== *)
theory Handshake
  imports SecureFrames
begin

text \<open>
  Package \<open>secureproto\<close>, control plane: \<open>keys.go\<close>, \<open>handshake.go\<close> (hello, ack, session key)
  and \<open>handshake_v2.go\<close> (challenge, auth proof, ready), and the older package \<open>handshake\<close>.
  The X25519 scalar multiplication of \<open>crypto/ecdh\<close> is the parameter \<open>x25519\<close>; the checks
  Go makes around it (key lengths, the all-zero result) are modelled. Messages are parsed and
  printed with the JSON model; every rejection of the code is a branch of the model.
\<close>

subsection \<open>keys.go\<close>

type_synonym x25519_fun = "bytes \<Rightarrow> bytes \<Rightarrow> bytes"

record KeyPair =
  PrivateKey :: string
  PublicKey :: string

definition base_point :: bytes where
  "base_point = 9 # replicate 31 0"

definition GenerateKeyPair :: "x25519_fun \<Rightarrow> draw \<Rightarrow> KeyPair result" where
  "GenerateKeyPair x25519 d =
     (case read_full d 32 of
        Inl e \<Rightarrow> Inl e
      | Inr priv \<Rightarrow> Inr \<lparr>PrivateKey = StdEncodeToString priv,
                        PublicKey = StdEncodeToString (x25519 priv base_point)\<rparr>)"

definition ParsePrivateKey :: "string \<Rightarrow> bytes result" where
  "ParsePrivateKey b64 = (case StdDecodeString b64 of
     Inl e \<Rightarrow> Inl EBase64
   | Inr raw \<Rightarrow> (if length raw \<noteq> 32 then Inl EKey else Inr raw))"

definition ParsePublicKey :: "string \<Rightarrow> bytes result" where
  "ParsePublicKey b64 = (case StdDecodeString b64 of
     Inl e \<Rightarrow> Inl EBase64
   | Inr raw \<Rightarrow> (if length raw \<noteq> 32 then Inl EKey else Inr raw))"

definition SharedSecret :: "x25519_fun \<Rightarrow> string \<Rightarrow> string \<Rightarrow> bytes result" where
  "SharedSecret x25519 privateB64 peerPublicB64 =
     (case ParsePrivateKey privateB64 of
        Inl e \<Rightarrow> Inl e
      | Inr priv \<Rightarrow>
          (case ParsePublicKey peerPublicB64 of
             Inl e \<Rightarrow> Inl e
           | Inr pub \<Rightarrow>
               (let shared = x25519 priv pub in
                if list_all (\<lambda>b. b = 0) shared then Inl EKey else Inr shared)))"

text \<open>
  The documented behaviour of X25519 the handshake relies on: results have 32 bytes, and the
  two orders of combining two private keys with the base point agree.
\<close>

definition x25519_laws :: "x25519_fun \<Rightarrow> bool" where
  "x25519_laws f \<longleftrightarrow>
     (\<forall>a u. length a = 32 \<longrightarrow> length u = 32 \<longrightarrow> length (f a u) = 32) \<and>
     (\<forall>a b. length a = 32 \<longrightarrow> length b = 32 \<longrightarrow> f a (f b base_point) = f b (f a base_point))"

definition toy_x25519 :: x25519_fun where
  "toy_x25519 a u = map2 (\<lambda>x y. x * y) a u"

lemma toy_x25519_laws: "x25519_laws toy_x25519"
  unfolding x25519_laws_def toy_x25519_def
  by (auto intro!: nth_equalityI simp: base_point_def mult.left_commute)

lemma length_base_point [simp]: "length base_point = 32"
  by (simp add: base_point_def)

definition keypair_of :: "x25519_fun \<Rightarrow> bytes \<Rightarrow> KeyPair" where
  "keypair_of x25519 priv = \<lparr>PrivateKey = StdEncodeToString priv,
     PublicKey = StdEncodeToString (x25519 priv base_point)\<rparr>"

lemma GenerateKeyPair_keypair: "GenerateKeyPair x25519 d = Inr kp \<Longrightarrow>
    \<exists>priv. length priv = 32 \<and> kp = keypair_of x25519 priv"
  by (auto simp: GenerateKeyPair_def keypair_of_def dest: read_full_length split: sum.splits)

lemma SharedSecret_agree:
  assumes "x25519_laws x25519"
    and "GenerateKeyPair x25519 d1 = Inr k1" and "GenerateKeyPair x25519 d2 = Inr k2"
  shows "SharedSecret x25519 (PrivateKey k1) (PublicKey k2)
    = SharedSecret x25519 (PrivateKey k2) (PublicKey k1)"
proof -
  obtain a b where "length a = 32" "k1 = keypair_of x25519 a" "length b = 32" "k2 = keypair_of x25519 b"
    using GenerateKeyPair_keypair assms(2,3) by meson
  with assms(1) show ?thesis
    by (simp add: keypair_of_def SharedSecret_def ParsePrivateKey_def ParsePublicKey_def x25519_laws_def)
qed

subsection \<open>Transcripts\<close>

definition DeriveSessionKey :: "bytes \<Rightarrow> bytes \<Rightarrow> bytes \<Rightarrow> bytes" where
  "DeriveSessionKey shared clientNonce serverNonce =
     sha256 (bytes_of_str ''dsp-session-v1'' @ shared @ clientNonce @ serverNonce)"

definition BuildHelloAuth :: "string \<Rightarrow> string \<Rightarrow> bytes \<Rightarrow> int \<Rightarrow> string" where
  "BuildHelloAuth preSharedKey clientPublicKey clientNonce timestamp =
     StdEncodeToString (hmac (bytes_of_str preSharedKey)
       (bytes_of_str ''hello-v1'' @ bytes_of_str clientPublicKey @ clientNonce
         @ bytes_of_str (int_text timestamp)))"

lemma length_DeriveSessionKey [simp]: "length (DeriveSessionKey s c n) = 32"
  by (simp add: DeriveSessionKey_def)

lemma length_BuildHelloAuth [simp]: "length (BuildHelloAuth p c n t) = 44"
  by (simp add: BuildHelloAuth_def length_StdEncode)

subsection \<open>handshake.go\<close>

definition TypeHello :: string where
  "TypeHello = ''hello_v1''"

definition TypeAck :: string where
  "TypeAck = ''ack_v1''"

record HelloFrame =
  hello_Type :: string
  hello_ProtoVersion :: string
  ClientPublicKey :: string
  ClientNonce :: string
  Timestamp :: int
  AuthTag :: string

definition HelloFrame_members :: "HelloFrame \<Rightarrow> (string \<times> json) list" where
  "HelloFrame_members h =
     [(''type'', JStr (hello_Type h)),
      (''proto_version'', JStr (hello_ProtoVersion h)),
      (''client_public_key'', JStr (ClientPublicKey h)),
      (''client_nonce'', JStr (ClientNonce h)),
      (''timestamp'', JNum (int_text (Timestamp h))),
      (''auth_tag'', JStr (AuthTag h))]"

definition HelloJSON :: "HelloFrame \<Rightarrow> bytes" where
  "HelloJSON h = json_marshal (JObj (HelloFrame_members h))"

definition HelloFrame_unmarshal :: "bytes \<Rightarrow> HelloFrame result" where
  "HelloFrame_unmarshal raw = (case obj_members raw of Inl e \<Rightarrow> Inl e | Inr ms \<Rightarrow>
     with_field (str_field ''type'' ms) (\<lambda>t.
     with_field (str_field ''proto_version'' ms) (\<lambda>pv.
     with_field (str_field ''client_public_key'' ms) (\<lambda>pk.
     with_field (str_field ''client_nonce'' ms) (\<lambda>cn.
     with_field (int_field ''timestamp'' ms) (\<lambda>ts.
     with_field (str_field ''auth_tag'' ms) (\<lambda>tag.
       Inr \<lparr>hello_Type = t, hello_ProtoVersion = pv, ClientPublicKey = pk, ClientNonce = cn,
            Timestamp = ts, AuthTag = tag\<rparr>)))))))"

definition NewHello :: "draw \<Rightarrow> int \<Rightarrow> string \<Rightarrow> string \<Rightarrow> string \<Rightarrow> (HelloFrame \<times> bytes) result" where
  "NewHello d now clientPublicKey preSharedKey protoVersion =
     (case read_full d 16 of
        Inl e \<Rightarrow> Inl e
      | Inr nonce \<Rightarrow>
          Inr (\<lparr>hello_Type = TypeHello,
                hello_ProtoVersion = (if protoVersion = [] then ''v1'' else protoVersion),
                ClientPublicKey = clientPublicKey,
                ClientNonce = StdEncodeToString nonce,
                Timestamp = now,
                AuthTag = BuildHelloAuth preSharedKey clientPublicKey nonce now\<rparr>, nonce))"

definition ParseHello :: "bytes \<Rightarrow> (HelloFrame \<times> bytes) result" where
  "ParseHello payload =
     (case HelloFrame_unmarshal payload of
        Inl e \<Rightarrow> Inl e
      | Inr h \<Rightarrow>
          (if hello_Type h \<noteq> TypeHello \<or> ClientPublicKey h = [] \<or> ClientNonce h = []
           then Inl (EMsg ''invalid hello'')
           else
             let h' = (if hello_ProtoVersion h = [] then h\<lparr>hello_ProtoVersion := ''v1''\<rparr> else h)
             in (case StdDecodeString (ClientNonce h') of
                   Inl e \<Rightarrow> Inl (EMsg ''invalid client nonce'')
                 | Inr nonce \<Rightarrow>
                     (if length nonce \<noteq> 16 then Inl (EMsg ''invalid client nonce'')
                      else Inr (h', nonce)))))"

definition VerifyHelloAuth :: "string \<Rightarrow> HelloFrame \<Rightarrow> bytes \<Rightarrow> bool" where
  "VerifyHelloAuth preSharedKey h clientNonce =
     (if preSharedKey = [] then True
      else BuildHelloAuth preSharedKey (ClientPublicKey h) clientNonce (Timestamp h) = AuthTag h)"

text \<open>Times are 64-bit: the difference, and its negation, wrap around.\<close>

definition ValidateTimestamp :: "int \<Rightarrow> int \<Rightarrow> int \<Rightarrow> bool" where
  "ValidateTimestamp now ts allowedSkewSec =
     (let diff = wrap64 (now - ts);
          diff = (if diff < 0 then wrap64 (- diff) else diff)
      in diff \<le> allowedSkewSec)"

record AckFrame =
  ack_Type :: string
  ack_ServerNonce :: string
  ack_Mac :: string

definition AckFrame_members :: "AckFrame \<Rightarrow> (string \<times> json) list" where
  "AckFrame_members a = [(''type'', JStr (ack_Type a)), (''server_nonce'', JStr (ack_ServerNonce a)),
     (''mac'', JStr (ack_Mac a))]"

definition AckFrame_marshal :: "AckFrame \<Rightarrow> bytes" where
  "AckFrame_marshal a = json_marshal (JObj (AckFrame_members a))"

definition AckFrame_unmarshal :: "bytes \<Rightarrow> AckFrame result" where
  "AckFrame_unmarshal raw = (case obj_members raw of Inl e \<Rightarrow> Inl e | Inr ms \<Rightarrow>
     with_field (str_field ''type'' ms) (\<lambda>t.
     with_field (str_field ''server_nonce'' ms) (\<lambda>sn.
     with_field (str_field ''mac'' ms) (\<lambda>m.
       Inr \<lparr>ack_Type = t, ack_ServerNonce = sn, ack_Mac = m\<rparr>))))"

definition BuildAck :: "bytes \<Rightarrow> bytes \<Rightarrow> AckFrame" where
  "BuildAck sessionKey serverNonce =
     \<lparr>ack_Type = TypeAck, ack_ServerNonce = StdEncodeToString serverNonce,
      ack_Mac = StdEncodeToString (hmac sessionKey (bytes_of_str ''ack-v1'' @ serverNonce))\<rparr>"

definition VerifyAck :: "bytes \<Rightarrow> AckFrame \<Rightarrow> unit result" where
  "VerifyAck sessionKey ack =
     (if ack_Type ack \<noteq> TypeAck then Inl (EMsg ''invalid ack type'')
      else case StdDecodeString (ack_ServerNonce ack) of
        Inl e \<Rightarrow> Inl (EMsg ''invalid server nonce'')
      | Inr serverNonce \<Rightarrow>
          (if length serverNonce \<noteq> 16 then Inl (EMsg ''invalid server nonce'')
           else if ack_Mac (BuildAck sessionKey serverNonce) \<noteq> ack_Mac ack
             then Inl (EMsg ''ack mac mismatch'')
           else Inr ()))"

record DataFrame =
  data_Type :: string
  data_Ciphertext :: string

definition DataFrame_marshal :: "DataFrame \<Rightarrow> bytes" where
  "DataFrame_marshal f = json_marshal (JObj
     [(''type'', JStr (data_Type f)), (''ciphertext'', JStr (data_Ciphertext f))])"

definition DataFrame_unmarshal :: "bytes \<Rightarrow> DataFrame result" where
  "DataFrame_unmarshal raw = (case obj_members raw of Inl e \<Rightarrow> Inl e | Inr ms \<Rightarrow>
     with_field (str_field ''type'' ms) (\<lambda>t.
     with_field (str_field ''ciphertext'' ms) (\<lambda>c.
       Inr \<lparr>data_Type = t, data_Ciphertext = c\<rparr>)))"

subsection \<open>handshake\_v2.go\<close>

definition TypeChallenge :: string where
  "TypeChallenge = ''challenge_v2''"

definition TypeAuth :: string where
  "TypeAuth = ''auth_v2''"

definition TypeReady :: string where
  "TypeReady = ''ready_v2''"

record ChallengeFrame =
  ch_Type :: string
  ch_ProtoVersion :: string
  ch_ServerNonce :: string
  Ticket :: string

definition ChallengeFrame_members :: "ChallengeFrame \<Rightarrow> (string \<times> json) list" where
  "ChallengeFrame_members c = [(''type'', JStr (ch_Type c)), (''proto_version'', JStr (ch_ProtoVersion c)),
     (''server_nonce'', JStr (ch_ServerNonce c)), (''ticket'', JStr (Ticket c))]"

definition ChallengeFrame_marshal :: "ChallengeFrame \<Rightarrow> bytes" where
  "ChallengeFrame_marshal c = json_marshal (JObj (ChallengeFrame_members c))"

definition ChallengeFrame_unmarshal :: "bytes \<Rightarrow> ChallengeFrame result" where
  "ChallengeFrame_unmarshal raw = (case obj_members raw of Inl e \<Rightarrow> Inl e | Inr ms \<Rightarrow>
     with_field (str_field ''type'' ms) (\<lambda>t.
     with_field (str_field ''proto_version'' ms) (\<lambda>pv.
     with_field (str_field ''server_nonce'' ms) (\<lambda>sn.
     with_field (str_field ''ticket'' ms) (\<lambda>tk.
       Inr \<lparr>ch_Type = t, ch_ProtoVersion = pv, ch_ServerNonce = sn, Ticket = tk\<rparr>)))))"

definition BuildChallenge :: "bytes \<Rightarrow> bytes \<Rightarrow> ChallengeFrame" where
  "BuildChallenge sessionKey serverNonce =
     \<lparr>ch_Type = TypeChallenge, ch_ProtoVersion = ''v2'',
      ch_ServerNonce = StdEncodeToString serverNonce,
      Ticket = StdEncodeToString (hmac sessionKey (bytes_of_str ''challenge-v2'' @ serverNonce))\<rparr>"

definition ParseChallenge :: "bytes \<Rightarrow> (ChallengeFrame \<times> bytes) result" where
  "ParseChallenge raw =
     (case ChallengeFrame_unmarshal raw of
        Inl e \<Rightarrow> Inl e
      | Inr c \<Rightarrow>
          (if ch_Type c \<noteq> TypeChallenge \<or> ch_ProtoVersion c \<noteq> ''v2''
           then Inl (EMsg ''invalid challenge'')
           else (case StdDecodeString (ch_ServerNonce c) of
             Inl e \<Rightarrow> Inl (EMsg ''invalid challenge nonce'')
           | Inr nonce \<Rightarrow>
               (if length nonce \<noteq> 16 then Inl (EMsg ''invalid challenge nonce'')
                else Inr (c, nonce)))))"

record AuthFrame =
  auth_Type :: string
  auth_ProtoVersion :: string
  Proof :: string

definition AuthFrame_marshal :: "AuthFrame \<Rightarrow> bytes" where
  "AuthFrame_marshal a = json_marshal (JObj [(''type'', JStr (auth_Type a)),
     (''proto_version'', JStr (auth_ProtoVersion a)), (''proof'', JStr (Proof a))])"

definition AuthFrame_unmarshal :: "bytes \<Rightarrow> AuthFrame result" where
  "AuthFrame_unmarshal raw = (case obj_members raw of Inl e \<Rightarrow> Inl e | Inr ms \<Rightarrow>
     with_field (str_field ''type'' ms) (\<lambda>t.
     with_field (str_field ''proto_version'' ms) (\<lambda>pv.
     with_field (str_field ''proof'' ms) (\<lambda>p.
       Inr \<lparr>auth_Type = t, auth_ProtoVersion = pv, Proof = p\<rparr>))))"

definition BuildAuthProof :: "bytes \<Rightarrow> string \<Rightarrow> string" where
  "BuildAuthProof sessionKey ticket =
     StdEncodeToString (hmac sessionKey (bytes_of_str ''auth-v2'' @ bytes_of_str ticket))"

definition VerifyAuthProof :: "bytes \<Rightarrow> string \<Rightarrow> string \<Rightarrow> bool" where
  "VerifyAuthProof sessionKey ticket proof' = (BuildAuthProof sessionKey ticket = proof')"

record ReadyFrame =
  ready_Type :: string
  ready_ProtoVersion :: string
  ready_SessionID :: string
  ready_Mac :: string

text \<open>The session identifier has the \<open>omitempty\<close> option.\<close>

definition ReadyFrame_members :: "ReadyFrame \<Rightarrow> (string \<times> json) list" where
  "ReadyFrame_members r =
     [(''type'', JStr (ready_Type r)), (''proto_version'', JStr (ready_ProtoVersion r))]
     @ (if ready_SessionID r = [] then [] else [(''session_id'', JStr (ready_SessionID r))])
     @ [(''mac'', JStr (ready_Mac r))]"

definition ReadyFrame_marshal :: "ReadyFrame \<Rightarrow> bytes" where
  "ReadyFrame_marshal r = json_marshal (JObj (ReadyFrame_members r))"

definition ReadyFrame_unmarshal :: "bytes \<Rightarrow> ReadyFrame result" where
  "ReadyFrame_unmarshal raw = (case obj_members raw of Inl e \<Rightarrow> Inl e | Inr ms \<Rightarrow>
     with_field (str_field ''type'' ms) (\<lambda>t.
     with_field (str_field ''proto_version'' ms) (\<lambda>pv.
     with_field (str_field ''session_id'' ms) (\<lambda>sid.
     with_field (str_field ''mac'' ms) (\<lambda>m.
       Inr \<lparr>ready_Type = t, ready_ProtoVersion = pv, ready_SessionID = sid, ready_Mac = m\<rparr>)))))"

definition ready_mac :: "bytes \<Rightarrow> string \<Rightarrow> bytes" where
  "ready_mac sessionKey sessionID = hmac sessionKey (bytes_of_str ''ready-v2'' @ bytes_of_str sessionID)"

definition BuildReady :: "bytes \<Rightarrow> string \<Rightarrow> ReadyFrame" where
  "BuildReady sessionKey sessionID =
     \<lparr>ready_Type = TypeReady, ready_ProtoVersion = ''v2'', ready_SessionID = sessionID,
      ready_Mac = StdEncodeToString (ready_mac sessionKey sessionID)\<rparr>"

definition VerifyReady :: "bytes \<Rightarrow> ReadyFrame \<Rightarrow> bool \<times> string \<times> string" where
  "VerifyReady sessionKey frame =
     (if ready_Type frame \<noteq> TypeReady \<or> ready_ProtoVersion frame \<noteq> ''v2'' then (False, [], [])
      else case StdDecodeString (ready_Mac frame) of
        Inl e \<Rightarrow> (False, [], [])
      | Inr expectedMAC \<Rightarrow>
          (let want = ready_mac sessionKey (ready_SessionID frame)
           in (want = expectedMAC, ready_SessionID frame, StdEncodeToString want)))"

subsection \<open>Package handshake (version 1 placeholder)\<close>

definition TokenSize :: nat where
  "TokenSize = 32"

definition NewClientHello :: "draw \<Rightarrow> string \<Rightarrow> bytes result" where
  "NewClientHello d psk =
     (if psk = [] then Inl (EMsg ''psk is empty'')
      else case read_full d TokenSize of
        Inl e \<Rightarrow> Inl e
      | Inr nonce \<Rightarrow> Inr (sha256 (bytes_of_str psk @ nonce)))"

definition VerifyClientHello :: "string \<Rightarrow> bytes \<Rightarrow> bool" where
  "VerifyClientHello psk token \<longleftrightarrow> psk \<noteq> [] \<and> token \<noteq> replicate TokenSize 0"

definition NewServerHello :: "string \<Rightarrow> bytes \<Rightarrow> bytes result" where
  "NewServerHello psk clientToken =
     (if psk = [] then Inl (EMsg ''psk is empty'')
      else Inr (sha256 (clientToken @ bytes_of_str psk)))"

subsection \<open>Round trips of the handshake messages\<close>

lemma plain_types [simp]: "plain_text TypeHello" "plain_text TypeAck" "plain_text TypeChallenge"
    "plain_text TypeAuth" "plain_text TypeReady" "plain_text ''v1''" "plain_text ''v2''"
  by (simp_all add: TypeHello_def TypeAck_def TypeChallenge_def TypeAuth_def TypeReady_def
      plain_name_text between_def is_digit_def)

lemmas ascii_types [simp] = plain_types [THEN plain_text_ascii]

definition HelloFrame_ok :: "HelloFrame \<Rightarrow> bool" where
  "HelloFrame_ok h \<longleftrightarrow> ascii (hello_Type h) \<and> ascii (hello_ProtoVersion h) \<and> ascii (ClientPublicKey h)
     \<and> ascii (ClientNonce h) \<and> in_int64 (Timestamp h) \<and> ascii (AuthTag h)"

lemma HelloFrame_roundtrip [codec_simps]:
  assumes "HelloFrame_ok h"
  shows "HelloFrame_unmarshal (HelloJSON h) = Inr h"
proof -
  have "obj_members (HelloJSON h) = Inr (HelloFrame_members h)"
    unfolding HelloJSON_def
    by (rule obj_members_marshal)
      (use assms in \<open>simp_all add: HelloFrame_members_def HelloFrame_ok_def max_depth_def\<close>)
  then show ?thesis
    using assms
    by (simp add: HelloFrame_unmarshal_def)
      (simp add: HelloFrame_members_def field_eval HelloFrame_ok_def)
qed

definition AckFrame_ascii :: "AckFrame \<Rightarrow> bool" where
  "AckFrame_ascii a \<longleftrightarrow> ascii (ack_Type a) \<and> ascii (ack_ServerNonce a) \<and> ascii (ack_Mac a)"

lemma AckFrame_roundtrip [codec_simps]:
  assumes "AckFrame_ascii a"
  shows "AckFrame_unmarshal (AckFrame_marshal a) = Inr a"
proof -
  have "obj_members (AckFrame_marshal a) = Inr (AckFrame_members a)"
    unfolding AckFrame_marshal_def
    by (rule obj_members_marshal)
      (use assms in \<open>simp_all add: AckFrame_members_def AckFrame_ascii_def max_depth_def\<close>)
  then show ?thesis
    by (simp add: AckFrame_unmarshal_def) (simp add: AckFrame_members_def field_eval)
qed

definition DataFrame_ascii :: "DataFrame \<Rightarrow> bool" where
  "DataFrame_ascii a \<longleftrightarrow> ascii (data_Type a) \<and> ascii (data_Ciphertext a)"

lemma DataFrame_roundtrip [codec_simps]:
  assumes "DataFrame_ascii a"
  shows "DataFrame_unmarshal (DataFrame_marshal a) = Inr a"
proof -
  have "obj_members (DataFrame_marshal a)
      = Inr [(''type'', JStr (data_Type a)), (''ciphertext'', JStr (data_Ciphertext a))]"
    unfolding DataFrame_marshal_def
    by (rule obj_members_marshal) (use assms in \<open>simp_all add: DataFrame_ascii_def max_depth_def\<close>)
  then show ?thesis
    by (simp add: DataFrame_unmarshal_def field_eval)
qed

definition ChallengeFrame_ascii :: "ChallengeFrame \<Rightarrow> bool" where
  "ChallengeFrame_ascii c \<longleftrightarrow> ascii (ch_Type c) \<and> ascii (ch_ProtoVersion c) \<and> ascii (ch_ServerNonce c)
     \<and> ascii (Ticket c)"

lemma ChallengeFrame_roundtrip [codec_simps]:
  assumes "ChallengeFrame_ascii c"
  shows "ChallengeFrame_unmarshal (ChallengeFrame_marshal c) = Inr c"
proof -
  have "obj_members (ChallengeFrame_marshal c) = Inr (ChallengeFrame_members c)"
    unfolding ChallengeFrame_marshal_def
    by (rule obj_members_marshal)
      (use assms in \<open>simp_all add: ChallengeFrame_members_def ChallengeFrame_ascii_def max_depth_def\<close>)
  then show ?thesis
    by (simp add: ChallengeFrame_unmarshal_def) (simp add: ChallengeFrame_members_def field_eval)
qed

definition AuthFrame_ascii :: "AuthFrame \<Rightarrow> bool" where
  "AuthFrame_ascii a \<longleftrightarrow> ascii (auth_Type a) \<and> ascii (auth_ProtoVersion a) \<and> ascii (Proof a)"

lemma AuthFrame_roundtrip [codec_simps]:
  assumes "AuthFrame_ascii a"
  shows "AuthFrame_unmarshal (AuthFrame_marshal a) = Inr a"
proof -
  have "obj_members (AuthFrame_marshal a) = Inr [(''type'', JStr (auth_Type a)),
     (''proto_version'', JStr (auth_ProtoVersion a)), (''proof'', JStr (Proof a))]"
    unfolding AuthFrame_marshal_def
    by (rule obj_members_marshal) (use assms in \<open>simp_all add: AuthFrame_ascii_def max_depth_def\<close>)
  then show ?thesis
    by (simp add: AuthFrame_unmarshal_def field_eval)
qed

definition ReadyFrame_ascii :: "ReadyFrame \<Rightarrow> bool" where
  "ReadyFrame_ascii r \<longleftrightarrow> ascii (ready_Type r) \<and> ascii (ready_ProtoVersion r)
     \<and> ascii (ready_SessionID r) \<and> ascii (ready_Mac r)"

lemma ReadyFrame_roundtrip [codec_simps]:
  assumes "ReadyFrame_ascii r"
  shows "ReadyFrame_unmarshal (ReadyFrame_marshal r) = Inr r"
proof -
  have "obj_members (ReadyFrame_marshal r) = Inr (ReadyFrame_members r)"
    unfolding ReadyFrame_marshal_def
    by (rule obj_members_marshal)
      (use assms in \<open>simp_all add: ReadyFrame_members_def ReadyFrame_ascii_def max_depth_def\<close>)
  then show ?thesis
    by (simp add: ReadyFrame_unmarshal_def)
      (simp add: ReadyFrame_members_def field_eval)
qed

subsection \<open>Acceptance of honest messages\<close>

lemma ascii_BuildHelloAuth [simp]: "ascii (BuildHelloAuth p c n t)"
  by (simp add: BuildHelloAuth_def)

lemma NewHello_Inr:
  assumes "NewHello d now pk psk pv = Inr (h, nonce)"
  shows "length nonce = 16" "ClientNonce h = StdEncodeToString nonce" "hello_Type h = TypeHello"
    "ClientPublicKey h = pk" "Timestamp h = now" "AuthTag h = BuildHelloAuth psk pk nonce now"
    "hello_ProtoVersion h = (if pv = [] then ''v1'' else pv)"
  using assms by (auto simp: NewHello_def dest: read_full_length split: sum.splits)

lemma ParseHello_NewHello:
  assumes "NewHello d now pk psk pv = Inr (h, nonce)"
    and "ascii pk" "pk \<noteq> []" "ascii pv" "in_int64 now"
  shows "ParseHello (HelloJSON h) = Inr (h, nonce)" and "VerifyHelloAuth psk h nonce"
proof -
  note n = NewHello_Inr [OF assms(1)]
  have "HelloFrame_ok h" using n assms(2-) by (simp add: HelloFrame_ok_def)
  moreover have "nonce \<noteq> []" using n(1) by auto
  ultimately show "ParseHello (HelloJSON h) = Inr (h, nonce)"
    using n assms(3) by (simp add: ParseHello_def HelloFrame_roundtrip)
  show "VerifyHelloAuth psk h nonce" using n by (simp add: VerifyHelloAuth_def)
qed

lemma VerifyAck_BuildAck: "length n = 16 \<Longrightarrow> VerifyAck k (BuildAck k n) = Inr ()"
  by (simp add: VerifyAck_def BuildAck_def)

lemma VerifyAck_iff:
  "VerifyAck k a = Inr () \<longleftrightarrow> ack_Type a = TypeAck \<and>
     (\<exists>n. StdDecodeString (ack_ServerNonce a) = Inr n \<and> length n = 16 \<and>
       ack_Mac a = StdEncodeToString (hmac k (bytes_of_str ''ack-v1'' @ n)))"
  by (auto simp: VerifyAck_def BuildAck_def split: sum.splits)

lemma AckFrame_ascii_BuildAck [simp]: "AckFrame_ascii (BuildAck k n)"
  by (simp add: AckFrame_ascii_def BuildAck_def)

lemma ChallengeFrame_ascii_Build [simp]: "ChallengeFrame_ascii (BuildChallenge k n)"
  by (simp add: ChallengeFrame_ascii_def BuildChallenge_def)

lemma ParseChallenge_BuildChallenge [codec_simps]: "length n = 16 \<Longrightarrow>
    ParseChallenge (ChallengeFrame_marshal (BuildChallenge k n)) = Inr (BuildChallenge k n, n)"
  by (simp add: ParseChallenge_def ChallengeFrame_roundtrip)
    (simp add: BuildChallenge_def)

lemma length_BuildAuthProof [simp]: "length (BuildAuthProof k t) = 44"
  by (simp add: BuildAuthProof_def length_StdEncode)

lemma VerifyAuthProof_Build [simp]: "VerifyAuthProof k t (BuildAuthProof k t)"
  by (simp add: VerifyAuthProof_def)

lemma ascii_BuildAuthProof [simp]: "ascii (BuildAuthProof k t)"
  by (simp add: BuildAuthProof_def)

lemma length_ready_mac [simp]: "length (ready_mac k s) = 32"
  by (simp add: ready_mac_def)

lemma VerifyReady_BuildReady [codec_simps]:
  "VerifyReady k (BuildReady k sid) = (True, sid, StdEncodeToString (ready_mac k sid))"
  by (simp add: VerifyReady_def BuildReady_def Let_def)

lemma VerifyReady_accepts:
  assumes "VerifyReady k r = (True, sid, m)"
  shows "ready_Type r = TypeReady" "ready_ProtoVersion r = ''v2''" "sid = ready_SessionID r"
    "StdDecodeString (ready_Mac r) = Inr (ready_mac k sid)"
  using assms by (auto simp: VerifyReady_def Let_def split: if_splits sum.splits)

lemma ReadyFrame_ascii_Build [simp]: "ascii sid \<Longrightarrow> ReadyFrame_ascii (BuildReady k sid)"
  by (simp add: ReadyFrame_ascii_def BuildReady_def)

subsection \<open>Timestamps\<close>

lemma ValidateTimestamp_exact:
  assumes "in_int64 (now - ts)" "now - ts \<noteq> - (2 ^ 63)"
  shows "ValidateTimestamp now ts skew \<longleftrightarrow> \<bar>now - ts\<bar> \<le> skew"
proof -
  have "in_int64 (- (now - ts))" using assms by (auto simp: in_int64_def)
  then show ?thesis using assms(1) by (auto simp: ValidateTimestamp_def Let_def)
qed

text \<open>
  The one exception: at the distance \<open>2 ^ 63\<close> the negation overflows and the timestamp is
  accepted, for every non-negative skew.
\<close>

lemma ValidateTimestamp_overflow:
  assumes "in_int64 now" "0 \<le> now" "0 \<le> skew"
  shows "in_int64 (now - 2 ^ 63)" "ValidateTimestamp now (now - 2 ^ 63) skew"
proof -
  show "in_int64 (now - 2 ^ 63)" using assms by (simp add: in_int64_def)
  have "wrap64 (2 ^ 63) = - (2 ^ 63)" by (simp add: wrap64_def)
  then show "ValidateTimestamp now (now - 2 ^ 63) skew"
    using assms by (simp add: ValidateTimestamp_def Let_def)
qed

end
