(* ===== verification/Wire.thy ===== *)
theory Wire
  imports Prelude
begin

text \<open>
  Framing: \<open>proto/packet.go\<close> (the 12-byte header), \<open>transport/tcp\<close> (length-prefixed frames),
  the reader of \<open>winclient/frame_io.go\<close> and the receive buffers of \<open>transport/udp\<close>. A TCP
  connection's input is the byte sequence still to be read; a read that needs more than there
  is consumes what is left and fails with the error the connection then reports (\<open>fin\<close>: end of
  file or an expired deadline). Shown: headers and frames survive the trip, a connection's
  handler sees exactly the frames written to it, and what the buffering client loses.
\<close>

subsection \<open>proto/packet.go\<close>

definition Version1 :: byte where
  "Version1 = 1"

definition HeaderSize :: nat where
  "HeaderSize = 12"

record Header =
  Version :: byte
  FrameType :: byte
  SessionID :: "32 word"
  StreamID :: "32 word"
  Payload :: "16 word"

definition EncodeHeader :: "Header \<Rightarrow> bytes result" where
  "EncodeHeader h =
     (if Payload h = 0 then Inl (EMsg ''payload size must be > 0'')
      else Inr ([Version h, FrameType h] @ be32 (SessionID h) @ be32 (StreamID h) @ be16 (Payload h)))"

definition DecodeHeader :: "bytes \<Rightarrow> Header result" where
  "DecodeHeader b =
     (if length b < HeaderSize then Inl (EMsg ''short header'')
      else let h = \<lparr>Version = b ! 0, FrameType = b ! 1,
                    SessionID = un_be32 (b ! 2) (b ! 3) (b ! 4) (b ! 5),
                    StreamID = un_be32 (b ! 6) (b ! 7) (b ! 8) (b ! 9),
                    Payload = un_be16 (b ! 10) (b ! 11)\<rparr>
      in if Version h \<noteq> Version1 then Inl (EMsg ''unsupported version'')
         else if Payload h = 0 then Inl (EMsg ''empty payload'')
         else Inr h)"

lemma EncodeHeader_length [len_simps]: "EncodeHeader h = Inr b \<Longrightarrow> length b = HeaderSize"
  by (auto simp: EncodeHeader_def HeaderSize_def split: if_splits)

lemma DecodeHeader_EncodeHeader [codec_simps]:
  assumes "EncodeHeader h = Inr b" "Version h = Version1"
  shows "DecodeHeader (b @ rest) = Inr h"
proof -
  have b: "b = Version h # FrameType h # be32 (SessionID h) @ be32 (StreamID h) @ be16 (Payload h)" "Payload h \<noteq> 0"
    using assms(1) by (auto simp: EncodeHeader_def split: if_splits)
  have d: "DecodeHeader ([v, f, s0, s1, s2, s3, t0, t1, t2, t3, p0, p1] @ rest) =
      (let h = \<lparr>Version = v, FrameType = f, SessionID = un_be32 s0 s1 s2 s3, StreamID = un_be32 t0 t1 t2 t3,
                 Payload = un_be16 p0 p1\<rparr>
       in if Version h \<noteq> Version1 then Inl (EMsg ''unsupported version'')
          else if Payload h = 0 then Inl (EMsg ''empty payload'') else Inr h)"
    for v f s0 s1 s2 s3 t0 t1 t2 t3 p0 p1
    by (simp add: DecodeHeader_def HeaderSize_def)
  have "b @ rest = [Version h, FrameType h, ucast (drop_bit 24 (SessionID h)), ucast (drop_bit 16 (SessionID h)),
      ucast (drop_bit 8 (SessionID h)), ucast (SessionID h), ucast (drop_bit 24 (StreamID h)),
      ucast (drop_bit 16 (StreamID h)), ucast (drop_bit 8 (StreamID h)), ucast (StreamID h),
      ucast (drop_bit 8 (Payload h)), ucast (Payload h)] @ rest"
    by (simp add: b(1) be16_def be32_def)
  then show ?thesis using b(2) assms(2) by (simp only: d) simp
qed

lemma bit_byte_high: "8 \<le> k \<Longrightarrow> \<not> bit (b :: byte) (k + n)"
  by (auto dest: bit_imp_le_length)

lemma bytes_of_un_be32:
  "be32 (un_be32 a b c d) = [a, b, c, d]"
  by (auto simp: be32_def un_be32_def
      intro!: bit_word_eqI simp: bit_or_iff bit_push_bit_iff bit_ucast_iff bit_drop_bit_eq bit_byte_high)

lemma bytes_of_un_be16: "be16 (un_be16 a b) = [a, b]"
  by (auto simp: be16_def un_be16_def
      intro!: bit_word_eqI simp: bit_or_iff bit_push_bit_iff bit_ucast_iff bit_drop_bit_eq bit_byte_high)

lemma EncodeHeader_DecodeHeader:
  assumes "DecodeHeader b = Inr h"
  shows "EncodeHeader h = Inr (take HeaderSize b)"
proof -
  have len: "12 \<le> length b" and h: "h = \<lparr>Version = b ! 0, FrameType = b ! 1,
                    SessionID = un_be32 (b ! 2) (b ! 3) (b ! 4) (b ! 5),
                    StreamID = un_be32 (b ! 6) (b ! 7) (b ! 8) (b ! 9),
                    Payload = un_be16 (b ! 10) (b ! 11)\<rparr>" and "Payload h \<noteq> 0"
    using assms by (auto simp: DecodeHeader_def HeaderSize_def Let_def split: if_splits)
  have "take 12 b = map ((!) b) [0..<12]"
    using len by (intro nth_equalityI) simp_all
  also have "\<dots> = [b ! 0, b ! 1, b ! 2, b ! 3, b ! 4, b ! 5, b ! 6, b ! 7, b ! 8, b ! 9, b ! 10, b ! 11]"
    by (simp add: upt_conv_Cons numeral_eq_Suc)
  finally show ?thesis
    using \<open>Payload h \<noteq> 0\<close> by (simp add: EncodeHeader_def h bytes_of_un_be32 bytes_of_un_be16 HeaderSize_def)
qed

subsection \<open>transport/tcp: frames\<close>

definition WriteFrame :: "bytes \<Rightarrow> bytes result" where
  "WriteFrame payload =
     (if length payload > 65535 then Inl (EMsg ''frame too large'')
      else Inr (be16 (word_of_nat (length payload)) @ payload))"

definition read_exact :: "go_error \<Rightarrow> nat \<Rightarrow> bytes \<Rightarrow> bytes result \<times> bytes" where
  "read_exact fin n s = (if length s < n then (Inl fin, []) else (Inr (take n s), drop n s))"

definition readFrame :: "go_error \<Rightarrow> bytes \<Rightarrow> bytes result \<times> bytes" where
  "readFrame fin s =
     (case read_exact fin 2 s of
        (Inl e, s') \<Rightarrow> (Inl e, s')
      | (Inr hdr, s') \<Rightarrow>
          (let size = unat (un_be16 (hdr ! 0) (hdr ! 1)) in
           if size = 0 then (Inl (EMsg ''empty frame''), s')
           else read_exact fin size s'))"

text \<open>The connection loop of \<open>Serve\<close>: the handler gets every frame up to the first error.\<close>

lemma readFrame_shorter: "readFrame fin s = (Inr p, s') \<Longrightarrow> length s' < length s"
  by (auto simp: readFrame_def read_exact_def Let_def split: if_splits)

function serve_frames :: "go_error \<Rightarrow> bytes \<Rightarrow> bytes list" where
  "serve_frames fin s = (case readFrame fin s of
     (Inl e, s') \<Rightarrow> []
   | (Inr payload, s') \<Rightarrow> payload # serve_frames fin s')"
  by pat_completeness auto
termination
  by (relation "measure (\<lambda>(fin, s). length s)") (auto dest: readFrame_shorter [OF sym])

declare serve_frames.simps [simp del]

lemma un_be16_length [simp]:
  "n \<le> 65535 \<Longrightarrow> unat (un_be16 (be16 (word_of_nat n) ! 0) (be16 (word_of_nat n) ! Suc 0)) = n"
  by (simp add: be16_def unat_of_nat)

lemma readFrame_WriteFrame [codec_simps]:
  assumes "WriteFrame p = Inr w" "p \<noteq> []"
  shows "readFrame fin (w @ rest) = (Inr p, rest)"
proof -
  have l: "length p \<le> 65535" and w: "w = be16 (word_of_nat (length p)) @ p"
    using assms(1) by (auto simp: WriteFrame_def split: if_splits)
  have "readFrame fin (be16 (word_of_nat (length p)) @ p @ rest) = (Inr p, rest)"
    using l assms(2) by (simp add: readFrame_def read_exact_def Let_def nth_append)
  then show ?thesis by (simp add: w)
qed

text \<open>
  The framing as an interface: what a writer puts on a stream a reader takes off it, and nothing
  more. Frames are then self-delimiting.
\<close>

locale framing =
  fixes put :: "'m \<Rightarrow> bytes result"
    and take_off :: "bytes \<Rightarrow> 'm result \<times> bytes"
    and ok :: "'m \<Rightarrow> bool"
  assumes put_ok: "ok m \<Longrightarrow> \<exists>w. put m = Inr w"
    and take_off_put: "ok m \<Longrightarrow> put m = Inr w \<Longrightarrow> take_off (w @ rest) = (Inr m, rest)"
begin

lemma unambiguous:
  assumes "ok m" "ok m'" "put m = Inr w" "put m' = Inr w'" "w @ rest = w' @ rest'"
  shows "m = m'" "rest = rest'"
  using take_off_put [OF assms(1,3), of rest] take_off_put [OF assms(2,4), of rest'] assms(5) by simp_all

lemma put_inject: "ok m \<Longrightarrow> ok m' \<Longrightarrow> put m = Inr w \<Longrightarrow> put m' = Inr w \<Longrightarrow> m = m'"
  using unambiguous(1) by blast

end

lemma readFrame_empty: "WriteFrame [] = Inr w \<Longrightarrow> readFrame fin (w @ rest) = (Inl (EMsg ''empty frame''), rest)"
  by (auto simp: WriteFrame_def readFrame_def read_exact_def be16_def un_be16_def Let_def)

definition frame_ok :: "bytes \<Rightarrow> bool" where
  "frame_ok p \<longleftrightarrow> p \<noteq> [] \<and> length p \<le> 65535"

definition frame_bytes :: "bytes \<Rightarrow> bytes" where
  "frame_bytes p = be16 (word_of_nat (length p)) @ p"

lemma WriteFrame_frame_bytes: "frame_ok p \<Longrightarrow> WriteFrame p = Inr (frame_bytes p)"
  by (simp add: WriteFrame_def frame_bytes_def frame_ok_def)

interpretation frame: framing WriteFrame "readFrame fin" frame_ok for fin
  by unfold_locales (auto simp: WriteFrame_frame_bytes frame_ok_def readFrame_WriteFrame)


lemma serve_frames_frames:
  "list_all frame_ok ps \<Longrightarrow> serve_frames fin (concat (map frame_bytes ps) @ rest)
     = ps @ serve_frames fin rest"
proof (induction ps)
  case (Cons p ps)
  then have "readFrame fin (frame_bytes p @ concat (map frame_bytes ps) @ rest)
      = (Inr p, concat (map frame_bytes ps) @ rest)"
    by (intro readFrame_WriteFrame) (simp_all add: WriteFrame_frame_bytes frame_ok_def)
  with Cons show ?case by (subst serve_frames.simps) simp
qed simp

lemma serve_frames_short: "length rest < 2 \<Longrightarrow> serve_frames fin rest = []"
  by (subst serve_frames.simps) (simp add: readFrame_def read_exact_def)

lemma serve_frames_ok: "list_all frame_ok (serve_frames fin s)"
proof (induction fin s rule: serve_frames.induct)
  case (1 fin s)
  show ?case
  proof (cases "readFrame fin s")
    case (Pair r s')
    show ?thesis
    proof (cases r)
      case (Inl e)
      with Pair show ?thesis by (subst serve_frames.simps) simp
    next
      case (Inr p)
      have "frame_ok p"
      proof -
        have "unat (w :: 16 word) \<le> 65535" for w
          using unsigned_less [of w, where ?'a = nat] by simp
        then show ?thesis using Pair Inr
          by (auto simp: readFrame_def read_exact_def Let_def frame_ok_def split: if_splits)
      qed
      with 1 [OF Pair [symmetric] Inr] Pair Inr show ?thesis by (subst serve_frames.simps) simp
    qed
  qed
qed

text \<open>The loop ends after at most a third as many frames as there are bytes.\<close>

lemma serve_frames_bound: "3 * length (serve_frames fin s) \<le> length s"
proof (induction fin s rule: serve_frames.induct)
  case (1 fin s)
  obtain r s' where f: "readFrame fin s = (r, s')" by (metis prod.exhaust)
  show ?case
  proof (cases r)
    case (Inl e)
    with f show ?thesis by (subst serve_frames.simps) simp
  next
    case (Inr p)
    have "length s = 2 + length p + length s'" "p \<noteq> []"
      using f Inr by (auto simp: readFrame_def read_exact_def Let_def split: if_splits)
    moreover have "1 \<le> length p" using \<open>p \<noteq> []\<close> by (cases p) auto
    ultimately show ?thesis
      using 1 [OF f [symmetric] Inr] f Inr by (subst serve_frames.simps) simp
  qed
qed

subsection \<open>transport/tcp: the buffering client\<close>

text \<open>
  \<open>Client.Receive\<close> reads through a fresh \<open>bufio.Reader\<close> on every call. The connection is the
  list of chunks the network delivers; one \<open>Read\<close> of the connection returns (the start of) one
  chunk. A request of at least the buffer size with an empty buffer bypasses the buffer.
\<close>

definition bufio_size :: nat where
  "bufio_size = 4096"

function bufio_read_full ::
  "go_error \<Rightarrow> nat \<Rightarrow> bytes \<Rightarrow> bytes list \<Rightarrow> (bytes result \<times> bytes) \<times> bytes list" where
  "bufio_read_full fin n buf conn =
     (if n = 0 then ((Inr [], buf), conn)
      else if buf \<noteq> [] then
        (let k = min n (length buf) in
         case bufio_read_full fin (n - k) (drop k buf) conn of
           ((Inr bs, buf'), conn') \<Rightarrow> ((Inr (take k buf @ bs), buf'), conn')
         | ((Inl e, buf'), conn') \<Rightarrow> ((Inl e, buf'), conn'))
      else case conn of
        [] \<Rightarrow> ((Inl fin, []), [])
      | c # cs \<Rightarrow>
          (if c = [] then bufio_read_full fin n [] cs
           else if n \<ge> bufio_size then
             (let k = min n (length c) in
              case bufio_read_full fin (n - k) [] (if k < length c then drop k c # cs else cs) of
                ((Inr bs, buf'), conn') \<Rightarrow> ((Inr (take k c @ bs), buf'), conn')
              | ((Inl e, buf'), conn') \<Rightarrow> ((Inl e, buf'), conn'))
           else bufio_read_full fin n (take bufio_size c)
                  (if bufio_size < length c then drop bufio_size c # cs else cs)))"
  by pat_completeness auto
termination
  by (relation "measure (\<lambda>(fin, n, buf, conn). 2 * n + (if buf = [] then 1 else 0) + length conn)")
    (auto simp: bufio_size_def min_def neq_Nil_conv split: if_splits)

declare bufio_read_full.simps [simp del]

definition bufio_readFrame :: "go_error \<Rightarrow> bytes \<Rightarrow> bytes list \<Rightarrow> (bytes result \<times> bytes) \<times> bytes list" where
  "bufio_readFrame fin buf conn =
     (case bufio_read_full fin 2 buf conn of
        ((Inl e, buf), conn') \<Rightarrow> ((Inl e, buf), conn')
      | ((Inr hdr, buf), conn') \<Rightarrow>
          (let size = unat (un_be16 (hdr ! 0) (hdr ! 1)) in
           if size = 0 then ((Inl (EMsg ''empty frame''), buf), conn')
           else bufio_read_full fin size buf conn'))"

text \<open>What stays in the buffer is gone when \<open>Receive\<close> returns.\<close>

definition Client_Receive :: "go_error \<Rightarrow> bytes list \<Rightarrow> bytes result \<times> bytes list" where
  "Client_Receive fin conn =
     (case bufio_readFrame fin [] conn of ((r, buf), conn') \<Rightarrow> (r, conn'))"

definition Client_Send :: "bytes \<Rightarrow> bytes result" where
  "Client_Send payload = WriteFrame payload"

subsection \<open>The buffering reader against the plain one\<close>

text \<open>
  Whatever the chunks are, a read through the buffer gets the bytes a plain read of the whole
  stream gets, and what it leaves, buffer first, is what the plain read leaves.
\<close>

definition read_as :: "go_error \<Rightarrow> nat \<Rightarrow> bytes \<Rightarrow> (bytes result \<times> bytes) \<times> bytes list \<Rightarrow> bool" where
  "read_as fin n s x \<longleftrightarrow> (case x of ((r, buf), conn) \<Rightarrow>
     if length s < n then r = Inl fin else r = Inr (take n s) \<and> buf @ concat conn = drop n s)"

text \<open>Taking the first \<open>k\<close> bytes and reading on is one read.\<close>

lemma read_as_step:
  assumes "read_as fin (n - k) s' ((r, buf), conn)" "k \<le> n" "s = pre @ s'" "length pre = k"
  shows "read_as fin n s (case r of Inr bs \<Rightarrow> ((Inr (pre @ bs), buf), conn) | Inl e \<Rightarrow> ((Inl e, buf), conn))"
  using assms by (auto simp: read_as_def split: if_splits)

lemma bufio_read_full_spec: "read_as fin n (buf @ concat conn) (bufio_read_full fin n buf conn)"
proof (induction fin n buf conn rule: bufio_read_full.induct)
  case (1 fin n buf conn)
  show ?case
  proof (cases "n = 0")
    case True
    then show ?thesis by (subst bufio_read_full.simps) (simp add: read_as_def)
  next
    case n: False
    show ?thesis
    proof (cases "buf = []")
      case False
      define k where "k = min n (length buf)"
      obtain r b' c' where r: "bufio_read_full fin (n - k) (drop k buf) conn = ((r, b'), c')" by (metis prod.exhaust)
      have ih: "read_as fin (n - k) (drop k buf @ concat conn) ((r, b'), c')"
        using 1(1) [OF n False k_def] by (simp add: r)
      have "read_as fin n (buf @ concat conn)
          (case r of Inr bs \<Rightarrow> ((Inr (take k buf @ bs), b'), c') | Inl e \<Rightarrow> ((Inl e, b'), c'))"
        by (rule read_as_step [OF ih]) (simp_all add: k_def)
      then show ?thesis
        using n False r by (subst bufio_read_full.simps) (simp add: k_def [symmetric] Let_def split: sum.splits)
    next
      case buf: True
      show ?thesis
      proof (cases conn)
        case Nil
        then show ?thesis using n buf by (subst bufio_read_full.simps) (simp add: read_as_def)
      next
        case (Cons c cs)
        consider "c = []" | "c \<noteq> []" "bufio_size \<le> n" | "c \<noteq> []" "\<not> bufio_size \<le> n" by blast
        then show ?thesis
        proof cases
          case c: 1
          have "read_as fin n (concat cs) (bufio_read_full fin n [] cs)"
            using 1(2) [OF n _ Cons c] buf by simp
          then show ?thesis using n buf Cons c by (subst bufio_read_full.simps) simp
        next
          case 2
          define k where "k = min n (length c)"
          define rest where "rest = (if k < length c then drop k c # cs else cs)"
          obtain r b' c' where r: "bufio_read_full fin (n - k) [] rest = ((r, b'), c')" by (metis prod.exhaust)
          have ih: "read_as fin (n - k) (concat rest) ((r, b'), c')"
            using 1(3) [OF n _ Cons 2 k_def] buf by (simp add: rest_def [symmetric] r)
          have "c @ concat cs = take k c @ concat rest" by (simp add: rest_def)
          then have "read_as fin n (c @ concat cs)
              (case r of Inr bs \<Rightarrow> ((Inr (take k c @ bs), b'), c') | Inl e \<Rightarrow> ((Inl e, b'), c'))"
            by (intro read_as_step [OF ih]) (simp_all add: k_def)
          then show ?thesis
            using n buf Cons 2 r [unfolded rest_def] by (subst bufio_read_full.simps)
              (simp add: k_def [symmetric] Let_def split: sum.splits)
        next
          case 3
          define rest where "rest = (if bufio_size < length c then drop bufio_size c # cs else cs)"
          have "c @ concat cs = take bufio_size c @ concat rest" by (simp add: rest_def)
          moreover have "read_as fin n (take bufio_size c @ concat rest) (bufio_read_full fin n (take bufio_size c) rest)"
            using 1(4) [OF n _ Cons 3] buf by (simp add: rest_def)
          ultimately show ?thesis
            using n buf Cons 3 by (subst bufio_read_full.simps) (simp add: rest_def [symmetric])
        qed
      qed
    qed
  qed
qed


text \<open>
  So a frame read through the buffer is the frame, or the error, that the plain reader finds in
  the stream, and after a frame the buffer and the connection hold what the plain reader leaves.
\<close>

lemma bufio_readFrame_spec:
  assumes "bufio_readFrame fin buf conn = ((r, buf'), conn')"
  shows "r = fst (readFrame fin (buf @ concat conn))"
    and "is_ok r \<Longrightarrow> buf' @ concat conn' = snd (readFrame fin (buf @ concat conn))"
proof -
  let ?s = "buf @ concat conn"
  obtain q b1 c1 where h: "bufio_read_full fin 2 buf conn = ((q, b1), c1)" by (metis prod.exhaust)
  have hdr: "read_as fin 2 ?s ((q, b1), c1)" using bufio_read_full_spec [of fin 2 buf conn] h by simp
  have "r = fst (readFrame fin ?s) \<and> (is_ok r \<longrightarrow> buf' @ concat conn' = snd (readFrame fin ?s))"
  proof (cases "length ?s < 2")
    case True
    then show ?thesis using hdr h assms
      by (auto simp: read_as_def bufio_readFrame_def readFrame_def read_exact_def is_ok_def)
  next
    case False
    then have q: "q = Inr (take 2 ?s)" and rest: "b1 @ concat c1 = drop 2 ?s"
      using hdr by (auto simp: read_as_def simp del: take_append drop_append)
    define size where "size = unat (un_be16 (take 2 ?s ! 0) (take 2 ?s ! 1))"
    have "readFrame fin ?s = (if size = 0 then (Inl (EMsg ''empty frame''), drop 2 ?s) else read_exact fin size (drop 2 ?s))"
      using False by (simp add: readFrame_def read_exact_def [of fin 2] size_def Let_def del: take_append drop_append)
    moreover have "bufio_readFrame fin buf conn
        = (if size = 0 then ((Inl (EMsg ''empty frame''), b1), c1) else bufio_read_full fin size b1 c1)"
      by (simp add: bufio_readFrame_def h q size_def Let_def del: take_append drop_append)
    moreover have "read_as fin size (drop 2 ?s) (bufio_read_full fin size b1 c1)"
      using bufio_read_full_spec [of fin size b1 c1] unfolding rest .
    ultimately show ?thesis
      using assms by (auto simp: read_as_def read_exact_def is_ok_def split: if_splits simp del: take_append drop_append)
  qed
  then show "r = fst (readFrame fin ?s)" "is_ok r \<Longrightarrow> buf' @ concat conn' = snd (readFrame fin ?s)" by auto
qed

lemma Client_Receive_readFrame: "fst (Client_Receive fin conn) = fst (readFrame fin (concat conn))"
proof -
  obtain r buf conn' where "bufio_readFrame fin [] conn = ((r, buf), conn')" by (metis prod.exhaust)
  then show ?thesis using bufio_readFrame_spec(1) [of fin "[]" conn r buf conn'] by (simp add: Client_Receive_def)
qed

subsection \<open>winclient/frame\_io.go\<close>

text \<open>
  Reads straight from the connection, so it takes no more bytes than the frame has. \<open>fin\<close> is the
  error once the bytes that arrive before the deadline are used up.
\<close>

definition readFrameWithTimeout :: "go_error \<Rightarrow> bytes \<Rightarrow> bytes result \<times> bytes" where
  "readFrameWithTimeout fin s =
     (case read_exact fin 2 s of
        (Inl e, s') \<Rightarrow> (Inl e, s')
      | (Inr hdr, s') \<Rightarrow>
          (let size = unat (un_be16 (hdr ! 0) (hdr ! 1)) in
           if size = 0 then (Inl (EMsg ''empty frame''), s')
           else read_exact fin size s'))"

lemma readFrameWithTimeout_readFrame: "readFrameWithTimeout = readFrame"
  by (simp add: readFrameWithTimeout_def readFrame_def fun_eq_iff)

subsection \<open>transport/udp\<close>

definition udp_buffer :: nat where
  "udp_buffer = 2048"

text \<open>\<open>ReadFromUDP\<close> and \<open>Read\<close> keep the part of a datagram that fits the buffer.\<close>

definition udp_receive :: "bytes \<Rightarrow> bytes" where
  "udp_receive datagram = take udp_buffer datagram"

end
