(* ===== verification/Policy.thy ===== *)
theory Policy
  imports Prelude
begin

text \<open>
  \<open>policy/policy.go\<close>, the engine that chooses between UDP and TCP, and \<open>obfs/obfs.go\<close>.
  Times and durations are nanoseconds. A method that reads the clock twice takes both readings
  (\<open>t\<close> for the comparison, \<open>t'\<close> for the new switch time). Shown: the engine's invariant, that
  its profile is a function of the other fields after every \<open>Observe\<close> (and not after
  \<open>ReportUDPHealthy\<close>), how far apart switches are, when each switch happens, and that a success
  between two faults keeps the engine on UDP for ever.
\<close>

subsection \<open>The engine\<close>

type_synonym Mode = string

definition ModeUDP :: Mode where
  "ModeUDP = ''udp''"

definition ModeTCP :: Mode where
  "ModeTCP = ''tcp''"

record Engine =
  current :: Mode
  failuresUDP :: int
  consecutiveFailures :: int
  lastSwitchAt :: int
  lastRTT :: int
  profile :: string

definition Millisecond :: int where
  "Millisecond = 1000000"

definition Second :: int where
  "Second = 1000000000"

definition NewEngine :: "int \<Rightarrow> Mode \<Rightarrow> Engine" where
  "NewEngine t defaultMode = \<lparr>current = defaultMode, failuresUDP = 0, consecutiveFailures = 0,
     lastSwitchAt = t, lastRTT = 0, profile = ''stealth''\<rparr>"

definition profile_of :: "Engine \<Rightarrow> string" where
  "profile_of e =
     (if consecutiveFailures e \<ge> 2 then ''recovery''
      else if lastRTT e > 0 \<and> lastRTT e < 120 * Millisecond \<and> current e = ModeUDP then ''aggressive''
      else ''stealth'')"

definition updateProfile :: "Engine \<Rightarrow> Engine" where
  "updateProfile e = e\<lparr>profile := profile_of e\<rparr>"

definition switch :: "Mode \<Rightarrow> int \<Rightarrow> Engine \<Rightarrow> Engine" where
  "switch m t e = e\<lparr>current := m, lastSwitchAt := t\<rparr>"

definition ReportUDPFault :: "int \<Rightarrow> int \<Rightarrow> Engine \<Rightarrow> Engine" where
  "ReportUDPFault t t' e =
     (let e = e\<lparr>failuresUDP := wrap64 (failuresUDP e + 1)\<rparr>;
          e = e\<lparr>consecutiveFailures := wrap64 (consecutiveFailures e + 1)\<rparr>;
          e = updateProfile e
      in if failuresUDP e \<ge> 3 \<and> t - lastSwitchAt e > 2 * Second then switch ModeTCP t' e else e)"

definition ReportUDPHealthy :: "int \<Rightarrow> int \<Rightarrow> Engine \<Rightarrow> Engine" where
  "ReportUDPHealthy t t' e =
     (let e = e\<lparr>failuresUDP := 0\<rparr>;
          e = e\<lparr>consecutiveFailures := 0\<rparr>;
          e = updateProfile e
      in if current e \<noteq> ModeUDP \<and> t - lastSwitchAt e > 10 * Second then switch ModeUDP t' e else e)"

definition Observe :: "int \<Rightarrow> int \<Rightarrow> bool \<Rightarrow> int \<Rightarrow> Engine \<Rightarrow> Engine" where
  "Observe t t' ok rtt e =
     updateProfile
       (if ok then
          (let e = e\<lparr>failuresUDP := 0\<rparr>;
               e = e\<lparr>consecutiveFailures := 0\<rparr>;
               e = (if rtt > 0 then e\<lparr>lastRTT := rtt\<rparr> else e)
           in if current e \<noteq> ModeUDP \<and> lastRTT e > 0 \<and> lastRTT e < 250 * Millisecond
                 \<and> t - lastSwitchAt e > 8 * Second
              then switch ModeUDP t' e else e)
        else
          (let e = e\<lparr>consecutiveFailures := wrap64 (consecutiveFailures e + 1)\<rparr>;
               e = e\<lparr>failuresUDP := wrap64 (failuresUDP e + 1)\<rparr>
           in if current e = ModeUDP \<and> (consecutiveFailures e \<ge> 2 \<or> failuresUDP e \<ge> 3)
                 \<and> t - lastSwitchAt e > 2 * Second
              then switch ModeTCP t' e else e))"

lemma modes_distinct [simp]: "ModeUDP \<noteq> ModeTCP" "ModeTCP \<noteq> ModeUDP"
  by (simp_all add: ModeUDP_def ModeTCP_def)

lemmas engine_defs = ReportUDPFault_def ReportUDPHealthy_def Observe_def updateProfile_def
  switch_def Let_def

subsection \<open>Runs\<close>

datatype engine_event = EvFault | EvHealthy | EvObserve bool int

fun engine_step :: "(int \<times> int \<times> engine_event) \<Rightarrow> Engine \<Rightarrow> Engine" where
  "engine_step (t, t', EvFault) e = ReportUDPFault t t' e"
| "engine_step (t, t', EvHealthy) e = ReportUDPHealthy t t' e"
| "engine_step (t, t', EvObserve ok rtt) e = Observe t t' ok rtt e"

definition engine_run :: "(int \<times> int \<times> engine_event) list \<Rightarrow> Engine \<Rightarrow> Engine" where
  "engine_run evs e = fold engine_step evs e"

lemma engine_run_simps [simp]: "engine_run [] e = e"
    "engine_run (x # xs) e = engine_run xs (engine_step x e)"
  by (simp_all add: engine_run_def)

text \<open>
  The mode is one of two, the two fault counters move together, and the profile is
  \<open>''recovery''\<close> exactly while at least two faults are outstanding.
\<close>

definition engine_inv :: "Engine \<Rightarrow> bool" where
  "engine_inv e \<longleftrightarrow> current e \<in> {ModeUDP, ModeTCP} \<and> failuresUDP e = consecutiveFailures e
     \<and> (profile e = ''recovery'' \<longleftrightarrow> consecutiveFailures e \<ge> 2)
     \<and> profile e \<in> {''recovery'', ''aggressive'', ''stealth''}
     \<and> (profile e = ''aggressive'' \<longrightarrow> lastRTT e > 0 \<and> lastRTT e < 120 * Millisecond \<and> current e = ModeUDP)"

lemma profile_of_cases:
  "profile_of e = ''recovery'' \<longleftrightarrow> consecutiveFailures e \<ge> 2"
  "profile_of e \<in> {''recovery'', ''aggressive'', ''stealth''}"
  "profile_of e = ''aggressive'' \<Longrightarrow> lastRTT e > 0 \<and> lastRTT e < 120 * Millisecond \<and> current e = ModeUDP"
  by (auto simp: profile_of_def split: if_splits)

lemma engine_inv_updateProfile: "current e \<in> {ModeUDP, ModeTCP} \<Longrightarrow>
    failuresUDP e = consecutiveFailures e \<Longrightarrow> engine_inv (updateProfile e)"
  using profile_of_cases [of e] by (simp add: engine_inv_def updateProfile_def)

lemma engine_inv_Observe: "engine_inv e \<Longrightarrow> engine_inv (Observe t t' ok rtt e)"
  unfolding Observe_def
  by (rule engine_inv_updateProfile) (auto simp: engine_inv_def switch_def Let_def)

lemma engine_inv_Fault: "engine_inv e \<Longrightarrow> engine_inv (ReportUDPFault t t' e)"
  by (auto simp: engine_inv_def engine_defs profile_of_def split: if_splits)

lemma engine_inv_Healthy: "engine_inv e \<Longrightarrow> engine_inv (ReportUDPHealthy t t' e)"
  by (auto simp: engine_inv_def engine_defs profile_of_def split: if_splits)

lemma engine_inv_run: "engine_inv e \<Longrightarrow> engine_inv (engine_run evs e)"
proof (induction evs arbitrary: e)
  case (Cons x xs)
  then have "engine_inv (engine_step x e)"
    by (cases "(x, e)" rule: engine_step.cases)
      (auto intro: engine_inv_Observe engine_inv_Fault engine_inv_Healthy)
  with Cons show ?case by simp
qed simp

lemma engine_inv_New: "m \<in> {ModeUDP, ModeTCP} \<Longrightarrow> engine_inv (NewEngine t m)"
  by (simp add: engine_inv_def NewEngine_def)

lemma Observe_profile: "profile (Observe t t' ok rtt e) = profile_of (Observe t t' ok rtt e)"
  by (simp add: Observe_def updateProfile_def profile_of_def)

subsection \<open>Switches\<close>

definition switched :: "(int \<times> int \<times> engine_event) \<Rightarrow> Engine \<Rightarrow> bool" where
  "switched ev e \<longleftrightarrow> current (engine_step ev e) \<noteq> current e"

text \<open>A step that switches does so after a pause, and stamps the switch.\<close>

lemma switched_pause:
  assumes "engine_inv e" "switched (t, t', ev) e"
  shows "t - lastSwitchAt e > 2 * Second" "lastSwitchAt (engine_step (t, t', ev) e) = t'"
  using assms
  by (cases ev; auto simp: switched_def engine_inv_def engine_defs Second_def split: if_splits)+

lemma not_switched_stamp:
  assumes "engine_inv e" "\<not> switched (t, t', ev) e"
  shows "lastSwitchAt (engine_step (t, t', ev) e) \<in> {lastSwitchAt e, t'}"
  by (cases ev) (auto simp: engine_defs)

text \<open>Only a fault report while already on TCP moves the stamp without a switch.\<close>

lemma Observe_stamp_iff:
  assumes "engine_inv e" "current (Observe t t' ok rtt e) = current e"
  shows "lastSwitchAt (Observe t t' ok rtt e) = lastSwitchAt e"
  using assms by (auto simp: engine_defs engine_inv_def split: if_splits)

fun switch_times :: "(int \<times> int \<times> engine_event) list \<Rightarrow> Engine \<Rightarrow> int list" where
  "switch_times [] e = []"
| "switch_times ((t, t', ev) # evs) e =
     (if switched (t, t', ev) e then [t'] else []) @ switch_times evs (engine_step (t, t', ev) e)"

text \<open>The clock does not go back: each event's readings follow the previous event's.\<close>

fun clock_ok :: "int \<Rightarrow> (int \<times> int \<times> engine_event) list \<Rightarrow> bool" where
  "clock_ok now [] = True"
| "clock_ok now ((t, t', ev) # evs) = (now \<le> t \<and> t \<le> t' \<and> clock_ok t' evs)"

fun spaced :: "int \<Rightarrow> int \<Rightarrow> int list \<Rightarrow> bool" where
  "spaced gap prev [] = True"
| "spaced gap prev (x # xs) = (prev + gap < x \<and> spaced gap x xs)"

lemma spaced_mono: "spaced gap b xs \<Longrightarrow> a \<le> b \<Longrightarrow> spaced gap a xs"
  by (cases xs) auto

lemma engine_inv_step: "engine_inv e \<Longrightarrow> engine_inv (engine_step ev e)"
  using engine_inv_run [of e "[ev]"] by simp

lemma switch_times_spaced:
  assumes "engine_inv e" "clock_ok now evs" "lastSwitchAt e \<le> now"
  shows "spaced (2 * Second) (lastSwitchAt e) (switch_times evs e)"
  using assms
proof (induction evs arbitrary: e now)
  case (Cons x xs)
  obtain t t' ev where x: "x = (t, t', ev)" by (cases x)
  let ?e = "engine_step (t, t', ev) e"
  have inv: "engine_inv ?e" using Cons by (simp add: engine_inv_step)
  show ?case
  proof (cases "switched (t, t', ev) e")
    case True
    note s = switched_pause [OF Cons.prems(1) True]
    have "spaced (2 * Second) (lastSwitchAt ?e) (switch_times xs ?e)"
      by (rule Cons.IH [OF inv, of t']) (use Cons.prems s x in simp_all)
    with s True x Cons.prems show ?thesis by simp
  next
    case False
    note s = not_switched_stamp [OF Cons.prems(1) False]
    have "spaced (2 * Second) (lastSwitchAt ?e) (switch_times xs ?e)"
      by (rule Cons.IH [OF inv, of t']) (use Cons.prems s x in auto)
    moreover have "lastSwitchAt e \<le> lastSwitchAt ?e" using s Cons.prems x by auto
    ultimately show ?thesis using False x by (simp add: spaced_mono)
  qed
qed simp

lemma two_faults_switch_to_TCP:
  assumes "engine_inv e" "current e = ModeUDP" "0 \<le> consecutiveFailures e"
    "consecutiveFailures e < 2 ^ 62" "lastSwitchAt e + 2 * Second < t" "t \<le> u"
  shows "current (Observe u u' False r' (Observe t t' False r e)) = ModeTCP"
proof -
  have "in_int64 (consecutiveFailures e + 1)" "in_int64 (consecutiveFailures e + 2)"
    using assms by (simp_all add: in_int64_def)
  then show ?thesis using assms by (auto simp: engine_inv_def engine_defs add.assoc)
qed

subsection \<open>A success between two faults\<close>

text \<open>
  When every fault is followed by a success, as in \<open>client.go\<close> where a request that fails over
  UDP is repeated over TCP and then reported as a success, the counters are reset each time
  and the engine stays on UDP.
\<close>

definition fault_then_success :: "(int \<times> int \<times> int \<times> int \<times> int) \<Rightarrow> (int \<times> int \<times> engine_event) list" where
  "fault_then_success x = (case x of (t, t', u, u', rtt) \<Rightarrow>
     [(t, t', EvObserve False 0), (u, u', EvObserve True rtt)])"

lemma fault_then_success_stays:
  assumes "current e = ModeUDP" "consecutiveFailures e = 0" "failuresUDP e = 0"
  shows "let e' = engine_run (fault_then_success x) e in
    current e' = ModeUDP \<and> consecutiveFailures e' = 0 \<and> failuresUDP e' = 0"
proof -
  have "wrap64 1 = 1" by (simp add: wrap64_def)
  then show ?thesis using assms by (cases x) (auto simp: fault_then_success_def engine_defs)
qed

lemma fault_then_success_for_ever:
  assumes "current e = ModeUDP" "consecutiveFailures e = 0" "failuresUDP e = 0"
  shows "current (engine_run (concat (map fault_then_success xs)) e) = ModeUDP"
  using assms
proof (induction xs arbitrary: e)
  case (Cons x xs)
  have "engine_run (concat (map fault_then_success (x # xs))) e
      = engine_run (concat (map fault_then_success xs)) (engine_run (fault_then_success x) e)"
    by (simp add: engine_run_def)
  with fault_then_success_stays [OF Cons.prems, of x] show ?case
    by (simp add: Cons.IH Let_def)
qed simp

subsection \<open>obfs.go\<close>

record ObfsConfig =
  Enabled :: bool
  MaxPadding :: int
  MaxJitterMS :: int

definition ApplyPadding :: "draw \<Rightarrow> ObfsConfig \<Rightarrow> bytes \<Rightarrow> bytes" where
  "ApplyPadding d cfg payload =
     (if \<not> Enabled cfg \<or> MaxPadding cfg \<le> 0 then payload
      else case rand_int d (nat (MaxPadding cfg + 1)) of
        Inl e \<Rightarrow> payload
      | Inr pad \<Rightarrow> payload @ replicate pad 0)"

text \<open>\<open>SleepJitter\<close> returns the time it sleeps, in milliseconds.\<close>

definition SleepJitter :: "draw \<Rightarrow> ObfsConfig \<Rightarrow> nat" where
  "SleepJitter d cfg =
     (if \<not> Enabled cfg \<or> MaxJitterMS cfg \<le> 0 then 0
      else case rand_int d (nat (MaxJitterMS cfg + 1)) of Inl e \<Rightarrow> 0 | Inr n \<Rightarrow> n)"

lemma ApplyPadding_prefix: "\<exists>k. ApplyPadding d cfg p = p @ replicate k 0 \<and> k \<le> nat (MaxPadding cfg)"
  by (auto simp: ApplyPadding_def dest!: rand_int_less split: sum.splits intro: exI [of _ 0])

lemma ApplyPadding_length: "length p \<le> length (ApplyPadding d cfg p)"
    "length (ApplyPadding d cfg p) \<le> length p + nat (MaxPadding cfg)"
  using ApplyPadding_prefix [of d cfg p] by auto

lemma SleepJitter_bound: "SleepJitter d cfg \<le> nat (MaxJitterMS cfg)"
  by (auto simp: SleepJitter_def dest!: rand_int_less split: sum.splits)

end
