(* ===== verification/Config.thy ===== *)
theory Config
  imports JsonRound
begin

text \<open>
  \<open>config/config.go\<close> and \<open>winclient/config.go\<close>: the four configuration structs, their decoding
  and their defaults. A loader takes the outcome of \<open>os.ReadFile\<close>; \<open>raw\<close> is the second decoding
  into a map, of which only the presence of keys matters. Shown: what every loaded
  configuration satisfies, that loading an already complete one changes nothing, and how the
  presence test and the field matching disagree.
\<close>

definition has_key :: "string \<Rightarrow> (string \<times> json) list \<Rightarrow> bool" where
  "has_key k ms = list_ex (\<lambda>(k', v). k' = k) ms"

text \<open>\<open>if p(cfg) { cfg = f(cfg) }\<close>, one assignment of a default.\<close>

definition fill :: "('c \<Rightarrow> bool) \<Rightarrow> ('c \<Rightarrow> 'c) \<Rightarrow> 'c \<Rightarrow> 'c" where
  "fill p f cfg = (if p cfg then f cfg else cfg)"

lemma fill_skip: "(\<And>c. g (f c) = g c) \<Longrightarrow> g (fill p f c) = g c"
  by (simp add: fill_def)

lemma fill_sel:
  "(\<And>c. g (f c) = g (f undefined)) \<Longrightarrow> g (fill p f c) = (if p c then g (f undefined) else g c)"
  by (simp add: fill_def)

lemma fill_hit: "\<not> p c \<Longrightarrow> fill p f c = c"
  by (simp add: fill_def)

text \<open>\<open>loadJSON\<close> followed by the defaults, the frame of every loader.\<close>

definition load_with :: "((string \<times> json) list \<Rightarrow> 'c result) \<Rightarrow> ((string \<times> json) list \<Rightarrow> 'c \<Rightarrow> 'c)
    \<Rightarrow> bytes result \<Rightarrow> 'c result" where
  "load_with decode defaults file =
     (case file of
        Inl e \<Rightarrow> Inl e
      | Inr b \<Rightarrow>
          (case obj_members b of
             Inl e \<Rightarrow> Inl e
           | Inr raw \<Rightarrow>
               (case decode raw of
                  Inl e \<Rightarrow> Inl e
                | Inr cfg \<Rightarrow> Inr (defaults raw cfg))))"

lemma load_with_Inr:
  "load_with decode defaults file = Inr cfg \<longleftrightarrow>
     (\<exists>b raw c. file = Inr b \<and> obj_members b = Inr raw \<and> decode raw = Inr c \<and> cfg = defaults raw c)"
  by (auto simp: load_with_def split: sum.splits)

lemma load_with_ok:
  assumes "load_with decode defaults file = Inr cfg" and "\<And>raw c. P (defaults raw c)"
  shows "P cfg"
  using assms by (auto simp: load_with_Inr)

subsection \<open>The server\<close>

record ServerConfig =
  sc_ListenUDP :: string
  sc_ListenTCP :: string
  sc_ProtocolVersion :: string
  sc_PreSharedKey :: string
  sc_ServerPrivateKey :: string
  sc_ServerPublicKey :: string
  sc_MaxPacketSize :: int
  sc_HandshakeSkewSec :: int
  sc_SessionIdleSec :: int
  sc_EnableTunnel :: bool
  sc_TunnelName :: string
  sc_TunnelServerCIDR :: string
  sc_TunnelSubnet :: string
  sc_UpstreamInterface :: string
  sc_EnableObfs :: bool
  sc_EnableUDP :: bool
  sc_EnableTCP :: bool
  sc_PublicProbeMode :: bool

definition ServerConfig_decode :: "(string \<times> json) list \<Rightarrow> ServerConfig result" where
  "ServerConfig_decode ms =
     with_field (str_field ''listen_udp'' ms) (\<lambda>x0.
     with_field (str_field ''listen_tcp'' ms) (\<lambda>x1.
     with_field (str_field ''protocol_version'' ms) (\<lambda>x2.
     with_field (str_field ''pre_shared_key'' ms) (\<lambda>x3.
     with_field (str_field ''server_private_key'' ms) (\<lambda>x4.
     with_field (str_field ''server_public_key'' ms) (\<lambda>x5.
     with_field (int_field ''max_packet_size'' ms) (\<lambda>x6.
     with_field (int_field ''handshake_skew_sec'' ms) (\<lambda>x7.
     with_field (int_field ''session_idle_sec'' ms) (\<lambda>x8.
     with_field (bool_field ''enable_tunnel'' ms) (\<lambda>x9.
     with_field (str_field ''tunnel_name'' ms) (\<lambda>x10.
     with_field (str_field ''tunnel_server_cidr'' ms) (\<lambda>x11.
     with_field (str_field ''tunnel_subnet'' ms) (\<lambda>x12.
     with_field (str_field ''upstream_interface'' ms) (\<lambda>x13.
     with_field (bool_field ''enable_obfs'' ms) (\<lambda>x14.
     with_field (bool_field ''enable_udp'' ms) (\<lambda>x15.
     with_field (bool_field ''enable_tcp'' ms) (\<lambda>x16.
     with_field (bool_field ''public_probe_mode'' ms) (\<lambda>x17.
       Inr \<lparr>sc_ListenUDP = x0, sc_ListenTCP = x1, sc_ProtocolVersion = x2, sc_PreSharedKey = x3,
         sc_ServerPrivateKey = x4, sc_ServerPublicKey = x5, sc_MaxPacketSize = x6,
         sc_HandshakeSkewSec = x7, sc_SessionIdleSec = x8, sc_EnableTunnel = x9, sc_TunnelName =
         x10, sc_TunnelServerCIDR = x11, sc_TunnelSubnet = x12, sc_UpstreamInterface = x13,
         sc_EnableObfs = x14, sc_EnableUDP = x15, sc_EnableTCP = x16, sc_PublicProbeMode = x17\<rparr>))))))))))))))))))"

definition ServerConfig_defaults :: "(string \<times> json) list \<Rightarrow> ServerConfig \<Rightarrow> ServerConfig" where
  "ServerConfig_defaults raw cfg =
     (let cfg = fill (\<lambda>cfg. sc_ListenUDP cfg = []) (\<lambda>cfg. cfg\<lparr>sc_ListenUDP := '':18080''\<rparr>) cfg;
          cfg = fill (\<lambda>cfg. sc_ListenTCP cfg = []) (\<lambda>cfg. cfg\<lparr>sc_ListenTCP := '':18443''\<rparr>) cfg;
          cfg = fill (\<lambda>cfg. sc_ProtocolVersion cfg = []) (\<lambda>cfg. cfg\<lparr>sc_ProtocolVersion := ''v2''\<rparr>) cfg;
          cfg = fill (\<lambda>cfg. sc_MaxPacketSize cfg = 0) (\<lambda>cfg. cfg\<lparr>sc_MaxPacketSize := 1500\<rparr>) cfg;
          cfg = fill (\<lambda>cfg. sc_HandshakeSkewSec cfg \<le> 0) (\<lambda>cfg. cfg\<lparr>sc_HandshakeSkewSec := 120\<rparr>) cfg;
          cfg = fill (\<lambda>cfg. sc_SessionIdleSec cfg \<le> 0) (\<lambda>cfg. cfg\<lparr>sc_SessionIdleSec := 300\<rparr>) cfg;
          cfg = fill (\<lambda>cfg. sc_TunnelName cfg = []) (\<lambda>cfg. cfg\<lparr>sc_TunnelName := ''dsp0''\<rparr>) cfg;
          cfg = fill (\<lambda>cfg. sc_TunnelServerCIDR cfg = []) (\<lambda>cfg. cfg\<lparr>sc_TunnelServerCIDR := ''10.66.0.1/24''\<rparr>) cfg;
          cfg = fill (\<lambda>cfg. sc_TunnelSubnet cfg = []) (\<lambda>cfg. cfg\<lparr>sc_TunnelSubnet := ''10.66.0.0/24''\<rparr>) cfg;
          cfg = fill (\<lambda>cfg. \<not> has_key ''enable_tunnel'' raw) (\<lambda>cfg. cfg\<lparr>sc_EnableTunnel := True\<rparr>) cfg
      in fill (\<lambda>cfg. \<not> sc_EnableUDP cfg \<and> \<not> sc_EnableTCP cfg)
            (\<lambda>cfg. cfg\<lparr>sc_EnableUDP := True, sc_EnableTCP := True\<rparr>) cfg)"

definition LoadServerConfig :: "bytes result \<Rightarrow> ServerConfig result" where
  "LoadServerConfig = load_with ServerConfig_decode ServerConfig_defaults"

subsection \<open>The clients\<close>

record ClientConfig =
  cc_ServerAddress :: string
  cc_ServerUDP :: string
  cc_ServerTCP :: string
  cc_ProtocolVersion :: string
  cc_EnableMultiTransport :: bool
  cc_PreSharedKey :: string
  cc_ServerPublicKey :: string
  cc_ClientPrivateKey :: string
  cc_ClientPublicKey :: string
  cc_KeyFile :: string
  cc_TransportMode :: string
  cc_TunName :: string
  cc_TunCIDR :: string
  cc_TunGateway :: string
  cc_EnableTunnel :: bool
  cc_EnableObfs :: bool

definition ClientConfig_decode :: "(string \<times> json) list \<Rightarrow> ClientConfig result" where
  "ClientConfig_decode ms =
     with_field (str_field ''server_address'' ms) (\<lambda>x0.
     with_field (str_field ''server_udp'' ms) (\<lambda>x1.
     with_field (str_field ''server_tcp'' ms) (\<lambda>x2.
     with_field (str_field ''protocol_version'' ms) (\<lambda>x3.
     with_field (bool_field ''enable_multi_transport'' ms) (\<lambda>x4.
     with_field (str_field ''pre_shared_key'' ms) (\<lambda>x5.
     with_field (str_field ''server_public_key'' ms) (\<lambda>x6.
     with_field (str_field ''client_private_key'' ms) (\<lambda>x7.
     with_field (str_field ''client_public_key'' ms) (\<lambda>x8.
     with_field (str_field ''key_file'' ms) (\<lambda>x9.
     with_field (str_field ''transport_mode'' ms) (\<lambda>x10.
     with_field (str_field ''tun_name'' ms) (\<lambda>x11.
     with_field (str_field ''tun_cidr'' ms) (\<lambda>x12.
     with_field (str_field ''tun_gateway'' ms) (\<lambda>x13.
     with_field (bool_field ''enable_tunnel'' ms) (\<lambda>x14.
     with_field (bool_field ''enable_obfs'' ms) (\<lambda>x15.
       Inr \<lparr>cc_ServerAddress = x0, cc_ServerUDP = x1, cc_ServerTCP = x2, cc_ProtocolVersion = x3,
         cc_EnableMultiTransport = x4, cc_PreSharedKey = x5, cc_ServerPublicKey = x6,
         cc_ClientPrivateKey = x7, cc_ClientPublicKey = x8, cc_KeyFile = x9, cc_TransportMode =
         x10, cc_TunName = x11, cc_TunCIDR = x12, cc_TunGateway = x13, cc_EnableTunnel = x14,
         cc_EnableObfs = x15\<rparr>))))))))))))))))"

definition ClientConfig_defaults :: "(string \<times> json) list \<Rightarrow> ClientConfig \<Rightarrow> ClientConfig" where
  "ClientConfig_defaults raw cfg =
     (let cfg = fill (\<lambda>cfg. cc_TransportMode cfg = []) (\<lambda>cfg. cfg\<lparr>cc_TransportMode := ''udp''\<rparr>) cfg;
          cfg = fill (\<lambda>cfg. cc_ProtocolVersion cfg = []) (\<lambda>cfg. cfg\<lparr>cc_ProtocolVersion := ''v2''\<rparr>) cfg;
          cfg = fill (\<lambda>cfg. cc_TunName cfg = []) (\<lambda>cfg. cfg\<lparr>cc_TunName := ''dsp0''\<rparr>) cfg;
          cfg = fill (\<lambda>cfg. cc_TunCIDR cfg = []) (\<lambda>cfg. cfg\<lparr>cc_TunCIDR := ''10.66.0.2/24''\<rparr>) cfg;
          cfg = fill (\<lambda>cfg. cc_TunGateway cfg = []) (\<lambda>cfg. cfg\<lparr>cc_TunGateway := ''10.66.0.1''\<rparr>) cfg;
          cfg = fill (\<lambda>cfg. cc_KeyFile cfg = []) (\<lambda>cfg. cfg\<lparr>cc_KeyFile := ''data/client-key.json''\<rparr>) cfg;
          cfg = fill (\<lambda>cfg. \<not> has_key ''enable_multi_transport'' raw) (\<lambda>cfg. cfg\<lparr>cc_EnableMultiTransport := True\<rparr>) cfg
      in cfg)"

definition LoadClientConfig :: "bytes result \<Rightarrow> ClientConfig result" where
  "LoadClientConfig = load_with ClientConfig_decode ClientConfig_defaults"

record WinConfig =
  wc_ServerTCP :: string
  wc_ServerUDP :: string
  wc_ProtocolVersion :: string
  wc_EnableMultiTransport :: bool
  wc_PreSharedKey :: string
  wc_ServerPublicKey :: string
  wc_ClientPrivateKey :: string
  wc_ClientPublicKey :: string
  wc_KeyFile :: string
  wc_ProfileName :: string
  wc_DeviceName :: string
  wc_EnableTunnel :: bool
  wc_TunName :: string
  wc_TunCIDR :: string
  wc_TunGateway :: string
  wc_TunSetDefaultRoute :: bool
  wc_TunProbeOnly :: bool
  wc_ReconnectSec :: int
  wc_PingIntervalSec :: int
  wc_HandshakeTimeout :: int

definition WinConfig_decode :: "(string \<times> json) list \<Rightarrow> WinConfig result" where
  "WinConfig_decode ms =
     with_field (str_field ''server_tcp'' ms) (\<lambda>x0.
     with_field (str_field ''server_udp'' ms) (\<lambda>x1.
     with_field (str_field ''protocol_version'' ms) (\<lambda>x2.
     with_field (bool_field ''enable_multi_transport'' ms) (\<lambda>x3.
     with_field (str_field ''pre_shared_key'' ms) (\<lambda>x4.
     with_field (str_field ''server_public_key'' ms) (\<lambda>x5.
     with_field (str_field ''client_private_key'' ms) (\<lambda>x6.
     with_field (str_field ''client_public_key'' ms) (\<lambda>x7.
     with_field (str_field ''key_file'' ms) (\<lambda>x8.
     with_field (str_field ''profile_name'' ms) (\<lambda>x9.
     with_field (str_field ''device_name'' ms) (\<lambda>x10.
     with_field (bool_field ''enable_tunnel'' ms) (\<lambda>x11.
     with_field (str_field ''tun_name'' ms) (\<lambda>x12.
     with_field (str_field ''tun_cidr'' ms) (\<lambda>x13.
     with_field (str_field ''tun_gateway'' ms) (\<lambda>x14.
     with_field (bool_field ''tun_set_default_route'' ms) (\<lambda>x15.
     with_field (bool_field ''tun_probe_only'' ms) (\<lambda>x16.
     with_field (int_field ''reconnect_sec'' ms) (\<lambda>x17.
     with_field (int_field ''ping_interval_sec'' ms) (\<lambda>x18.
     with_field (int_field ''handshake_timeout_sec'' ms) (\<lambda>x19.
       Inr \<lparr>wc_ServerTCP = x0, wc_ServerUDP = x1, wc_ProtocolVersion = x2, wc_EnableMultiTransport =
         x3, wc_PreSharedKey = x4, wc_ServerPublicKey = x5, wc_ClientPrivateKey = x6,
         wc_ClientPublicKey = x7, wc_KeyFile = x8, wc_ProfileName = x9, wc_DeviceName = x10,
         wc_EnableTunnel = x11, wc_TunName = x12, wc_TunCIDR = x13, wc_TunGateway = x14,
         wc_TunSetDefaultRoute = x15, wc_TunProbeOnly = x16, wc_ReconnectSec = x17,
         wc_PingIntervalSec = x18, wc_HandshakeTimeout = x19\<rparr>))))))))))))))))))))"

definition WinConfig_defaults :: "(string \<times> json) list \<Rightarrow> WinConfig \<Rightarrow> WinConfig" where
  "WinConfig_defaults raw cfg =
     (let cfg = fill (\<lambda>cfg. wc_ServerTCP cfg = []) (\<lambda>cfg. cfg\<lparr>wc_ServerTCP := ''127.0.0.1:18443''\<rparr>) cfg;
          cfg = fill (\<lambda>cfg. wc_ProtocolVersion cfg = []) (\<lambda>cfg. cfg\<lparr>wc_ProtocolVersion := ''v2''\<rparr>) cfg;
          cfg = fill (\<lambda>cfg. wc_ServerUDP cfg = []) (\<lambda>cfg. cfg\<lparr>wc_ServerUDP := ''127.0.0.1:18080''\<rparr>) cfg;
          cfg = fill (\<lambda>cfg. \<not> has_key ''enable_multi_transport'' raw) (\<lambda>cfg. cfg\<lparr>wc_EnableMultiTransport := False\<rparr>) cfg;
          cfg = fill (\<lambda>cfg. wc_KeyFile cfg = []) (\<lambda>cfg. cfg\<lparr>wc_KeyFile := ''data/windows-client-key.json''\<rparr>) cfg;
          cfg = fill (\<lambda>cfg. wc_ProfileName cfg = []) (\<lambda>cfg. cfg\<lparr>wc_ProfileName := ''default''\<rparr>) cfg;
          cfg = fill (\<lambda>cfg. wc_DeviceName cfg = []) (\<lambda>cfg. cfg\<lparr>wc_DeviceName := ''win-client''\<rparr>) cfg;
          cfg = fill (\<lambda>cfg. \<not> has_key ''enable_tunnel'' raw) (\<lambda>cfg. cfg\<lparr>wc_EnableTunnel := True\<rparr>) cfg;
          cfg = fill (\<lambda>cfg. wc_TunName cfg = []) (\<lambda>cfg. cfg\<lparr>wc_TunName := ''DarkSideTunnel''\<rparr>) cfg;
          cfg = fill (\<lambda>cfg. wc_TunCIDR cfg = []) (\<lambda>cfg. cfg\<lparr>wc_TunCIDR := ''10.66.0.2/24''\<rparr>) cfg;
          cfg = fill (\<lambda>cfg. wc_TunGateway cfg = []) (\<lambda>cfg. cfg\<lparr>wc_TunGateway := ''10.66.0.1''\<rparr>) cfg;
          cfg = fill (\<lambda>cfg. \<not> has_key ''tun_set_default_route'' raw) (\<lambda>cfg. cfg\<lparr>wc_TunSetDefaultRoute := False\<rparr>) cfg;
          cfg = fill (\<lambda>cfg. \<not> has_key ''tun_probe_only'' raw) (\<lambda>cfg. cfg\<lparr>wc_TunProbeOnly := False\<rparr>) cfg;
          cfg = fill (\<lambda>cfg. wc_ReconnectSec cfg \<le> 0) (\<lambda>cfg. cfg\<lparr>wc_ReconnectSec := 3\<rparr>) cfg;
          cfg = fill (\<lambda>cfg. wc_PingIntervalSec cfg \<le> 0) (\<lambda>cfg. cfg\<lparr>wc_PingIntervalSec := 3\<rparr>) cfg;
          cfg = fill (\<lambda>cfg. wc_HandshakeTimeout cfg \<le> 0) (\<lambda>cfg. cfg\<lparr>wc_HandshakeTimeout := 5\<rparr>) cfg
      in cfg)"

definition LoadConfig :: "bytes result \<Rightarrow> WinConfig result" where
  "LoadConfig = load_with WinConfig_decode WinConfig_defaults"

subsection \<open>The panel\<close>

record PanelConfig =
  pc_ListenAddr :: string
  pc_AdminUser :: string
  pc_AdminPassword :: string
  pc_StateFile :: string
  pc_ServerLogPath :: string
  pc_EnableServiceOp :: bool
  pc_ServiceName :: string

definition PanelConfig_decode :: "(string \<times> json) list \<Rightarrow> PanelConfig result" where
  "PanelConfig_decode ms =
     with_field (str_field ''listen_addr'' ms) (\<lambda>x0.
     with_field (str_field ''admin_user'' ms) (\<lambda>x1.
     with_field (str_field ''admin_password'' ms) (\<lambda>x2.
     with_field (str_field ''state_file'' ms) (\<lambda>x3.
     with_field (str_field ''server_log_path'' ms) (\<lambda>x4.
     with_field (bool_field ''enable_service_op'' ms) (\<lambda>x5.
     with_field (str_field ''service_name'' ms) (\<lambda>x6.
       Inr \<lparr>pc_ListenAddr = x0, pc_AdminUser = x1, pc_AdminPassword = x2, pc_StateFile = x3,
         pc_ServerLogPath = x4, pc_EnableServiceOp = x5, pc_ServiceName = x6\<rparr>)))))))"

definition PanelConfig_defaults :: "PanelConfig \<Rightarrow> PanelConfig" where
  "PanelConfig_defaults cfg =
     (let cfg = fill (\<lambda>cfg. pc_ListenAddr cfg = []) (\<lambda>cfg. cfg\<lparr>pc_ListenAddr := '':2053''\<rparr>) cfg;
          cfg = fill (\<lambda>cfg. pc_AdminUser cfg = []) (\<lambda>cfg. cfg\<lparr>pc_AdminUser := ''admin''\<rparr>) cfg;
          cfg = fill (\<lambda>cfg. pc_AdminPassword cfg = []) (\<lambda>cfg. cfg\<lparr>pc_AdminPassword := ''admin123''\<rparr>) cfg;
          cfg = fill (\<lambda>cfg. pc_StateFile cfg = []) (\<lambda>cfg. cfg\<lparr>pc_StateFile := ''data/panel-state.json''\<rparr>) cfg;
          cfg = fill (\<lambda>cfg. pc_ServiceName cfg = []) (\<lambda>cfg. cfg\<lparr>pc_ServiceName := ''dsp-server.service''\<rparr>) cfg
      in cfg)"

definition LoadPanelConfig :: "bytes result \<Rightarrow> PanelConfig result" where
  "LoadPanelConfig = load_with PanelConfig_decode (\<lambda>_. PanelConfig_defaults)"

subsection \<open>What a loaded configuration satisfies\<close>

lemmas ServerConfig_skip =
  fill_skip [where g = sc_ListenUDP] fill_skip [where g = sc_ListenTCP]
  fill_skip [where g = sc_ProtocolVersion] fill_skip [where g = sc_PreSharedKey]
  fill_skip [where g = sc_ServerPrivateKey] fill_skip [where g = sc_ServerPublicKey]
  fill_skip [where g = sc_MaxPacketSize] fill_skip [where g = sc_HandshakeSkewSec]
  fill_skip [where g = sc_SessionIdleSec] fill_skip [where g = sc_EnableTunnel]
  fill_skip [where g = sc_TunnelName] fill_skip [where g = sc_TunnelServerCIDR]
  fill_skip [where g = sc_TunnelSubnet] fill_skip [where g = sc_UpstreamInterface]
  fill_skip [where g = sc_EnableObfs] fill_skip [where g = sc_EnableUDP]
  fill_skip [where g = sc_EnableTCP] fill_skip [where g = sc_PublicProbeMode]

lemmas ServerConfig_hit =
  fill_sel [where g = sc_ListenUDP] fill_sel [where g = sc_ListenTCP]
  fill_sel [where g = sc_ProtocolVersion] fill_sel [where g = sc_PreSharedKey]
  fill_sel [where g = sc_ServerPrivateKey] fill_sel [where g = sc_ServerPublicKey]
  fill_sel [where g = sc_MaxPacketSize] fill_sel [where g = sc_HandshakeSkewSec]
  fill_sel [where g = sc_SessionIdleSec] fill_sel [where g = sc_EnableTunnel]
  fill_sel [where g = sc_TunnelName] fill_sel [where g = sc_TunnelServerCIDR]
  fill_sel [where g = sc_TunnelSubnet] fill_sel [where g = sc_UpstreamInterface]
  fill_sel [where g = sc_EnableObfs] fill_sel [where g = sc_EnableUDP]
  fill_sel [where g = sc_EnableTCP] fill_sel [where g = sc_PublicProbeMode]

lemmas WinConfig_skip =
  fill_skip [where g = wc_ServerTCP] fill_skip [where g = wc_ServerUDP]
  fill_skip [where g = wc_ProtocolVersion] fill_skip [where g = wc_EnableMultiTransport]
  fill_skip [where g = wc_PreSharedKey] fill_skip [where g = wc_ServerPublicKey]
  fill_skip [where g = wc_ClientPrivateKey] fill_skip [where g = wc_ClientPublicKey]
  fill_skip [where g = wc_KeyFile] fill_skip [where g = wc_ProfileName]
  fill_skip [where g = wc_DeviceName] fill_skip [where g = wc_EnableTunnel]
  fill_skip [where g = wc_TunName] fill_skip [where g = wc_TunCIDR]
  fill_skip [where g = wc_TunGateway] fill_skip [where g = wc_TunSetDefaultRoute]
  fill_skip [where g = wc_TunProbeOnly] fill_skip [where g = wc_ReconnectSec]
  fill_skip [where g = wc_PingIntervalSec] fill_skip [where g = wc_HandshakeTimeout]

lemmas WinConfig_hit =
  fill_sel [where g = wc_ServerTCP] fill_sel [where g = wc_ServerUDP]
  fill_sel [where g = wc_ProtocolVersion] fill_sel [where g = wc_EnableMultiTransport]
  fill_sel [where g = wc_PreSharedKey] fill_sel [where g = wc_ServerPublicKey]
  fill_sel [where g = wc_ClientPrivateKey] fill_sel [where g = wc_ClientPublicKey]
  fill_sel [where g = wc_KeyFile] fill_sel [where g = wc_ProfileName]
  fill_sel [where g = wc_DeviceName] fill_sel [where g = wc_EnableTunnel]
  fill_sel [where g = wc_TunName] fill_sel [where g = wc_TunCIDR]
  fill_sel [where g = wc_TunGateway] fill_sel [where g = wc_TunSetDefaultRoute]
  fill_sel [where g = wc_TunProbeOnly] fill_sel [where g = wc_ReconnectSec]
  fill_sel [where g = wc_PingIntervalSec] fill_sel [where g = wc_HandshakeTimeout]

lemmas PanelConfig_skip =
  fill_skip [where g = pc_ListenAddr] fill_skip [where g = pc_AdminUser]
  fill_skip [where g = pc_AdminPassword] fill_skip [where g = pc_StateFile]
  fill_skip [where g = pc_ServerLogPath] fill_skip [where g = pc_EnableServiceOp]
  fill_skip [where g = pc_ServiceName]

lemmas PanelConfig_hit =
  fill_sel [where g = pc_ListenAddr] fill_sel [where g = pc_AdminUser]
  fill_sel [where g = pc_AdminPassword] fill_sel [where g = pc_StateFile]
  fill_sel [where g = pc_ServerLogPath] fill_sel [where g = pc_EnableServiceOp]
  fill_sel [where g = pc_ServiceName]

definition ServerConfig_ok :: "ServerConfig \<Rightarrow> bool" where
  "ServerConfig_ok cfg \<longleftrightarrow> sc_ListenUDP cfg \<noteq> [] \<and> sc_ListenTCP cfg \<noteq> [] \<and> sc_ProtocolVersion cfg \<noteq> []
     \<and> sc_MaxPacketSize cfg \<noteq> 0 \<and> 0 < sc_HandshakeSkewSec cfg \<and> 0 < sc_SessionIdleSec cfg
     \<and> sc_TunnelName cfg \<noteq> [] \<and> sc_TunnelServerCIDR cfg \<noteq> [] \<and> sc_TunnelSubnet cfg \<noteq> []
     \<and> (sc_EnableUDP cfg \<or> sc_EnableTCP cfg)"

lemma ServerConfig_defaults_ok: "ServerConfig_ok (ServerConfig_defaults raw cfg)"
  by (simp add: ServerConfig_ok_def ServerConfig_defaults_def Let_def ServerConfig_skip ServerConfig_hit)

lemma ServerConfig_defaults_id:
  "ServerConfig_ok cfg \<Longrightarrow> has_key ''enable_tunnel'' raw \<Longrightarrow> ServerConfig_defaults raw cfg = cfg"
  by (simp add: ServerConfig_ok_def ServerConfig_defaults_def Let_def ServerConfig_skip ServerConfig_hit)

lemma LoadServerConfig_ok: "LoadServerConfig f = Inr cfg \<Longrightarrow> ServerConfig_ok cfg"
  unfolding LoadServerConfig_def by (erule load_with_ok) (rule ServerConfig_defaults_ok)

definition WinConfig_ok :: "WinConfig \<Rightarrow> bool" where
  "WinConfig_ok cfg \<longleftrightarrow> wc_ServerTCP cfg \<noteq> [] \<and> wc_ServerUDP cfg \<noteq> [] \<and> wc_ProtocolVersion cfg \<noteq> []
     \<and> wc_KeyFile cfg \<noteq> [] \<and> wc_ProfileName cfg \<noteq> [] \<and> wc_DeviceName cfg \<noteq> [] \<and> wc_TunName cfg \<noteq> []
     \<and> wc_TunCIDR cfg \<noteq> [] \<and> wc_TunGateway cfg \<noteq> [] \<and> 0 < wc_ReconnectSec cfg
     \<and> 0 < wc_PingIntervalSec cfg \<and> 0 < wc_HandshakeTimeout cfg"

lemma WinConfig_defaults_ok: "WinConfig_ok (WinConfig_defaults raw cfg)"
  by (simp add: WinConfig_ok_def WinConfig_defaults_def Let_def WinConfig_skip WinConfig_hit)

lemma LoadConfig_ok: "LoadConfig f = Inr cfg \<Longrightarrow> WinConfig_ok cfg"
  unfolding LoadConfig_def by (erule load_with_ok) (rule WinConfig_defaults_ok)

definition PanelConfig_ok :: "PanelConfig \<Rightarrow> bool" where
  "PanelConfig_ok cfg \<longleftrightarrow> pc_ListenAddr cfg \<noteq> [] \<and> pc_AdminUser cfg \<noteq> [] \<and> pc_AdminPassword cfg \<noteq> []
     \<and> pc_StateFile cfg \<noteq> [] \<and> pc_ServiceName cfg \<noteq> []"

lemma PanelConfig_defaults_ok: "PanelConfig_ok (PanelConfig_defaults cfg)"
  by (simp add: PanelConfig_ok_def PanelConfig_defaults_def Let_def PanelConfig_skip PanelConfig_hit)

lemma LoadPanelConfig_ok: "LoadPanelConfig f = Inr cfg \<Longrightarrow> PanelConfig_ok cfg"
  unfolding LoadPanelConfig_def by (erule load_with_ok) (rule PanelConfig_defaults_ok)

text \<open>Without the exact key the switch is forced on, whatever a differently spelled member said.\<close>

lemma ServerConfig_tunnel_forced:
  "\<not> has_key ''enable_tunnel'' raw \<Longrightarrow> sc_EnableTunnel (ServerConfig_defaults raw cfg)"
  by (simp add: ServerConfig_defaults_def Let_def ServerConfig_skip ServerConfig_hit)

end
