(* ===== verification/ServerSessions.thy ===== *)
theory ServerSessions
  imports Handshake Wire Policy Config
begin

text \<open>
  \<open>server.go\<close> (state, constructor) and \<open>server_sessions.go\<close>: the per-connection state, the two
  tables of the server and their operations. Both tables hold pointers to the same
  \<open>connState\<close> objects, so the objects live in an explicit heap. Everything the server does to
  the outside is appended to a log of effects; what the outside answers (clock, random source,
  whether a write succeeds) is the record \<open>env\<close>, one per handler call. Go's map iteration
  order is unspecified, so the loops over \<open>conns\<close> take the visiting order as an argument.
\<close>

type_synonym conn = nat
type_synonym UDPAddr = string
type_synonym ptr = nat

record connState =
  secureReady :: bool
  tunnelEnabled :: bool
  protoVersion :: string
  awaitAuthV2 :: bool
  pendingTicket :: string
  sessionID :: string
  udpAddr :: "UDPAddr option"
  sessionKey :: bytes
  lastSeen :: int
  st_conn :: "conn option"

definition zero_connState :: connState where
  "zero_connState = \<lparr>secureReady = False, tunnelEnabled = False, protoVersion = [], awaitAuthV2 = False,
     pendingTicket = [], sessionID = [], udpAddr = None, sessionKey = [], lastSeen = 0, st_conn = None\<rparr>"

text \<open>
  \<open>TCPWrite\<close> holds the bytes a successful \<open>tcp.WriteFrame\<close> put on the stream, \<open>NilDeref\<close> stands
  for the panic of a write to a nil connection.
\<close>

datatype effect = TCPWrite conn bytes | TCPClose conn | UDPWrite UDPAddr bytes | TunWrite bytes | NilDeref

record env =
  clock :: "nat \<Rightarrow> int"
  env_rng :: rng
  conn_ok :: "conn \<Rightarrow> bool"
  udp_ok :: "UDPAddr \<Rightarrow> bytes \<Rightarrow> bool"
  tun_ok :: "bytes \<Rightarrow> bool"
  env_x25519 :: x25519_fun

record Server =
  cfg :: ServerConfig
  obfsCfg :: ObfsConfig
  conns :: "conn \<Rightarrow> ptr option"
  bySID :: "string \<Rightarrow> ptr option"
  heap :: "ptr \<Rightarrow> connState"
  next_ptr :: ptr
  udpSrv :: bool
  tunnel :: bool
  effects :: "effect list"

text \<open>\<open>New\<close>; the argument \<open>tun\<close> is the outcome of \<open>newTunnelDevice\<close>.\<close>

definition New :: "unit result \<Rightarrow> ServerConfig \<Rightarrow> Server result" where
  "New tun c =
     (let srv = (\<lambda>t. \<lparr>cfg = c,
            obfsCfg = \<lparr>Enabled = sc_EnableObfs c, MaxPadding = 32, MaxJitterMS = 15\<rparr>,
            conns = (\<lambda>_. None), bySID = (\<lambda>_. None), heap = (\<lambda>_. zero_connState), next_ptr = 0,
            udpSrv = False, tunnel = t, effects = []\<rparr>)
      in if sc_EnableTunnel c
         then (case tun of Inl e \<Rightarrow> Inl e | Inr _ \<Rightarrow> Inr (srv True))
         else Inr (srv False))"

definition setUDPSrv :: "Server \<Rightarrow> Server" where
  "setUDPSrv s = s\<lparr>udpSrv := True\<rparr>"

text \<open>\<open>decorateReply\<close>; the sleep only delays. It consumes the first two draws.\<close>

definition decorateReply :: "env \<Rightarrow> Server \<Rightarrow> bytes \<Rightarrow> bytes" where
  "decorateReply env s payload =
     ApplyPadding (env_rng env 0) (obfsCfg s) (bytes_of_str ''dsp-ok:'' @ payload)"

subsection \<open>Effects\<close>

definition emit :: "effect \<Rightarrow> Server \<Rightarrow> Server" where
  "emit e s = s\<lparr>effects := effects s @ [e]\<rparr>"

definition tcp_WriteFrame :: "env \<Rightarrow> conn option \<Rightarrow> bytes \<Rightarrow> Server \<Rightarrow> bool \<times> Server" where
  "tcp_WriteFrame env c payload s =
     (case WriteFrame payload of
        Inl e \<Rightarrow> (False, s)
      | Inr w \<Rightarrow>
          (case c of
             None \<Rightarrow> (False, emit NilDeref s)
           | Some c' \<Rightarrow> (if conn_ok env c' then (True, emit (TCPWrite c' w) s) else (False, s))))"

definition udp_WriteTo :: "env \<Rightarrow> UDPAddr \<Rightarrow> bytes \<Rightarrow> Server \<Rightarrow> bool \<times> Server" where
  "udp_WriteTo env a payload s =
     (if udp_ok env a payload then (True, emit (UDPWrite a payload) s) else (False, s))"

definition tunnel_WritePacket :: "env \<Rightarrow> bytes \<Rightarrow> Server \<Rightarrow> bool \<times> Server" where
  "tunnel_WritePacket env p s = (if tun_ok env p then (True, emit (TunWrite p) s) else (False, s))"

text \<open>An assignment through a pointer to a \<open>connState\<close>.\<close>

definition upd :: "ptr \<Rightarrow> (connState \<Rightarrow> connState) \<Rightarrow> Server \<Rightarrow> Server" where
  "upd p f s = s\<lparr>heap := (heap s)(p := f (heap s p))\<rparr>"

subsection \<open>The session tables\<close>

definition getConnState :: "env \<Rightarrow> conn \<Rightarrow> Server \<Rightarrow> ptr \<times> Server" where
  "getConnState env c s =
     (case conns s c of
        Some p \<Rightarrow> (p, s)
      | None \<Rightarrow>
          (let p = next_ptr s;
               st = zero_connState\<lparr>lastSeen := clock env 0, st_conn := Some c\<rparr>
           in (p, s\<lparr>heap := (heap s)(p := st), next_ptr := Suc p, conns := (conns s)(c \<mapsto> p)\<rparr>)))"

definition bindSessionID :: "string \<Rightarrow> ptr \<Rightarrow> Server \<Rightarrow> Server" where
  "bindSessionID sid p s = (if sid = [] then s else s\<lparr>bySID := (bySID s)(sid \<mapsto> p)\<rparr>)"

definition unbindSessionID :: "string \<Rightarrow> Server \<Rightarrow> Server" where
  "unbindSessionID sid s = (if sid = [] then s else s\<lparr>bySID := (bySID s)(sid := None)\<rparr>)"

definition findStateBySessionID :: "string \<Rightarrow> Server \<Rightarrow> ptr option" where
  "findStateBySessionID sid s = (if sid = [] then None else bySID s sid)"

definition removeConnState :: "conn \<Rightarrow> Server \<Rightarrow> Server" where
  "removeConnState c s =
     (let st = conns s c;
          s = s\<lparr>conns := (conns s)(c := None)\<rparr>
      in case st of
           None \<Rightarrow> s
         | Some p \<Rightarrow> (if sessionID (heap s p) \<noteq> [] then unbindSessionID (sessionID (heap s p)) s else s))"

definition error_frame :: "string \<Rightarrow> bytes" where
  "error_frame message =
     bytes_of_str (''{\"type\":\"error\",\"message\":\"'' @ message @ ''\"}'')"

definition failConn :: "env \<Rightarrow> conn \<Rightarrow> string \<Rightarrow> Server \<Rightarrow> Server" where
  "failConn env c message s =
     (let (_, s) = tcp_WriteFrame env (Some c) (error_frame message) s;
          s = emit (TCPClose c) s
      in removeConnState c s)"

fun findSecureConnState :: "conn list \<Rightarrow> Server \<Rightarrow> ptr option" where
  "findSecureConnState [] s = None"
| "findSecureConnState (c # order) s =
     (case conns s c of
        None \<Rightarrow> findSecureConnState order s
      | Some p \<Rightarrow>
          (if secureReady (heap s p) \<and> tunnelEnabled (heap s p) \<and> st_conn (heap s p) \<noteq> None
           then Some p else findSecureConnState order s))"

subsection \<open>The reaper\<close>

text \<open>The loop over \<open>conns\<close> under the lock: the connections to close, the sessions to unbind.\<close>

fun collectIdle :: "int \<Rightarrow> conn list \<Rightarrow> Server \<Rightarrow> conn list \<times> string list \<times> Server" where
  "collectIdle cutoff [] s = ([], [], s)"
| "collectIdle cutoff (c # order) s =
     (case conns s c of
        None \<Rightarrow> collectIdle cutoff order s
      | Some p \<Rightarrow>
          (if lastSeen (heap s p) < cutoff
           then (let (toClose, sids, s') = collectIdle cutoff order (s\<lparr>conns := (conns s)(c := None)\<rparr>)
                 in (c # toClose,
                     (if sessionID (heap s p) \<noteq> [] then sessionID (heap s p) # sids else sids), s'))
           else collectIdle cutoff order s))"

definition idle_cutoff :: "env \<Rightarrow> Server \<Rightarrow> int" where
  "idle_cutoff env s = clock env 0 - wrap64 (sc_SessionIdleSec (cfg s) * 1000000000)"

definition dropIdleConnStates :: "env \<Rightarrow> conn list \<Rightarrow> Server \<Rightarrow> Server" where
  "dropIdleConnStates env order s =
     (if sc_SessionIdleSec (cfg s) \<le> 0 then s
      else
        let (toClose, sids, s) = collectIdle (idle_cutoff env s) order s;
            s = fold unbindSessionID sids s
        in fold (\<lambda>c. emit (TCPClose c)) toClose s)"

subsection \<open>Projections of the primitives\<close>

lemma emit_sel [simp]:
  "cfg (emit e s) = cfg s" "obfsCfg (emit e s) = obfsCfg s" "conns (emit e s) = conns s"
  "bySID (emit e s) = bySID s" "heap (emit e s) = heap s" "next_ptr (emit e s) = next_ptr s"
  "udpSrv (emit e s) = udpSrv s" "tunnel (emit e s) = tunnel s" "effects (emit e s) = effects s @ [e]"
  by (simp_all add: emit_def)

lemma upd_sel [simp]:
  "cfg (upd p f s) = cfg s" "obfsCfg (upd p f s) = obfsCfg s" "conns (upd p f s) = conns s"
  "bySID (upd p f s) = bySID s" "heap (upd p f s) = (heap s)(p := f (heap s p))"
  "next_ptr (upd p f s) = next_ptr s" "udpSrv (upd p f s) = udpSrv s" "tunnel (upd p f s) = tunnel s"
  "effects (upd p f s) = effects s"
  by (simp_all add: upd_def)

lemma bindSessionID_sel [simp]:
  "cfg (bindSessionID sid p s) = cfg s" "conns (bindSessionID sid p s) = conns s"
  "heap (bindSessionID sid p s) = heap s" "next_ptr (bindSessionID sid p s) = next_ptr s"
  "tunnel (bindSessionID sid p s) = tunnel s" "udpSrv (bindSessionID sid p s) = udpSrv s"
  "effects (bindSessionID sid p s) = effects s" "obfsCfg (bindSessionID sid p s) = obfsCfg s"
  "bySID (bindSessionID sid p s) = (if sid = [] then bySID s else (bySID s)(sid \<mapsto> p))"
  by (simp_all add: bindSessionID_def)

lemma unbindSessionID_sel [simp]:
  "cfg (unbindSessionID sid s) = cfg s" "conns (unbindSessionID sid s) = conns s"
  "heap (unbindSessionID sid s) = heap s" "next_ptr (unbindSessionID sid s) = next_ptr s"
  "tunnel (unbindSessionID sid s) = tunnel s" "udpSrv (unbindSessionID sid s) = udpSrv s"
  "effects (unbindSessionID sid s) = effects s" "obfsCfg (unbindSessionID sid s) = obfsCfg s"
  "bySID (unbindSessionID sid s) = (if sid = [] then bySID s else (bySID s)(sid := None))"
  by (simp_all add: unbindSessionID_def)

lemma removeConnState_sel [simp]:
  "cfg (removeConnState c s) = cfg s" "conns (removeConnState c s) = (conns s)(c := None)"
  "heap (removeConnState c s) = heap s" "next_ptr (removeConnState c s) = next_ptr s"
  "tunnel (removeConnState c s) = tunnel s" "udpSrv (removeConnState c s) = udpSrv s"
  "effects (removeConnState c s) = effects s" "obfsCfg (removeConnState c s) = obfsCfg s"
  by (simp_all add: removeConnState_def Let_def split: option.splits)

lemma removeConnState_bySID:
  "bySID (removeConnState c s) =
     (case conns s c of None \<Rightarrow> bySID s
      | Some p \<Rightarrow> if sessionID (heap s p) = [] then bySID s else (bySID s)(sessionID (heap s p) := None))"
  by (simp add: removeConnState_def Let_def split: option.splits)

lemma fold_unbind_sel [simp]:
  "cfg (fold unbindSessionID sids s) = cfg s" "conns (fold unbindSessionID sids s) = conns s"
  "heap (fold unbindSessionID sids s) = heap s" "next_ptr (fold unbindSessionID sids s) = next_ptr s"
  "effects (fold unbindSessionID sids s) = effects s"
  by (induction sids arbitrary: s) simp_all

lemma fold_unbind_bySID:
  "bySID (fold unbindSessionID sids s) sid = (if sid \<noteq> [] \<and> sid \<in> set sids then None else bySID s sid)"
  by (induction sids arbitrary: s) auto

lemma fold_close_sel [simp]:
  "cfg (fold (\<lambda>c. emit (TCPClose c)) cs s) = cfg s" "conns (fold (\<lambda>c. emit (TCPClose c)) cs s) = conns s"
  "bySID (fold (\<lambda>c. emit (TCPClose c)) cs s) = bySID s" "heap (fold (\<lambda>c. emit (TCPClose c)) cs s) = heap s"
  "next_ptr (fold (\<lambda>c. emit (TCPClose c)) cs s) = next_ptr s"
  "effects (fold (\<lambda>c. emit (TCPClose c)) cs s) = effects s @ map TCPClose cs"
  by (induction cs arbitrary: s) simp_all

subsection \<open>The invariant of the tables\<close>

text \<open>
  A connection state is ready or waiting for the proof, never both; only a ready state of
  version 2 has a session identifier, only a state with one has a datagram address, and only a
  ready one feeds the tunnel. Session identifiers need no escaping in JSON.
\<close>

definition state_ok :: "connState \<Rightarrow> bool" where
  "state_ok st \<longleftrightarrow>
     \<not> (secureReady st \<and> awaitAuthV2 st)
     \<and> (sessionID st \<noteq> [] \<longrightarrow> secureReady st \<and> protoVersion st = ''v2'')
     \<and> (awaitAuthV2 st \<longrightarrow> protoVersion st = ''v2'' \<and> pendingTicket st \<noteq> [])
     \<and> (awaitAuthV2 st \<or> secureReady st \<longrightarrow> length (sessionKey st) = 32)
     \<and> (udpAddr st \<noteq> None \<longrightarrow> sessionID st \<noteq> [])
     \<and> (tunnelEnabled st \<longrightarrow> secureReady st)
     \<and> plain_text (sessionID st)"

text \<open>
  The two tables agree: every connection owns its own allocated state, and every session
  identifier leads to the live state that carries it. So no datagram reaches the state of a
  connection that is gone.
\<close>

definition conns_ok :: "Server \<Rightarrow> bool" where
  "conns_ok s \<longleftrightarrow> (\<forall>c p. conns s c = Some p \<longrightarrow> p < next_ptr s \<and> st_conn (heap s p) = Some c)"

definition bySID_ok :: "Server \<Rightarrow> bool" where
  "bySID_ok s \<longleftrightarrow> (\<forall>sid p. bySID s sid = Some p \<longrightarrow>
     sid \<noteq> [] \<and> sessionID (heap s p) = sid \<and> (\<exists>c. conns s c = Some p))"

definition heap_ok :: "Server \<Rightarrow> bool" where
  "heap_ok s \<longleftrightarrow> (\<forall>p < next_ptr s. state_ok (heap s p))"

definition server_inv :: "Server \<Rightarrow> bool" where
  "server_inv s \<longleftrightarrow> conns_ok s \<and> bySID_ok s \<and> heap_ok s \<and> NilDeref \<notin> set (effects s)"

lemmas server_inv_defs = server_inv_def conns_ok_def bySID_ok_def heap_ok_def

lemma server_inv_New: "New tun c = Inr s \<Longrightarrow> server_inv s"
  by (auto simp: New_def Let_def server_inv_defs split: if_splits sum.splits)

lemma server_inv_conn:
  assumes "server_inv s" "conns s c = Some p"
  shows "p < next_ptr s" "st_conn (heap s p) = Some c" "state_ok (heap s p)"
  using assms by (auto simp: server_inv_defs)

lemma server_inv_inject:
  "server_inv s \<Longrightarrow> conns s c = Some p \<Longrightarrow> conns s c' = Some p \<Longrightarrow> c = c'"
  using server_inv_conn(2) [of s c p] server_inv_conn(2) [of s c' p] by simp

lemma server_inv_sid:
  assumes "server_inv s" "bySID s sid = Some p"
  obtains c where "conns s c = Some p" "sessionID (heap s p) = sid" "sid \<noteq> []" "state_ok (heap s p)"
    "secureReady (heap s p)" "protoVersion (heap s p) = ''v2''" "st_conn (heap s p) = Some c"
proof -
  obtain c where c: "conns s c = Some p" "sessionID (heap s p) = sid" "sid \<noteq> []"
    using assms unfolding server_inv_def bySID_ok_def by blast
  with server_inv_conn [OF assms(1) c(1)] that show thesis by (auto simp: state_ok_def)
qed

lemma server_inv_emit: "server_inv s \<Longrightarrow> e \<noteq> NilDeref \<Longrightarrow> server_inv (emit e s)"
  by (auto simp: server_inv_defs)

lemma server_inv_upd:
  assumes "server_inv s" "state_ok (f (heap s p))"
    "st_conn (f (heap s p)) = st_conn (heap s p)" "sessionID (f (heap s p)) = sessionID (heap s p)"
  shows "server_inv (upd p f s)"
  using assms by (auto simp: server_inv_defs)

lemma server_inv_tcp_WriteFrame:
  "server_inv s \<Longrightarrow> c \<noteq> None \<Longrightarrow> server_inv (snd (tcp_WriteFrame env c w s))"
  by (auto simp: tcp_WriteFrame_def intro: server_inv_emit split: sum.splits)

lemma tcp_WriteFrame_sel [simp]:
  "cfg (snd (tcp_WriteFrame env c w s)) = cfg s" "conns (snd (tcp_WriteFrame env c w s)) = conns s"
  "bySID (snd (tcp_WriteFrame env c w s)) = bySID s" "heap (snd (tcp_WriteFrame env c w s)) = heap s"
  "next_ptr (snd (tcp_WriteFrame env c w s)) = next_ptr s"
  by (auto simp: tcp_WriteFrame_def split: sum.splits option.splits)

lemma server_inv_udp_WriteTo: "server_inv s \<Longrightarrow> server_inv (snd (udp_WriteTo env a w s))"
  by (auto simp: udp_WriteTo_def intro: server_inv_emit)

lemma server_inv_tunnel_WritePacket: "server_inv s \<Longrightarrow> server_inv (snd (tunnel_WritePacket env w s))"
  by (auto simp: tunnel_WritePacket_def intro: server_inv_emit)

lemma server_inv_removeConnState:
  assumes "server_inv s"
  shows "server_inv (removeConnState c s)"
proof -
  have "bySID_ok (removeConnState c s)"
    unfolding bySID_ok_def
  proof (intro allI impI)
    fix sid p assume a: "bySID (removeConnState c s) sid = Some p"
    then have "bySID s sid = Some p"
      by (auto simp: removeConnState_bySID split: option.splits if_splits)
    with assms obtain c' where c': "conns s c' = Some p" "sessionID (heap s p) = sid" "sid \<noteq> []"
      by (rule server_inv_sid)
    with a have "c' \<noteq> c" by (auto simp: removeConnState_bySID split: if_splits)
    with c' show "sid \<noteq> [] \<and> sessionID (heap (removeConnState c s) p) = sid
        \<and> (\<exists>c'. conns (removeConnState c s) c' = Some p)"
      by auto
  qed
  then show ?thesis using assms by (auto simp: server_inv_def conns_ok_def heap_ok_def)
qed

lemma server_inv_failConn: "server_inv s \<Longrightarrow> server_inv (failConn env c m s)"
  by (auto simp: failConn_def split_beta Let_def
      intro!: server_inv_removeConnState server_inv_emit server_inv_tcp_WriteFrame)

lemma plain_text_Nil [simp]: "plain_text []"
  by (simp add: plain_text_def)

lemma zero_state_ok [simp]: "state_ok (zero_connState\<lparr>lastSeen := t, st_conn := c\<rparr>)" "state_ok zero_connState"
  by (simp_all add: state_ok_def zero_connState_def)

lemma getConnState_inv:
  assumes "server_inv s" "getConnState env c s = (p, s')"
  shows "server_inv s'" "conns s' c = Some p" "cfg s' = cfg s"
proof -
  show "server_inv s'"
  proof (cases "conns s c")
    case None
    have fresh: "conns s c' = Some q \<Longrightarrow> q \<noteq> next_ptr s" for c' q
      using server_inv_conn(1) [OF assms(1)] by fastforce
    have "bySID s sid = Some q \<Longrightarrow> \<exists>c'. c' \<noteq> c \<and> conns s c' = Some q \<and> q \<noteq> next_ptr s
        \<and> sid \<noteq> [] \<and> sessionID (heap s q) = sid" for sid q
      using server_inv_sid [OF assms(1)] None fresh by (metis option.distinct(1))
    then have "bySID_ok s'"
      using assms(2) None unfolding bySID_ok_def getConnState_def by (force simp: Let_def)
    moreover have "conns_ok s'" using assms None fresh
      by (auto simp: getConnState_def Let_def conns_ok_def server_inv_def less_Suc_eq split: if_splits)
    ultimately show ?thesis using assms None
      by (auto simp: getConnState_def Let_def server_inv_def heap_ok_def less_Suc_eq)
  qed (use assms in \<open>auto simp: getConnState_def\<close>)
qed (use assms in \<open>auto simp: getConnState_def Let_def split: option.splits\<close>)

subsection \<open>What the reaper does\<close>

definition idle :: "int \<Rightarrow> Server \<Rightarrow> conn \<Rightarrow> bool" where
  "idle cutoff s c = (case conns s c of None \<Rightarrow> False | Some p \<Rightarrow> lastSeen (heap s p) < cutoff)"

definition collected :: "int \<Rightarrow> conn list \<Rightarrow> Server \<Rightarrow> conn list \<times> string list \<times> Server \<Rightarrow> bool" where
  "collected cutoff order s r = (case r of (cl, sids, s') \<Rightarrow>
     s' = s\<lparr>conns := (\<lambda>c. if c \<in> set order \<and> idle cutoff s c then None else conns s c)\<rparr>
     \<and> set cl = {c \<in> set order. idle cutoff s c} \<and> distinct cl
     \<and> set sids = {sid. sid \<noteq> [] \<and> (\<exists>c p. c \<in> set cl \<and> conns s c = Some p \<and> sessionID (heap s p) = sid)})"

lemma idle_other: "idle cutoff (s\<lparr>conns := (conns s)(c := None)\<rparr>) c' \<longleftrightarrow> c' \<noteq> c \<and> idle cutoff s c'"
  by (auto simp: idle_def split: option.splits)

lemma collectIdle_collected: "collected cutoff order s (collectIdle cutoff order s)"
proof (induction order arbitrary: s)
  case Nil
  then show ?case by (simp add: collected_def)
next
  case (Cons c order)
  show ?case
  proof (cases "idle cutoff s c")
    case False
    then have "collectIdle cutoff (c # order) s = collectIdle cutoff order s"
      by (simp add: idle_def split: option.splits)
    moreover have "(c' = c \<or> c' \<in> set order) \<and> idle cutoff s c' \<longleftrightarrow> c' \<in> set order \<and> idle cutoff s c'" for c'
      using False by auto
    ultimately show ?thesis using Cons.IH [of s] by (simp add: collected_def)
  next
    case True
    then obtain p where p: "conns s c = Some p" "lastSeen (heap s p) < cutoff"
      by (auto simp: idle_def split: option.splits)
    define t where "t = s\<lparr>conns := (conns s)(c := None)\<rparr>"
    obtain cl sids s' where r: "collectIdle cutoff order t = (cl, sids, s')"
      by (metis prod_cases3)
    have ih: "s' = t\<lparr>conns := (\<lambda>c. if c \<in> set order \<and> idle cutoff t c then None else conns t c)\<rparr>"
      "set cl = {c \<in> set order. idle cutoff t c}" "distinct cl"
      "set sids = {sid. sid \<noteq> [] \<and> (\<exists>c p. c \<in> set cl \<and> conns t c = Some p \<and> sessionID (heap t p) = sid)}"
      using Cons.IH [of t] by (simp_all add: collected_def r)
    have it: "idle cutoff t c' \<longleftrightarrow> c' \<noteq> c \<and> idle cutoff s c'" for c' by (simp add: t_def idle_other)
    have s': "s' = s\<lparr>conns := (\<lambda>c'. if c' \<in> set (c # order) \<and> idle cutoff s c' then None else conns s c')\<rparr>"
    proof -
      have "(\<lambda>c'. if c' \<in> set order \<and> c' \<noteq> c \<and> idle cutoff s c' then None else conns t c')
          = (\<lambda>c'. if c' \<in> set (c # order) \<and> idle cutoff s c' then None else conns s c')"
        using True by (auto simp: t_def)
      then show ?thesis by (simp add: ih(1) it) (simp add: t_def)
    qed
    have c: "c \<notin> set cl" by (simp add: ih(2) it)
    have cl: "set (c # cl) = {c' \<in> set (c # order). idle cutoff s c'}" using True by (auto simp: ih(2) it)
    have ct: "c' \<in> set cl \<Longrightarrow> conns t c' = conns s c'" for c' using c by (auto simp: t_def)
    have ht: "heap t = heap s" by (simp add: t_def)
    then have sids: "set sids = {sid. sid \<noteq> [] \<and> (\<exists>c p. c \<in> set cl \<and> conns s c = Some p \<and> sessionID (heap s p) = sid)}"
      unfolding ih(4) ht using ct by force
    have sids': "set (if sessionID (heap s p) \<noteq> [] then sessionID (heap s p) # sids else sids)
        = {sid. sid \<noteq> [] \<and> (\<exists>c' p. c' \<in> set (c # cl) \<and> conns s c' = Some p \<and> sessionID (heap s p) = sid)}"
      using p by (auto simp: sids)
    have r': "collectIdle cutoff (c # order) s
        = (c # cl, (if sessionID (heap s p) \<noteq> [] then sessionID (heap s p) # sids else sids), s')"
      using p r by (simp add: t_def)
    have "distinct (c # cl)" using c ih(3) by simp
    with s' cl sids' show ?thesis unfolding collected_def r' prod.case by blast
  qed
qed

definition reaped :: "env \<Rightarrow> conn list \<Rightarrow> Server \<Rightarrow> conn \<Rightarrow> bool" where
  "reaped env order s c \<longleftrightarrow> c \<in> set order \<and> idle (idle_cutoff env s) s c"

lemma dropIdle_result:
  assumes "0 < sc_SessionIdleSec (cfg s)"
  obtains cl where "set cl = {c. reaped env order s c}" "distinct cl"
    "effects (dropIdleConnStates env order s) = effects s @ map TCPClose cl"
    "conns (dropIdleConnStates env order s) = (\<lambda>c. if reaped env order s c then None else conns s c)"
    "heap (dropIdleConnStates env order s) = heap s" "cfg (dropIdleConnStates env order s) = cfg s"
    "next_ptr (dropIdleConnStates env order s) = next_ptr s"
    "bySID (dropIdleConnStates env order s) = (\<lambda>sid.
       if sid \<noteq> [] \<and> (\<exists>c p. reaped env order s c \<and> conns s c = Some p \<and> sessionID (heap s p) = sid)
       then None else bySID s sid)"
proof -
  obtain cl sids s' where r: "collectIdle (idle_cutoff env s) order s = (cl, sids, s')"
    by (metis prod_cases3)
  then have c: "collected (idle_cutoff env s) order s (cl, sids, s')"
    using collectIdle_collected by metis
  have d: "dropIdleConnStates env order s = fold (\<lambda>c. emit (TCPClose c)) cl (fold unbindSessionID sids s')"
    using assms(1) by (simp add: dropIdleConnStates_def r)
  show thesis
  proof (rule that [of cl])
    show "bySID (dropIdleConnStates env order s) = (\<lambda>sid.
        if sid \<noteq> [] \<and> (\<exists>c p. reaped env order s c \<and> conns s c = Some p \<and> sessionID (heap s p) = sid)
        then None else bySID s sid)"
      using c by (auto simp: d fold_unbind_bySID collected_def reaped_def fun_eq_iff)
  qed (use c in \<open>auto simp: d collected_def reaped_def\<close>)
qed

lemma dropIdle_sel:
  assumes "0 < sc_SessionIdleSec (cfg s)"
  shows "heap (dropIdleConnStates env order s) = heap s" "cfg (dropIdleConnStates env order s) = cfg s"
    "conns (dropIdleConnStates env order s) c = (if reaped env order s c then None else conns s c)"
  by (rule dropIdle_result [OF assms, where env = env and order = order], simp)+

lemma server_inv_dropIdle:
  assumes "server_inv s"
  shows "server_inv (dropIdleConnStates env order s)"
proof (cases "0 < sc_SessionIdleSec (cfg s)")
  case False
  then show ?thesis using assms by (simp add: dropIdleConnStates_def)
next
  case True
  show ?thesis
    using dropIdle_result [OF True, where order = order and env = env]
  proof cases
    case (1 cl)
    have "bySID_ok (dropIdleConnStates env order s)"
      unfolding bySID_ok_def
    proof (intro allI impI)
      fix sid p assume a: "bySID (dropIdleConnStates env order s) sid = Some p"
      then have "bySID s sid = Some p" by (auto simp: 1(8) split: if_splits)
      with assms obtain c where c: "conns s c = Some p" "sessionID (heap s p) = sid" "sid \<noteq> []"
        by (rule server_inv_sid)
      with a have "\<not> reaped env order s c"
        by (auto simp: 1(8) split: if_splits)
      with c show "sid \<noteq> [] \<and> sessionID (heap (dropIdleConnStates env order s) p) = sid
          \<and> (\<exists>c. conns (dropIdleConnStates env order s) c = Some p)"
        by (auto simp: 1(4,5))
    qed
    then show ?thesis
      using assms 1 by (auto simp: server_inv_def conns_ok_def heap_ok_def)
  qed
qed

end
