(* ===== verification/Server.thy ===== *)
theory Server
  imports ServerSessions
begin

text \<open>
  \<open>server_secure.go\<close>, \<open>server_udp_secure.go\<close> and \<open>tunnel_types.go\<close>: the handlers of the server,
  one definition per function, threading the server state. A handler reads the clock and the
  random source of its \<open>env\<close> at fixed positions: reading 0 of the clock is the one of
  \<open>getConnState\<close>, 1 sets \<open>lastSeen\<close>, 2 checks the hello; draws 0 and 1 are the padding and
  the jitter of a reply, or draw 0 a nonce or session identifier, and the rest encrypts.
\<close>

definition isIPPacket :: "bytes \<Rightarrow> bool" where
  "isIPPacket packet =
     (if length packet < 1 then False
      else let v = drop_bit 4 (packet ! 0) in v = 4 \<or> v = 6)"

definition newSessionID :: "env \<Rightarrow> string" where
  "newSessionID env = (case read_full (env_rng env 0) 12 of Inl e \<Rightarrow> [] | Inr buf \<Rightarrow> RawURLEncodeToString buf)"

subsection \<open>Sending\<close>

definition sendSecurePayload :: "env \<Rightarrow> rng \<Rightarrow> ptr \<Rightarrow> bytes \<Rightarrow> Server \<Rightarrow> bool \<times> Server" where
  "sendSecurePayload env rng p payload s =
     (case Encrypt rng (sessionKey (heap s p)) payload of
        Inl e \<Rightarrow> (False, s)
      | Inr enc \<Rightarrow>
          tcp_WriteFrame env (st_conn (heap s p))
            (DataFrame_marshal \<lparr>data_Type = TypeData, data_Ciphertext = enc\<rparr>) s)"

definition sendSecurePayloadV2 ::
  "env \<Rightarrow> rng \<Rightarrow> ptr \<Rightarrow> 8 word \<Rightarrow> 32 word \<Rightarrow> string \<Rightarrow> bytes \<Rightarrow> Server \<Rightarrow> bool \<times> Server" where
  "sendSecurePayloadV2 env rng p channel seq mode payload s =
     (case BuildDataFrameV2 rng (sessionKey (heap s p)) channel seq mode payload 64 of
        Inl e \<Rightarrow> (False, s)
      | Inr raw \<Rightarrow> tcp_WriteFrame env (st_conn (heap s p)) raw s)"

text \<open>\<open>if err := send(...); err != nil { s.removeConnState(conn) }\<close>\<close>

definition remove_on_error :: "conn \<Rightarrow> bool \<times> Server \<Rightarrow> Server" where
  "remove_on_error c r = (case r of (ok, s) \<Rightarrow> if ok then s else removeConnState c s)"

subsection \<open>Handshake handlers\<close>

definition handleHelloFrame :: "env \<Rightarrow> conn \<Rightarrow> bytes \<Rightarrow> ptr \<Rightarrow> Server \<Rightarrow> Server" where
  "handleHelloFrame env c payload p s =
     (case ParseHello payload of
        Inl e \<Rightarrow> failConn env c ''invalid hello'' s
      | Inr (hello, clientNonce) \<Rightarrow>
      if \<not> ValidateTimestamp (clock env 2 div 1000000000) (Timestamp hello) (sc_HandshakeSkewSec (cfg s))
      then failConn env c ''stale hello timestamp'' s
      else if \<not> VerifyHelloAuth (sc_PreSharedKey (cfg s)) hello clientNonce
      then failConn env c ''hello auth failed'' s
      else (case SharedSecret (env_x25519 env) (sc_ServerPrivateKey (cfg s)) (ClientPublicKey hello) of
        Inl e \<Rightarrow> failConn env c ''handshake failed'' s
      | Inr shared \<Rightarrow>
      (case read_full (env_rng env 0) 16 of
        Inl e \<Rightarrow> failConn env c ''nonce failed'' s
      | Inr serverNonce \<Rightarrow>
        (let key = DeriveSessionKey shared clientNonce serverNonce;
             s = upd p (\<lambda>st. st\<lparr>sessionKey := key, st_conn := Some c,
                              protoVersion := hello_ProtoVersion hello\<rparr>) s
         in if hello_ProtoVersion hello = ''v2''
            then let challenge = BuildChallenge key serverNonce;
                     s = upd p (\<lambda>st. st\<lparr>pendingTicket := Ticket challenge, awaitAuthV2 := True\<rparr>) s
                 in remove_on_error c (tcp_WriteFrame env (Some c) (ChallengeFrame_marshal challenge) s)
            else let s = upd p (\<lambda>st. st\<lparr>secureReady := True\<rparr>) s;
                     ack = BuildAck key serverNonce
                 in remove_on_error c (tcp_WriteFrame env (Some c) (AckFrame_marshal ack) s)))))"

definition handleAuthV2Frame :: "env \<Rightarrow> conn \<Rightarrow> bytes \<Rightarrow> ptr \<Rightarrow> Server \<Rightarrow> Server" where
  "handleAuthV2Frame env c payload p s =
     (case AuthFrame_unmarshal payload of
        Inl e \<Rightarrow> failConn env c ''invalid auth_v2'' s
      | Inr auth \<Rightarrow>
        if auth_Type auth \<noteq> TypeAuth \<or> auth_ProtoVersion auth \<noteq> ''v2''
        then failConn env c ''bad auth_v2 frame'' s
        else if \<not> VerifyAuthProof (sessionKey (heap s p)) (pendingTicket (heap s p)) (Proof auth)
        then failConn env c ''auth_v2 proof mismatch'' s
        else let sid = newSessionID env;
                 s = upd p (\<lambda>st. st\<lparr>awaitAuthV2 := False, pendingTicket := [], secureReady := True,
                                  sessionID := sid\<rparr>) s;
                 s = bindSessionID sid p s;
                 ready = BuildReady (sessionKey (heap s p)) sid
             in remove_on_error c (tcp_WriteFrame env (Some c) (ReadyFrame_marshal ready) s))"

definition handlePreSecureFrame :: "env \<Rightarrow> conn \<Rightarrow> bytes \<Rightarrow> ptr \<Rightarrow> Server \<Rightarrow> Server" where
  "handlePreSecureFrame env c payload p s =
     (if awaitAuthV2 (heap s p) then handleAuthV2Frame env c payload p s
      else handleHelloFrame env c payload p s)"

subsection \<open>Data handlers\<close>

definition handleDataFrameV1 :: "env \<Rightarrow> conn \<Rightarrow> bytes \<Rightarrow> ptr \<Rightarrow> Server \<Rightarrow> Server" where
  "handleDataFrameV1 env c payload p s =
     (case DataFrame_unmarshal payload of
        Inl e \<Rightarrow> failConn env c ''bad secure frame'' s
      | Inr req \<Rightarrow>
        if data_Type req \<noteq> TypeData then failConn env c ''bad secure frame'' s
        else (case Decrypt (sessionKey (heap s p)) (data_Ciphertext req) of
          Inl e \<Rightarrow> failConn env c ''decrypt failed'' s
        | Inr plain \<Rightarrow>
          if int (length plain) > sc_MaxPacketSize (cfg s) then failConn env c ''payload too large'' s
          else if tunnel s \<and> isIPPacket plain
          then let s = upd p (\<lambda>st. st\<lparr>tunnelEnabled := True\<rparr>) s;
                   (ok, s) = tunnel_WritePacket env plain s
               in if ok then s else failConn env c ''tunnel write failed'' s
          else let reply = decorateReply env s plain
               in remove_on_error c (sendSecurePayload env (rng_skip 2 (env_rng env)) p reply s)))"

definition handleDataFrameV2 :: "env \<Rightarrow> conn \<Rightarrow> bytes \<Rightarrow> ptr \<Rightarrow> Server \<Rightarrow> Server" where
  "handleDataFrameV2 env c payload p s =
     (case ParseDataFrameV2 (sessionKey (heap s p)) payload of
        Inl e \<Rightarrow> failConn env c ''bad v2 data frame'' s
      | Inr (frame, plain) \<Rightarrow>
        if int (length plain) > sc_MaxPacketSize (cfg s) then failConn env c ''payload too large'' s
        else if tunnel s \<and> df_Channel frame = 1 \<and> isIPPacket plain
        then let s = upd p (\<lambda>st. st\<lparr>tunnelEnabled := True\<rparr>) s;
                 (ok, s) = tunnel_WritePacket env plain s
             in if ok then s else failConn env c ''tunnel write failed'' s
        else let reply = decorateReply env s plain;
                 mode = SelectObfsMode (df_Sequence frame + 1) (length reply)
             in remove_on_error c
                  (sendSecurePayloadV2 env (rng_skip 2 (env_rng env)) p (df_Channel frame)
                     (df_Sequence frame + 1) mode reply s))"

definition handleDataFrame :: "env \<Rightarrow> conn \<Rightarrow> bytes \<Rightarrow> ptr \<Rightarrow> Server \<Rightarrow> Server" where
  "handleDataFrame env c payload p s =
     (if protoVersion (heap s p) = ''v2'' then handleDataFrameV2 env c payload p s
      else handleDataFrameV1 env c payload p s)"

text \<open>
  \<open>handleTCPPayload\<close>. Its second half, after \<open>getConnState\<close> has returned and released the lock,
  is a definition of its own: the reaper may run between the two.
\<close>

definition handleTCPState :: "env \<Rightarrow> conn \<Rightarrow> bytes \<Rightarrow> ptr \<Rightarrow> Server \<Rightarrow> Server" where
  "handleTCPState env c payload p s =
     (let s = upd p (\<lambda>st. st\<lparr>lastSeen := clock env 1\<rparr>) s
      in if \<not> secureReady (heap s p) then handlePreSecureFrame env c payload p s
         else handleDataFrame env c payload p s)"

definition handleTCPPayload :: "env \<Rightarrow> conn \<Rightarrow> bytes \<Rightarrow> Server \<Rightarrow> Server" where
  "handleTCPPayload env c payload s =
     (if length payload = 0 then failConn env c ''empty frame'' s
      else if sc_ServerPrivateKey (cfg s) = []
      then (if int (length payload) > sc_MaxPacketSize (cfg s) then failConn env c ''frame too large'' s
            else snd (tcp_WriteFrame env (Some c) (decorateReply env s payload) s))
      else if int (length payload) > wrap64 (sc_MaxPacketSize (cfg s) * 8)
      then failConn env c ''frame too large'' s
      else let (p, s) = getConnState env c s in handleTCPState env c payload p s)"

subsection \<open>Datagrams\<close>

definition handleUDPPayload :: "env \<Rightarrow> UDPAddr \<Rightarrow> bytes \<Rightarrow> Server \<Rightarrow> Server" where
  "handleUDPPayload env a payload s =
     (if length payload = 0 then s
      else if \<not> udpSrv s then s
      else if sc_ServerPrivateKey (cfg s) = []
      then (if int (length payload) \<le> sc_MaxPacketSize (cfg s)
            then snd (udp_WriteTo env a (decorateReply env s payload) s) else s)
      else if int (length payload) > wrap64 (sc_MaxPacketSize (cfg s) * 8) then s
      else (case ParseDatagramSessionID payload of
        Inl e \<Rightarrow> s
      | Inr sid \<Rightarrow>
      (case findStateBySessionID sid s of
        None \<Rightarrow> s
      | Some p \<Rightarrow>
        if \<not> secureReady (heap s p) \<or> protoVersion (heap s p) \<noteq> ''v2'' then s
        else let s = upd p (\<lambda>st. st\<lparr>lastSeen := clock env 1, udpAddr := Some a\<rparr>) s;
                 key = sessionKey (heap s p); own = sessionID (heap s p)
             in (case ParseDatagramFrameV2 key payload of
                Inl e \<Rightarrow> s
              | Inr (frame, plain) \<Rightarrow>
                if int (length plain) > sc_MaxPacketSize (cfg s) then s
                else if dg_Mode frame = ''bind''
                then (case BuildDatagramFrameV2 (env_rng env) key own 2 (dg_Sequence frame + 1)
                             ''obfs-plane'' (bytes_of_str ''udp-bound'') 24 of
                        Inl e \<Rightarrow> s
                      | Inr reply \<Rightarrow> snd (udp_WriteTo env a reply s))
                else if tunnel s \<and> dg_Channel frame = 1 \<and> isIPPacket plain
                then snd (tunnel_WritePacket env plain (upd p (\<lambda>st. st\<lparr>tunnelEnabled := True\<rparr>) s))
                else let reply = decorateReply env s plain;
                         mode = SelectObfsMode (dg_Sequence frame + 1) (length reply)
                     in (case BuildDatagramFrameV2 (rng_skip 2 (env_rng env)) key own (dg_Channel frame)
                                (dg_Sequence frame + 1) mode reply 64 of
                           Inl e \<Rightarrow> s
                         | Inr resp \<Rightarrow> snd (udp_WriteTo env a resp s))))))"

subsection \<open>Tunnel to client\<close>

definition uint32_of :: "int \<Rightarrow> 32 word" where
  "uint32_of n = word_of_int n"

text \<open>One round of \<open>relayTunnelToClient\<close>; \<open>order\<close> is the order the map is visited in.\<close>

definition relayTunnelToClient :: "env \<Rightarrow> conn list \<Rightarrow> bytes result \<Rightarrow> Server \<Rightarrow> Server" where
  "relayTunnelToClient env order read s =
     (case read of
        Inl e \<Rightarrow> s
      | Inr packet \<Rightarrow>
        if length packet = 0 then s
        else (case findSecureConnState order s of
          None \<Rightarrow> s
        | Some p \<Rightarrow>
          let st = heap s p in
          if protoVersion st = ''v2''
          then let tcp = (\<lambda>s. snd (sendSecurePayloadV2 env (rng_skip 3 (env_rng env)) p 1
                                     (uint32_of (clock env 2)) ''obfs-plane'' packet s))
               in (case udpAddr st of
                     None \<Rightarrow> tcp s
                   | Some a \<Rightarrow>
                     if udpSrv s \<and> sessionID st \<noteq> []
                     then (case BuildDatagramFrameV2 (env_rng env) (sessionKey st) (sessionID st) 1
                                  (uint32_of (clock env 1))
                                  (SelectObfsMode (uint32_of (clock env 0)) (length packet)) packet 48 of
                             Inl e \<Rightarrow> tcp s
                           | Inr raw \<Rightarrow>
                             (case udp_WriteTo env a raw s of
                                (True, s) \<Rightarrow> s
                              | (False, s) \<Rightarrow> tcp s))
                     else tcp s)
          else snd (sendSecurePayload env (env_rng env) p packet s)))"

subsection \<open>Every handler keeps the invariant\<close>

lemma server_inv_remove_on_error:
  "server_inv (snd r) \<Longrightarrow> server_inv (remove_on_error c r)"
  by (cases r) (auto simp: remove_on_error_def intro: server_inv_removeConnState)

lemma server_inv_reply:
  "server_inv s \<Longrightarrow> server_inv (remove_on_error c (tcp_WriteFrame env (Some c) w s))"
  by (intro server_inv_remove_on_error server_inv_tcp_WriteFrame) simp_all

lemma server_inv_sendSecurePayload:
  "server_inv s \<Longrightarrow> st_conn (heap s p) \<noteq> None \<Longrightarrow> server_inv (snd (sendSecurePayload env r p w s))"
  by (auto simp: sendSecurePayload_def intro: server_inv_tcp_WriteFrame split: sum.splits)

lemma server_inv_sendSecurePayloadV2:
  "server_inv s \<Longrightarrow> st_conn (heap s p) \<noteq> None \<Longrightarrow>
     server_inv (snd (sendSecurePayloadV2 env r p ch seq mode w s))"
  by (auto simp: sendSecurePayloadV2_def intro: server_inv_tcp_WriteFrame split: sum.splits)

lemma Ticket_nonempty [simp]: "Ticket (BuildChallenge k n) \<noteq> []"
proof -
  have "length (Ticket (BuildChallenge k n)) = 44" by (simp add: BuildChallenge_def length_StdEncode)
  then show ?thesis by auto
qed

lemma server_inv_handleHelloFrame:
  assumes "server_inv s" "conns s c = Some p" "\<not> secureReady (heap s p)" "\<not> awaitAuthV2 (heap s p)"
  shows "server_inv (handleHelloFrame env c payload p s)"
proof -
  note p = server_inv_conn [OF assms(1,2)]
  have "server_inv (upd p f s)" if "state_ok (f (heap s p))" "st_conn (f (heap s p)) = Some c"
    "sessionID (f (heap s p)) = sessionID (heap s p)" for f
    using that p by (intro server_inv_upd [OF assms(1)]) simp_all
  then show ?thesis
    using assms p
    by (auto simp: handleHelloFrame_def Let_def state_ok_def
        intro!: server_inv_failConn server_inv_reply server_inv_upd
        split: sum.splits prod.splits)
qed

lemma newSessionID_plain [simp]: "plain_text (newSessionID env)"
  by (simp add: newSessionID_def split: sum.splits)

lemma server_inv_ready:
  assumes "server_inv s" "conns s c = Some p" "\<not> secureReady (heap s p)" "awaitAuthV2 (heap s p)"
    and "plain_text sid"
  shows "server_inv (bindSessionID sid p (upd p (\<lambda>st. st\<lparr>awaitAuthV2 := False, pendingTicket := [],
           secureReady := True, sessionID := sid\<rparr>) s))" (is "server_inv ?s")
proof -
  note p = server_inv_conn [OF assms(1,2)]
  have "sessionID (heap s p) = []" using p(3) assms(3) by (auto simp: state_ok_def)
  then have "bySID s sid' \<noteq> Some p" for sid' using server_inv_sid [OF assms(1)] by metis
  then have "bySID_ok ?s"
    using assms(1,2) unfolding server_inv_def bySID_ok_def by (simp split: if_splits) blast
  moreover have "state_ok (heap ?s p)" using p(3) assms(3-5) by (auto simp: state_ok_def)
  ultimately show ?thesis using assms(1)
    by (simp add: server_inv_def conns_ok_def heap_ok_def)
qed

lemma server_inv_handleAuthV2Frame:
  assumes "server_inv s" "conns s c = Some p" "\<not> secureReady (heap s p)" "awaitAuthV2 (heap s p)"
  shows "server_inv (handleAuthV2Frame env c payload p s)"
  using assms server_inv_ready [OF assms newSessionID_plain, of env]
  by (auto simp: handleAuthV2Frame_def Let_def
      intro!: server_inv_failConn server_inv_reply split: sum.splits)

lemma server_inv_tunnel:
  assumes "server_inv s" "conns s c = Some p" "secureReady (heap s p)"
  shows "server_inv (upd p (\<lambda>st. st\<lparr>tunnelEnabled := True\<rparr>) s)"
  using assms server_inv_conn [OF assms(1,2)]
  by (intro server_inv_upd) (simp_all add: state_ok_def)

lemma server_inv_tunnel_write:
  assumes "server_inv s" "conns s c = Some p" "secureReady (heap s p)"
    and "tunnel_WritePacket env w (upd p (\<lambda>st. st\<lparr>tunnelEnabled := True\<rparr>) s) = (ok, s')"
  shows "server_inv s'"
  using server_inv_tunnel_WritePacket [OF server_inv_tunnel [OF assms(1-3)], of env w] assms(4) by simp

lemma server_inv_handleDataFrameV1:
  assumes "server_inv s" "conns s c = Some p" "secureReady (heap s p)"
  shows "server_inv (handleDataFrameV1 env c payload p s)"
  using assms server_inv_conn [OF assms(1,2)]
  by (auto simp: handleDataFrameV1_def Let_def
      intro!: server_inv_failConn server_inv_remove_on_error server_inv_sendSecurePayload
      intro: server_inv_tunnel_write split: sum.splits prod.splits)

lemma server_inv_handleDataFrameV2:
  assumes "server_inv s" "conns s c = Some p" "secureReady (heap s p)"
  shows "server_inv (handleDataFrameV2 env c payload p s)"
  using assms server_inv_conn [OF assms(1,2)]
  by (auto simp: handleDataFrameV2_def Let_def
      intro!: server_inv_failConn server_inv_remove_on_error server_inv_sendSecurePayloadV2
      intro: server_inv_tunnel_write split: sum.splits prod.splits)

lemma server_inv_lastSeen:
  assumes "server_inv s" "conns s c = Some p"
  shows "server_inv (upd p (\<lambda>st. st\<lparr>lastSeen := t\<rparr>) s)"
  using assms server_inv_conn [OF assms]
  by (intro server_inv_upd) (simp_all add: state_ok_def)

lemma server_inv_handleTCPState:
  assumes "server_inv s" "conns s c = Some p"
  shows "server_inv (handleTCPState env c payload p s)"
  using server_inv_lastSeen [OF assms, of "clock env 1"] assms(2)
  by (auto simp: handleTCPState_def handlePreSecureFrame_def handleDataFrame_def Let_def
      intro!: server_inv_handleHelloFrame server_inv_handleAuthV2Frame server_inv_handleDataFrameV1
        server_inv_handleDataFrameV2)

lemma server_inv_handleTCPPayload:
  assumes "server_inv s"
  shows "server_inv (handleTCPPayload env c payload s)"
  using assms
  by (auto simp: handleTCPPayload_def
      intro!: server_inv_failConn server_inv_tcp_WriteFrame
      intro: server_inv_handleTCPState dest: getConnState_inv split: prod.splits)

lemma server_inv_touch:
  assumes "server_inv s" "bySID s sid = Some p"
  shows "server_inv (upd p (\<lambda>st. st\<lparr>lastSeen := t, udpAddr := Some a\<rparr>) s)"
    and "server_inv (upd p (\<lambda>st. st\<lparr>tunnelEnabled := True\<rparr>) (upd p (\<lambda>st. st\<lparr>lastSeen := t, udpAddr := Some a\<rparr>) s))"
proof -
  obtain c where c: "conns s c = Some p" "sessionID (heap s p) = sid" "sid \<noteq> []" "state_ok (heap s p)"
    "secureReady (heap s p)"
    using server_inv_sid [OF assms] by metis
  show *: "server_inv (upd p (\<lambda>st. st\<lparr>lastSeen := t, udpAddr := Some a\<rparr>) s)"
    using assms(1) c by (intro server_inv_upd) (simp_all add: state_ok_def)
  show "server_inv (upd p (\<lambda>st. st\<lparr>tunnelEnabled := True\<rparr>) (upd p (\<lambda>st. st\<lparr>lastSeen := t, udpAddr := Some a\<rparr>) s))"
    using * c by (intro server_inv_tunnel) simp_all
qed

lemma server_inv_handleUDPPayload:
  assumes "server_inv s"
  shows "server_inv (handleUDPPayload env a payload s)"
  using assms
  by (auto simp: handleUDPPayload_def Let_def findStateBySessionID_def
      intro!: server_inv_udp_WriteTo server_inv_tunnel_WritePacket server_inv_touch
      split: sum.splits prod.splits option.splits)

lemma findSecureConnState_Some:
  "findSecureConnState order s = Some p \<Longrightarrow> \<exists>c \<in> set order. conns s c = Some p \<and>
     secureReady (heap s p) \<and> tunnelEnabled (heap s p) \<and> st_conn (heap s p) \<noteq> None"
  by (induction order) (auto split: option.splits if_splits)

lemma server_inv_relay:
  assumes "server_inv s"
  shows "server_inv (relayTunnelToClient env order rd s)"
proof -
  have udp: "server_inv s'" "heap s' = heap s" if "udp_WriteTo env a w s = (ok, s')" for a w ok s'
    using server_inv_udp_WriteTo [OF assms, of env a w] that
    by (auto simp: udp_WriteTo_def split: if_splits)
  show ?thesis
    using assms udp
    by (auto simp: relayTunnelToClient_def Let_def
        dest!: findSecureConnState_Some
        intro!: server_inv_sendSecurePayload server_inv_sendSecurePayloadV2
        split: sum.splits prod.splits option.splits bool.splits)
qed

subsection \<open>What the handlers leave alone\<close>

lemma failConn_sel [simp]:
  "cfg (failConn env c m s) = cfg s" "heap (failConn env c m s) = heap s"
  "conns (failConn env c m s) = (conns s)(c := None)" "next_ptr (failConn env c m s) = next_ptr s"
  by (simp_all add: failConn_def split_beta Let_def)

lemma remove_on_error_heap [simp]: "heap (remove_on_error c r) = heap (snd r)"
  by (cases r) (simp add: remove_on_error_def)

lemma send_sel [simp]:
  "heap (snd (sendSecurePayload env r p w s)) = heap s"
  "heap (snd (sendSecurePayloadV2 env r p ch seq mode w s)) = heap s"
  by (simp_all add: sendSecurePayload_def sendSecurePayloadV2_def split: sum.splits)

lemma udp_WriteTo_sel [simp]:
  "heap (snd (udp_WriteTo env a w s)) = heap s" "conns (snd (udp_WriteTo env a w s)) = conns s"
  "bySID (snd (udp_WriteTo env a w s)) = bySID s"
  by (simp_all add: udp_WriteTo_def)

lemma tunnel_WritePacket_sel [simp]:
  "heap (snd (tunnel_WritePacket env w s)) = heap s" "conns (snd (tunnel_WritePacket env w s)) = conns s"
  "bySID (snd (tunnel_WritePacket env w s)) = bySID s"
  by (simp_all add: tunnel_WritePacket_def)

subsection \<open>Who becomes ready\<close>

definition hello_accepted :: "env \<Rightarrow> Server \<Rightarrow> HelloFrame \<Rightarrow> bytes \<Rightarrow> bool" where
  "hello_accepted env s hello nonce \<longleftrightarrow>
     ValidateTimestamp (clock env 2 div 1000000000) (Timestamp hello) (sc_HandshakeSkewSec (cfg s))
     \<and> VerifyHelloAuth (sc_PreSharedKey (cfg s)) hello nonce"

definition auth_accepted :: "connState \<Rightarrow> bytes \<Rightarrow> bool" where
  "auth_accepted st payload \<longleftrightarrow> (\<exists>auth. AuthFrame_unmarshal payload = Inr auth \<and> auth_Type auth = TypeAuth
     \<and> auth_ProtoVersion auth = ''v2'' \<and> VerifyAuthProof (sessionKey st) (pendingTicket st) (Proof auth))"

lemma handleHelloFrame_heap:
  assumes "heap (handleHelloFrame env c payload p s) q \<noteq> heap s q"
  shows "q = p \<and> (\<exists>hello nonce. ParseHello payload = Inr (hello, nonce) \<and> hello_accepted env s hello nonce
    \<and> secureReady (heap (handleHelloFrame env c payload p s) p)
        = (secureReady (heap s p) \<or> hello_ProtoVersion hello \<noteq> ''v2''))"
  using assms
  by (auto simp: handleHelloFrame_def Let_def hello_accepted_def split: sum.splits prod.splits if_splits)

lemma handleAuthV2Frame_heap:
  assumes "heap (handleAuthV2Frame env c payload p s) q \<noteq> heap s q"
  shows "q = p \<and> auth_accepted (heap s p) payload"
  using assms
  by (auto simp: handleAuthV2Frame_def Let_def auth_accepted_def split: sum.splits if_splits)

lemma handleDataFrame_ready:
  "secureReady (heap (handleDataFrame env c payload p s) q) = secureReady (heap s q)"
  by (auto simp: handleDataFrame_def handleDataFrameV1_def handleDataFrameV2_def Let_def split_beta
      split: sum.splits if_splits)

text \<open>
  A connection becomes ready by one of two frames only: a hello of version 1 that passed the
  checks, or the proof for the ticket of an accepted hello of version 2.
\<close>

lemma handleTCPState_touch:
  "handleTCPState env c payload p s =
     (if \<not> secureReady (heap s p)
      then handlePreSecureFrame env c payload p (upd p (\<lambda>st. st\<lparr>lastSeen := clock env 1\<rparr>) s)
      else handleDataFrame env c payload p (upd p (\<lambda>st. st\<lparr>lastSeen := clock env 1\<rparr>) s))"
  by (simp add: handleTCPState_def Let_def)

lemma ready_only_by_handshake:
  assumes "\<not> secureReady (heap s q)" "secureReady (heap (handleTCPState env c payload p s) q)"
  shows "q = p" "(\<exists>hello nonce. ParseHello payload = Inr (hello, nonce) \<and> hello_accepted env s hello nonce
      \<and> hello_ProtoVersion hello \<noteq> ''v2'' \<and> \<not> awaitAuthV2 (heap s p))
    \<or> (awaitAuthV2 (heap s p) \<and> auth_accepted (heap s p) payload)"
proof -
  define t where "t = upd p (\<lambda>st. st\<lparr>lastSeen := clock env 1\<rparr>) s"
  have t: "secureReady (heap t q') = secureReady (heap s q')" "awaitAuthV2 (heap t q') = awaitAuthV2 (heap s q')"
    "auth_accepted (heap t q') = auth_accepted (heap s q')" "hello_accepted env t = hello_accepted env s" for q'
    by (auto simp: t_def auth_accepted_def hello_accepted_def fun_eq_iff)
  note * = handleTCPState_touch [of env c payload p s, folded t_def]
  have ready: "secureReady (heap (handlePreSecureFrame env c payload p t) q)" "\<not> secureReady (heap t p)"
    using assms unfolding * by (auto simp: handleDataFrame_ready t split: if_splits)
  have ne: "heap (handlePreSecureFrame env c payload p t) q \<noteq> heap t q"
    using ready(1) assms(1) t(1) by metis
  show "q = p" and "(\<exists>hello nonce. ParseHello payload = Inr (hello, nonce) \<and> hello_accepted env s hello nonce
      \<and> hello_ProtoVersion hello \<noteq> ''v2'' \<and> \<not> awaitAuthV2 (heap s p))
    \<or> (awaitAuthV2 (heap s p) \<and> auth_accepted (heap s p) payload)"
    using ready ne handleHelloFrame_heap [of env c payload p t q] handleAuthV2Frame_heap [of env c payload p t q]
    by (auto simp: handlePreSecureFrame_def t split: if_splits)
qed

subsection \<open>What reaches the tunnel\<close>

text \<open>The packets written to the tunnel so far.\<close>

definition tunnel_log :: "Server \<Rightarrow> bytes list" where
  "tunnel_log s = List.map_filter (\<lambda>e. case e of TunWrite w \<Rightarrow> Some w | _ \<Rightarrow> None) (effects s)"

lemma tunnel_log_emit [simp]:
  "tunnel_log (emit e s) = tunnel_log s @ (case e of TunWrite w \<Rightarrow> [w] | _ \<Rightarrow> [])"
  by (simp add: tunnel_log_def map_filter_def split: effect.splits)

lemma tunnel_log_other [simp]:
  "tunnel_log (upd p f s) = tunnel_log s" "tunnel_log (removeConnState c s) = tunnel_log s"
  "tunnel_log (bindSessionID sid p s) = tunnel_log s"
  by (simp_all add: tunnel_log_def)

lemma tunnel_log_tcp [simp]: "tunnel_log (snd (tcp_WriteFrame env c w s)) = tunnel_log s"
  by (auto simp: tcp_WriteFrame_def split: sum.splits option.splits)

lemma tunnel_log_udp [simp]: "tunnel_log (snd (udp_WriteTo env a w s)) = tunnel_log s"
  by (auto simp: udp_WriteTo_def)

lemma tunnel_log_fail [simp]: "tunnel_log (failConn env c m s) = tunnel_log s"
  by (simp add: failConn_def split_beta Let_def)

lemma tunnel_log_remove_on_error [simp]: "tunnel_log (remove_on_error c r) = tunnel_log (snd r)"
  by (cases r) (simp add: remove_on_error_def)

lemma tunnel_log_send [simp]:
  "tunnel_log (snd (sendSecurePayload env r p w s)) = tunnel_log s"
  "tunnel_log (snd (sendSecurePayloadV2 env r p ch seq mode w s)) = tunnel_log s"
  by (simp_all add: sendSecurePayload_def sendSecurePayloadV2_def split: sum.splits)

lemma tunnel_log_getConnState [simp]: "tunnel_log (snd (getConnState env c s)) = tunnel_log s"
  by (simp add: getConnState_def Let_def tunnel_log_def split: option.splits)

lemma tunnel_log_handshake [simp]: "tunnel_log (handlePreSecureFrame env c payload p s) = tunnel_log s"
  by (simp add: handlePreSecureFrame_def handleHelloFrame_def handleAuthV2Frame_def Let_def
      split: sum.splits prod.splits)

text \<open>The packet a frame carries under a session key, for a connection of each version.\<close>

definition carries :: "connState \<Rightarrow> bytes \<Rightarrow> bytes \<Rightarrow> bool" where
  "carries st payload w \<longleftrightarrow>
     (if protoVersion st = ''v2''
      then \<exists>frame. ParseDataFrameV2 (sessionKey st) payload = Inr (frame, w) \<and> df_Channel frame = 1
      else \<exists>req. DataFrame_unmarshal payload = Inr req \<and> data_Type req = TypeData
             \<and> Decrypt (sessionKey st) (data_Ciphertext req) = Inr w)"

lemma tunnel_log_WritePacket:
  "tunnel_log (snd (tunnel_WritePacket env w s)) = tunnel_log s @ (if tun_ok env w then [w] else [])"
  by (simp add: tunnel_WritePacket_def)

lemma tunnel_log_DataFrame:
  "tunnel_log (handleDataFrame env c payload p s) = tunnel_log s \<or>
     (\<exists>w. tunnel_log (handleDataFrame env c payload p s) = tunnel_log s @ [w] \<and> carries (heap s p) payload w
        \<and> isIPPacket w \<and> int (length w) \<le> sc_MaxPacketSize (cfg s) \<and> tunnel s)"
  by (auto simp: handleDataFrame_def handleDataFrameV1_def handleDataFrameV2_def Let_def split_beta
      carries_def tunnel_log_WritePacket split: sum.splits)

lemma tunnel_log_TCPState:
  "tunnel_log (handleTCPState env c payload p s) = tunnel_log s \<or>
     (\<exists>w. tunnel_log (handleTCPState env c payload p s) = tunnel_log s @ [w] \<and> secureReady (heap s p)
        \<and> carries (heap s p) payload w \<and> isIPPacket w \<and> int (length w) \<le> sc_MaxPacketSize (cfg s))"
proof -
  define t where "t = upd p (\<lambda>st. st\<lparr>lastSeen := clock env 1\<rparr>) s"
  have "tunnel_log t = tunnel_log s" "carries (heap t p) = carries (heap s p)" "cfg t = cfg s"
    by (simp_all add: t_def carries_def fun_eq_iff)
  then show ?thesis
    using tunnel_log_DataFrame [of env c payload p t]
    by (auto simp: handleTCPState_touch [of env c payload p s, folded t_def])
qed

text \<open>A whole frame on a connection: the tunnel gets nothing, or the one packet of a ready peer.\<close>

lemma tunnel_log_TCP:
  assumes "server_inv s"
  shows "tunnel_log (handleTCPPayload env c payload s) = tunnel_log s \<or>
     (\<exists>w p. tunnel_log (handleTCPPayload env c payload s) = tunnel_log s @ [w] \<and> conns s c = Some p
        \<and> secureReady (heap s p) \<and> carries (heap s p) payload w \<and> isIPPacket w
        \<and> int (length w) \<le> sc_MaxPacketSize (cfg s))"
proof (cases "conns s c")
  case None
  have "\<not> secureReady (heap (snd (getConnState env c s)) (fst (getConnState env c s)))"
    using None by (simp add: getConnState_def zero_connState_def Let_def)
  then have "tunnel_log (handleTCPPayload env c payload s) = tunnel_log s"
    using tunnel_log_TCPState [of env c payload "fst (getConnState env c s)" "snd (getConnState env c s)"]
    by (auto simp: handleTCPPayload_def split_beta Let_def)
  then show ?thesis ..
next
  case (Some p)
  then show ?thesis
    using tunnel_log_TCPState [of env c payload p s]
    by (auto simp: handleTCPPayload_def getConnState_def split_beta Let_def)
qed

lemma tunnel_log_UDP:
  "tunnel_log (handleUDPPayload env a payload s) = tunnel_log s \<or>
     (\<exists>w p sid d. tunnel_log (handleUDPPayload env a payload s) = tunnel_log s @ [w]
        \<and> ParseDatagramSessionID payload = Inr sid \<and> bySID s sid = Some p \<and> secureReady (heap s p)
        \<and> ParseDatagramFrameV2 (sessionKey (heap s p)) payload = Inr (d, w) \<and> dg_SessionID d = sid
        \<and> dg_Channel d = 1 \<and> isIPPacket w \<and> int (length w) \<le> sc_MaxPacketSize (cfg s))"
  by (auto simp: handleUDPPayload_def Let_def split_beta findStateBySessionID_def tunnel_log_WritePacket
      dest: ParseDatagramSessionID_of_frame split: sum.splits option.splits if_splits)

end
