(* ===== verification/Systems.thy ===== *)
theory Systems
  imports Main
begin

text \<open>
  The interface of a component that runs: initial states, a step per event, an invariant. What
  every run inherits from one step is proved here once; the server, the policy engine and the
  panel store instantiate it with their own steps.
\<close>

locale transition_system =
  fixes init :: "'s \<Rightarrow> bool"
    and step :: "'e \<Rightarrow> 's \<Rightarrow> 's"
    and inv :: "'s \<Rightarrow> bool"
  assumes init_inv: "init s \<Longrightarrow> inv s"
    and step_inv: "inv s \<Longrightarrow> inv (step e s)"
begin

lemma run_inv: "inv s \<Longrightarrow> inv (fold step evs s)"
  by (induction evs arbitrary: s) (simp_all add: step_inv)

lemma reach_inv: "init s \<Longrightarrow> inv (fold step evs s)"
  by (intro run_inv init_inv)

lemma reach_rule: "init s \<Longrightarrow> (\<And>t. inv t \<Longrightarrow> P t) \<Longrightarrow> P (fold step evs s)"
  using reach_inv by blast

end

text \<open>
  A system with a set of items (packets handed out, live tokens) where every item a step adds is
  justified by the state and event of that very step. Then every item present after a run was
  there before, or was justified by some step of the run.
\<close>

locale sourced_system = transition_system init step inv
  for init :: "'s \<Rightarrow> bool" and step :: "'e \<Rightarrow> 's \<Rightarrow> 's" and inv :: "'s \<Rightarrow> bool" +
  fixes items :: "'s \<Rightarrow> 'l set"
    and justified :: "'e \<Rightarrow> 's \<Rightarrow> 'l \<Rightarrow> bool"
  assumes step_items: "inv s \<Longrightarrow> x \<in> items (step e s) \<Longrightarrow> x \<in> items s \<or> justified e s x"
begin

lemma sourced:
  assumes "inv s" "x \<in> items (fold step evs s)"
  shows "x \<in> items s \<or> (\<exists>before e after. evs = before @ e # after \<and> justified e (fold step before s) x)"
  using assms(2)
proof (induction evs rule: rev_induct)
  case Nil
  then show ?case by simp
next
  case (snoc e evs)
  then have "x \<in> items (step e (fold step evs s))" by simp
  then consider "x \<in> items (fold step evs s)" | "justified e (fold step evs s) x"
    using step_items [OF run_inv [OF assms(1)]] by blast
  then show ?case
  proof cases
    case 1
    with snoc.IH show ?thesis by (metis append.assoc append_Cons)
  next
    case 2
    then show ?thesis by blast
  qed
qed

end

text \<open>A log that only grows is the special case of its set of entries.\<close>

locale audited_system = transition_system init step inv
  for init :: "'s \<Rightarrow> bool" and step :: "'e \<Rightarrow> 's \<Rightarrow> 's" and inv :: "'s \<Rightarrow> bool" +
  fixes log :: "'s \<Rightarrow> 'l list"
    and justified :: "'e \<Rightarrow> 's \<Rightarrow> 'l \<Rightarrow> bool"
  assumes step_log: "inv s \<Longrightarrow> \<exists>new. log (step e s) = log s @ new \<and> (\<forall>x \<in> set new. justified e s x)"
begin

lemma log_grows:
  assumes "inv s"
  shows "\<exists>new. log (fold step evs s) = log s @ new"
proof (induction evs rule: rev_induct)
  case (snoc e evs)
  then obtain old where "log (fold step evs s) = log s @ old" by blast
  moreover obtain new where "log (step e (fold step evs s)) = log (fold step evs s) @ new"
    using step_log [OF run_inv [OF assms]] by blast
  ultimately show ?case by simp
qed simp

end

sublocale audited_system \<subseteq> sourced_system init step inv "\<lambda>s. set (log s)" justified
proof unfold_locales
  fix s e x assume "inv s" "x \<in> set (log (step e s))"
  then show "x \<in> set (log s) \<or> justified e s x" using step_log [of s e] by auto
qed

text \<open>
  A concrete system that implements an abstract one: each of its steps is, on the abstract state,
  the run of a list of abstract events, which the concrete state determines.
\<close>

locale implements =
  fixes cstep :: "'c \<Rightarrow> 's \<Rightarrow> 's"
    and astep :: "'e \<Rightarrow> 't \<Rightarrow> 't"
    and abs_state :: "'s \<Rightarrow> 't"
    and abs_events :: "'s \<Rightarrow> 'c \<Rightarrow> 'e list"
  assumes simulates: "abs_state (cstep e s) = fold astep (abs_events s e) (abs_state s)"
begin

primrec run_events :: "'c list \<Rightarrow> 's \<Rightarrow> 'e list" where
  "run_events [] s = []"
| "run_events (e # evs) s = abs_events s e @ run_events evs (cstep e s)"

lemma run_simulates: "abs_state (fold cstep evs s) = fold astep (run_events evs s) (abs_state s)"
  by (induction evs arbitrary: s) (simp_all add: simulates)

lemma run_invariant:
  assumes "\<And>e t. I t \<Longrightarrow> I (astep e t)" "I (abs_state s)"
  shows "I (abs_state (fold cstep evs s))"
proof -
  have "I t \<Longrightarrow> I (fold astep es t)" for es t by (induction es arbitrary: t) (simp_all add: assms(1))
  then show ?thesis using run_simulates assms(2) by simp
qed

lemma run_events_app: "run_events (xs @ ys) s = run_events xs s @ run_events ys (fold cstep xs s)"
  by (induction xs arbitrary: s) simp_all

end

end
