(* ===== verification/ServerRuns.thy ===== *)
theory ServerRuns
  imports Server Systems
begin

text \<open>
  Runs of the server: any sequence of frames, datagrams, reaper rounds and tunnel packets, each
  with its own clock, random source and outcomes of writes. The handlers are the steps of a
  transition system whose invariant is \<open>server_inv\<close> and whose audited log is the list of
  packets given to the tunnel.
\<close>

datatype server_event =
    EvTCP env conn bytes
  | EvUDP env UDPAddr bytes
  | EvReap env "conn list"
  | EvRelay env "conn list" "bytes result"
  | EvListenUDP

fun server_step :: "server_event \<Rightarrow> Server \<Rightarrow> Server" where
  "server_step (EvTCP env c payload) s = handleTCPPayload env c payload s"
| "server_step (EvUDP env a payload) s = handleUDPPayload env a payload s"
| "server_step (EvReap env order) s = dropIdleConnStates env order s"
| "server_step (EvRelay env order packet) s = relayTunnelToClient env order packet s"
| "server_step EvListenUDP s = setUDPSrv s"

definition server_init :: "Server \<Rightarrow> bool" where
  "server_init s \<longleftrightarrow> (\<exists>tun c. New tun c = Inr s)"

lemma server_inv_setUDPSrv: "server_inv s \<Longrightarrow> server_inv (setUDPSrv s)"
  by (auto simp: setUDPSrv_def server_inv_defs)

lemma server_inv_step: "server_inv s \<Longrightarrow> server_inv (server_step e s)"
  by (cases e) (simp_all add: server_inv_handleTCPPayload server_inv_handleUDPPayload
      server_inv_dropIdle server_inv_relay server_inv_setUDPSrv)

text \<open>What justifies a packet: the frame or datagram of the step carried it, from a ready peer.\<close>

fun authentic :: "server_event \<Rightarrow> Server \<Rightarrow> bytes \<Rightarrow> bool" where
  "authentic (EvTCP env c payload) s w \<longleftrightarrow>
     (\<exists>p. conns s c = Some p \<and> secureReady (heap s p) \<and> carries (heap s p) payload w)"
| "authentic (EvUDP env a payload) s w \<longleftrightarrow>
     (\<exists>p sid d. ParseDatagramSessionID payload = Inr sid \<and> bySID s sid = Some p \<and> secureReady (heap s p)
        \<and> ParseDatagramFrameV2 (sessionKey (heap s p)) payload = Inr (d, w))"
| "authentic _ s w \<longleftrightarrow> False"

definition tunnel_justified :: "server_event \<Rightarrow> Server \<Rightarrow> bytes \<Rightarrow> bool" where
  "tunnel_justified e s w \<longleftrightarrow> authentic e s w \<and> isIPPacket w \<and> int (length w) \<le> sc_MaxPacketSize (cfg s)"

lemma tunnel_log_dropIdle [simp]: "tunnel_log (dropIdleConnStates env order s) = tunnel_log s"
proof (cases "0 < sc_SessionIdleSec (cfg s)")
  case True
  then obtain cl where "effects (dropIdleConnStates env order s) = effects s @ map TCPClose cl"
    using dropIdle_result by metis
  then show ?thesis by (simp add: tunnel_log_def map_filter_def)
qed (simp add: dropIdleConnStates_def)

lemma tunnel_log_relay [simp]: "tunnel_log (relayTunnelToClient env order rd s) = tunnel_log s"
proof -
  have "tunnel_log s' = tunnel_log s" if "udp_WriteTo env a w s = (ok, s')" for a w ok s'
    using tunnel_log_udp [of env a w s] that by simp
  then show ?thesis
    by (auto simp: relayTunnelToClient_def Let_def split: sum.splits option.splits prod.splits bool.splits)
qed

lemma tunnel_log_step:
  assumes "server_inv s"
  shows "\<exists>new. tunnel_log (server_step e s) = tunnel_log s @ new \<and> (\<forall>w \<in> set new. tunnel_justified e s w)"
proof (cases e)
  case (EvTCP env c payload)
  then show ?thesis
    using tunnel_log_TCP [OF assms, of env c payload] by (fastforce simp: tunnel_justified_def)
next
  case (EvUDP env a payload)
  then show ?thesis
    using tunnel_log_UDP [of env a payload s] by (fastforce simp: tunnel_justified_def)
qed (simp_all add: tunnel_log_def setUDPSrv_def tunnel_log_dropIdle [unfolded tunnel_log_def]
    tunnel_log_relay [unfolded tunnel_log_def])

interpretation server: audited_system server_init server_step server_inv tunnel_log tunnel_justified
  by unfold_locales (auto simp: server_init_def server_inv_New server_inv_step tunnel_log_step)

subsection \<open>Rejected frames end the session\<close>

lemma failConn_forgets:
  assumes "server_inv s" "conns s c = Some p"
  shows "conns (failConn env c m s) c = None" "bySID (failConn env c m s) sid \<noteq> Some p"
    "\<exists>new. effects (failConn env c m s) = effects s @ new @ [TCPClose c]"
proof -
  show "conns (failConn env c m s) c = None" by simp
  show "bySID (failConn env c m s) sid \<noteq> Some p"
  proof
    assume "bySID (failConn env c m s) sid = Some p"
    with server_inv_failConn [OF assms(1)] obtain c' where "conns (failConn env c m s) c' = Some p"
      by (rule server_inv_sid)
    then show False using server_inv_inject [OF assms] by (auto split: if_splits)
  qed
  show "\<exists>new. effects (failConn env c m s) = effects s @ new @ [TCPClose c]"
    by (auto simp: failConn_def Let_def split_beta tcp_WriteFrame_def split: sum.splits)
qed

text \<open>The session of \<open>c\<close> is over: forgotten in both tables, and the connection closed.\<close>

definition session_over :: "conn \<Rightarrow> ptr \<Rightarrow> Server \<Rightarrow> Server \<Rightarrow> bool" where
  "session_over c p s s' \<longleftrightarrow> conns s' c = None \<and> (\<forall>sid. bySID s' sid \<noteq> Some p)
     \<and> (\<exists>new. effects s' = effects s @ new @ [TCPClose c])"

lemma session_over_failConn:
  assumes "server_inv t" "conns t c = Some p" "effects t = effects s"
  shows "session_over c p s (failConn env c m t)"
  using failConn_forgets [OF assms(1,2)] assms(3) by (simp add: session_over_def)

definition data_accepted :: "connState \<Rightarrow> int \<Rightarrow> bytes \<Rightarrow> bool" where
  "data_accepted st limit payload \<longleftrightarrow>
     (if protoVersion st = ''v2''
      then \<exists>frame plain. ParseDataFrameV2 (sessionKey st) payload = Inr (frame, plain)
             \<and> int (length plain) \<le> limit
      else \<exists>req plain. DataFrame_unmarshal payload = Inr req \<and> data_Type req = TypeData
             \<and> Decrypt (sessionKey st) (data_Ciphertext req) = Inr plain \<and> int (length plain) \<le> limit)"

lemma rejected_data:
  assumes "server_inv s" "conns s c = Some p" "secureReady (heap s p)"
    and "\<not> data_accepted (heap s p) (sc_MaxPacketSize (cfg s)) payload"
    and "sc_ServerPrivateKey (cfg s) \<noteq> []"
  shows "session_over c p s (handleTCPPayload env c payload s)"
proof -
  define t where "t = upd p (\<lambda>st. st\<lparr>lastSeen := clock env 1\<rparr>) s"
  have t: "server_inv t" "conns t c = Some p" "effects t = effects s" "cfg t = cfg s"
    "protoVersion (heap t p) = protoVersion (heap s p)" "sessionKey (heap t p) = sessionKey (heap s p)"
    using server_inv_lastSeen [OF assms(1,2)] assms(2) by (simp_all add: t_def)
  have "session_over c p s (handleDataFrame env c payload p t)"
    using assms(4) session_over_failConn [OF t(1-3)]
    by (auto simp: handleDataFrame_def handleDataFrameV1_def handleDataFrameV2_def data_accepted_def t
        split: sum.splits if_splits)
  then show ?thesis
    using assms session_over_failConn [OF assms(1,2) refl]
    by (auto simp: handleTCPPayload_def getConnState_def Let_def
        handleTCPState_touch [of env c payload p s, folded t_def])
qed

lemma rejected_auth:
  assumes "server_inv s" "conns s c = Some p" "awaitAuthV2 (heap s p)" "\<not> auth_accepted (heap s p) payload"
    and "sc_ServerPrivateKey (cfg s) \<noteq> []"
  shows "session_over c p s (handleTCPPayload env c payload s)"
proof -
  define t where "t = upd p (\<lambda>st. st\<lparr>lastSeen := clock env 1\<rparr>) s"
  have t: "server_inv t" "conns t c = Some p" "effects t = effects s" "awaitAuthV2 (heap t p)"
    "pendingTicket (heap t p) = pendingTicket (heap s p)" "sessionKey (heap t p) = sessionKey (heap s p)"
    using server_inv_lastSeen [OF assms(1,2)] assms(2,3) by (simp_all add: t_def)
  have r: "\<not> secureReady (heap s p)"
    using server_inv_conn(3) [OF assms(1,2)] assms(3) by (simp add: state_ok_def)
  have "session_over c p s (handlePreSecureFrame env c payload p t)"
    using assms(4) session_over_failConn [OF t(1-3)] t(4)
    by (auto simp: handlePreSecureFrame_def handleAuthV2Frame_def auth_accepted_def t split: sum.splits if_splits)
  then show ?thesis
    using assms r session_over_failConn [OF assms(1,2) refl]
    by (auto simp: handleTCPPayload_def getConnState_def Let_def
        handleTCPState_touch [of env c payload p s, folded t_def])
qed

subsection \<open>Becoming ready\<close>

text \<open>A live session becomes ready in one kind of step only: a frame on its own connection.\<close>

lemma ready_step:
  assumes "server_inv s" "conns s c = Some p" "\<not> secureReady (heap s p)" "secureReady (heap (server_step e s) p)"
  obtains env payload where "e = EvTCP env c payload"
    "(\<exists>hello nonce. ParseHello payload = Inr (hello, nonce) \<and> hello_accepted env s hello nonce
      \<and> hello_ProtoVersion hello \<noteq> ''v2'' \<and> \<not> awaitAuthV2 (heap s p))
    \<or> (awaitAuthV2 (heap s p) \<and> auth_accepted (heap s p) payload)"
proof (cases e)
  case (EvTCP env c' payload)
  obtain q t where g: "getConnState env c' s = (q, t)" by (metis prod.exhaust)
  note t = getConnState_inv [OF assms(1) g]
  have old: "heap t p = heap s p" "q = p \<Longrightarrow> c' = c"
  proof -
    show "heap t p = heap s p"
      using g server_inv_conn(1) [OF assms(1,2)] by (auto simp: getConnState_def Let_def split: option.splits)
    have "conns t c = Some p" if "c' \<noteq> c"
      using g that assms(2) by (auto simp: getConnState_def Let_def split: option.splits)
    then show "q = p \<Longrightarrow> c' = c" using t(2) server_inv_inject [OF t(1)] by blast
  qed
  have "secureReady (heap (handleTCPState env c' payload q t) p)"
    using assms(3,4) g by (auto simp: EvTCP handleTCPPayload_def split: if_splits)
  note r = ready_only_by_handshake [OF _ this, unfolded old(1), OF assms(3)]
  have "p = q" by (rule r(1))
  then show ?thesis
    using that [OF EvTCP [unfolded old(2) [OF \<open>p = q\<close> [symmetric]]]] r(2) old t(3)
    by (auto simp: hello_accepted_def)
next
  case (EvUDP env a payload)
  have "secureReady (heap (handleUDPPayload env a payload s) p) = secureReady (heap s p)"
    by (auto simp: handleUDPPayload_def Let_def split_beta split: sum.splits option.splits)
  then show ?thesis using assms EvUDP by simp
next
  case (EvReap env order)
  have "heap (dropIdleConnStates env order s) = heap s"
    using dropIdle_sel(1) by (cases "0 < sc_SessionIdleSec (cfg s)") (auto simp: dropIdleConnStates_def)
  then show ?thesis using assms EvReap by simp
next
  case (EvRelay env order packet)
  have "heap (relayTunnelToClient env order packet s) = heap s"
    by (auto simp: relayTunnelToClient_def Let_def split_beta split: sum.splits option.splits prod.splits bool.splits)
  then show ?thesis using assms EvRelay by simp
qed (use assms in \<open>simp add: setUDPSrv_def\<close>)

end
