(* ===== verification/ServerBehaviour.thy ===== *)
theory ServerBehaviour
  imports ServerRuns
begin

text \<open>
  What the server does on the good path, and two behaviours of it that are easy to miss: the
  echo of a version 2 frame, the datagram that carries a tunnel packet, the address of a session
  moving on any datagram that names it, and the race of the reaper with the second half of
  \<open>handleTCPPayload\<close>.
\<close>

lemma tcp_WriteFrame_ok:
  "frame_ok w \<Longrightarrow> conn_ok env c \<Longrightarrow>
     tcp_WriteFrame env (Some c) w s = (True, emit (TCPWrite c (frame_bytes w)) s)"
  by (simp add: tcp_WriteFrame_def WriteFrame_frame_bytes)

subsection \<open>The echo of version 2\<close>

lemma decorateReply_form:
  "\<exists>k. decorateReply env s p = bytes_of_str ''dsp-ok:'' @ p @ replicate k 0
     \<and> k \<le> nat (MaxPadding (obfsCfg s))"
  using ApplyPadding_prefix [of "env_rng env 0" "obfsCfg s" "bytes_of_str ''dsp-ok:'' @ p"]
  by (auto simp: decorateReply_def)

lemma BuildDataFrameV2_nonempty: "BuildDataFrameV2 rng k ch seq mode p maxPad = Inr raw \<Longrightarrow> raw \<noteq> []"
  by (auto elim!: BuildDataFrameV2_cases
      simp: DataFrameV2_marshal_def json_marshal_def DataFrameV2_members_def bytes_of_str_def)

lemma BuildDataFrameV2_frame_ok:
  assumes "BuildDataFrameV2 rng k ch seq mode p 64 = Inr raw" "mode \<in> obfs_modes" "length p \<le> 48050"
  shows "frame_ok raw"
proof -
  have "length raw \<le> 4 * ((length p + 30) div 3) + 4 * ((64 + 2) div 3) + length mode + 120"
    using BuildDataFrameV2_length [OF assms(1)] obfs_modes_plain [OF assms(2)] by simp
  moreover have "4 * ((length p + 30) div 3) \<le> 4 * (48080 div 3)"
    using assms(3) by (intro mult_le_mono div_le_mono) simp_all
  moreover have "length mode \<le> 8" using obfs_modes_plain [OF assms(2)] by simp
  ultimately show ?thesis
    using BuildDataFrameV2_nonempty [OF assms(1)] by (simp add: frame_ok_def)
qed

lemma echo_v2:
  assumes "server_inv s" "conns s c = Some p" "secureReady (heap s p)" "protoVersion (heap s p) = ''v2''"
    and "sc_ServerPrivateKey (cfg s) \<noteq> []"
    and "payload \<noteq> []" "int (length payload) \<le> wrap64 (sc_MaxPacketSize (cfg s) * 8)"
    and "ParseDataFrameV2 (sessionKey (heap s p)) payload = Inr (frame, plain)"
    and "int (length plain) \<le> sc_MaxPacketSize (cfg s)" "length plain \<le> 48000"
    and "MaxPadding (obfsCfg s) \<le> 32"
    and "\<not> (tunnel s \<and> df_Channel frame = 1 \<and> isIPPacket plain)"
    and "draw_ok (env_rng env 2)" "draw_ok (env_rng env 3)" "draw_ok (env_rng env 4)" "conn_ok env c"
  shows "\<exists>raw k reply. effects (handleTCPPayload env c payload s) = effects s @ [TCPWrite c (frame_bytes raw)]
    \<and> ParseDataFrameV2 (sessionKey (heap s p)) raw = Inr (reply, bytes_of_str ''dsp-ok:'' @ plain @ replicate k 0)
    \<and> df_Sequence reply = df_Sequence frame + 1 \<and> df_Channel reply = df_Channel frame \<and> k \<le> 32"
proof -
  define t where "t = upd p (\<lambda>st. st\<lparr>lastSeen := clock env 1\<rparr>) s"
  have t: "st_conn (heap t p) = Some c" "sessionKey (heap t p) = sessionKey (heap s p)" "cfg t = cfg s"
    "tunnel t = tunnel s" "effects t = effects s" "protoVersion (heap t p) = ''v2''" "obfsCfg t = obfsCfg s"
    using server_inv_conn [OF assms(1,2)] assms(4) by (simp_all add: t_def)
  define reply where "reply = decorateReply env t plain"
  define mode where "mode = SelectObfsMode (df_Sequence frame + 1) (length reply)"
  obtain k where k: "reply = bytes_of_str ''dsp-ok:'' @ plain @ replicate k 0" "k \<le> 32"
    using decorateReply_form [of env t plain] assms(11) by (fastforce simp: reply_def t)
  obtain raw where raw: "BuildDataFrameV2 (rng_skip 2 (env_rng env)) (sessionKey (heap s p)) (df_Channel frame)
      (df_Sequence frame + 1) mode reply 64 = Inr raw"
  proof -
    have "draw_ok (rng_skip 2 (env_rng env) 0)" "draw_ok (rng_skip 2 (env_rng env) 1)"
      "draw_ok (rng_skip 2 (env_rng env) 2)"
      using assms(13-15) by (simp_all add: numeral_3_eq_3 numeral_2_eq_2 eval_nat_numeral)
    then show thesis using BuildDataFrameV2_ok that by blast
  qed
  have m: "mode \<in> obfs_modes" by (simp add: mode_def SelectObfsMode_modes)
  have "length reply \<le> 48050" using k assms(10) by simp
  with raw m have ok: "frame_ok raw" by (rule BuildDataFrameV2_frame_ok)
  have nt: "(tunnel s \<and> df_Channel frame = 1 \<and> isIPPacket plain) = False"
    using assms(12) by blast
  have "handleTCPPayload env c payload s = emit (TCPWrite c (frame_bytes raw)) t"
    using assms(1-11,16) nt raw t ok
    by (simp add: handleTCPPayload_def getConnState_def handleTCPState_touch [of env c payload p s, folded t_def]
        handleDataFrame_def handleDataFrameV2_def Let_def reply_def [symmetric] mode_def [symmetric]
        sendSecurePayloadV2_def remove_on_error_def tcp_WriteFrame_ok) blast
  moreover obtain f where "ParseDataFrameV2 (sessionKey (heap s p)) raw = Inr (f, reply)"
    "df_Channel f = df_Channel frame" "df_Sequence f = df_Sequence frame + 1"
    using ParseDataFrameV2_BuildDataFrameV2 [OF raw] obfs_modes_plain [OF m] plain_text_ascii by blast
  ultimately show ?thesis using k t by auto
qed

subsection \<open>A tunnel packet to a client\<close>

lemma relay_datagram:
  assumes "server_inv s" "findSecureConnState order s = Some p" "protoVersion (heap s p) = ''v2''"
    and "udpAddr (heap s p) = Some a" "udpSrv s" "packet \<noteq> []"
    and "draw_ok (env_rng env 0)" "draw_ok (env_rng env 1)" "draw_ok (env_rng env 2)"
    and "\<And>raw. udp_ok env a raw"
  shows "\<exists>raw d. effects (relayTunnelToClient env order (Inr packet) s) = effects s @ [UDPWrite a raw]
    \<and> ParseDatagramFrameV2 (sessionKey (heap s p)) raw = Inr (d, packet)
    \<and> dg_SessionID d = sessionID (heap s p) \<and> dg_Channel d = 1"
proof -
  obtain c where c: "conns s c = Some p" using findSecureConnState_Some [OF assms(2)] by blast
  note p = server_inv_conn [OF assms(1) c]
  have sid: "sessionID (heap s p) \<noteq> []" "ascii (sessionID (heap s p))"
    using p(3) assms(4) by (simp_all add: state_ok_def plain_text_ascii)
  define mode where "mode = SelectObfsMode (uint32_of (clock env 0)) (length packet)"
  have m: "ascii mode"
    using obfs_modes_plain [OF SelectObfsMode_modes] plain_text_ascii by (simp add: mode_def)
  obtain raw where raw: "BuildDatagramFrameV2 (env_rng env) (sessionKey (heap s p)) (sessionID (heap s p)) 1
      (uint32_of (clock env 1)) mode packet 48 = Inr raw"
    using BuildDatagramFrameV2_ok assms(7-9) m by blast
  have "relayTunnelToClient env order (Inr packet) s = emit (UDPWrite a raw) s"
    using assms sid raw by (simp add: relayTunnelToClient_def Let_def mode_def udp_WriteTo_def)
  then show ?thesis
    using ParseDatagram_BuildDatagram [OF raw m sid(2,1)] by auto
qed

subsection \<open>Datagrams that only name a session\<close>

text \<open>
  Any datagram whose readable header names a live session refreshes it and takes over its
  address, whether or not it decrypts: the assignments come before the decryption.
\<close>

lemma udp_redirect:
  assumes "server_inv s" "bySID s sid = Some p" "udpSrv s" "sc_ServerPrivateKey (cfg s) \<noteq> []"
    and "payload \<noteq> []" "int (length payload) \<le> wrap64 (sc_MaxPacketSize (cfg s) * 8)"
    and "ParseDatagramSessionID payload = Inr sid"
    and "ParseDatagramFrameV2 (sessionKey (heap s p)) payload = Inl e"
  shows "handleUDPPayload env a payload s
    = upd p (\<lambda>st. st\<lparr>lastSeen := clock env 1, udpAddr := Some a\<rparr>) s"
proof -
  obtain c where "sid \<noteq> []" "secureReady (heap s p)" "protoVersion (heap s p) = ''v2''"
    using server_inv_sid [OF assms(1,2)] by metis
  then show ?thesis
    using assms by (simp add: handleUDPPayload_def findStateBySessionID_def Let_def)
qed

text \<open>The guard that does hold: a datagram that names no bound session changes nothing.\<close>

lemma udp_unknown:
  assumes "sc_ServerPrivateKey (cfg s) \<noteq> []"
    and "\<And>sid. ParseDatagramSessionID payload = Inr sid \<Longrightarrow> findStateBySessionID sid s = None"
  shows "handleUDPPayload env a payload s = s"
  using assms by (auto simp: handleUDPPayload_def split: sum.splits)

subsection \<open>The reaper between getConnState and the proof\<close>

text \<open>
  \<open>getConnState\<close> has returned \<open>p\<close> and released the lock, the reaper drops the idle connection,
  then the handler goes on with \<open>p\<close>: the session is bound although no connection owns it, and
  no later round of the reaper, which walks over the connections, unbinds it.
\<close>

lemma reaper_race:
  assumes "server_inv s" "conns s c = Some p" "awaitAuthV2 (heap s p)" "0 < sc_SessionIdleSec (cfg s)"
    and "reaped renv order s c" "auth_accepted (heap s p) payload" "newSessionID env \<noteq> []"
  defines "t \<equiv> handleTCPState env c payload p (dropIdleConnStates renv order s)"
  shows "bySID t (newSessionID env) = Some p" "conns t c' \<noteq> Some p" "secureReady (heap t p)"
    "cfg t = cfg s" "sessionID (heap t p) = newSessionID env"
proof -
  define u where "u = dropIdleConnStates renv order s"
  have u: "heap u = heap s" "cfg u = cfg s" "conns u c' = (if reaped renv order s c' then None else conns s c')" for c'
    using dropIdle_sel [OF assms(4), of renv order] by (simp_all add: u_def)
  define v where "v = upd p (\<lambda>st. st\<lparr>lastSeen := clock env 1\<rparr>) u"
  have r: "\<not> secureReady (heap s p)"
    using server_inv_conn(3) [OF assms(1,2)] assms(3) by (simp add: state_ok_def)
  obtain auth where auth: "AuthFrame_unmarshal payload = Inr auth" "auth_Type auth = TypeAuth"
    "auth_ProtoVersion auth = ''v2''" "VerifyAuthProof (sessionKey (heap v p)) (pendingTicket (heap v p)) (Proof auth)"
    using assms(6) by (auto simp: auth_accepted_def v_def u)
  define w where "w = bindSessionID (newSessionID env) p (upd p (\<lambda>st. st\<lparr>awaitAuthV2 := False,
      pendingTicket := [], secureReady := True, sessionID := newSessionID env\<rparr>) v)"
  have w: "conns w c = None" "bySID w (newSessionID env) = Some p" "conns w = conns u" "cfg w = cfg s"
    "secureReady (heap w p)" "sessionID (heap w p) = newSessionID env"
    using assms(5,7) by (simp_all add: w_def v_def u)
  have v: "awaitAuthV2 (heap v p)" using assms(3) by (simp add: v_def u)
  obtain msg where "handlePreSecureFrame env c payload p v = remove_on_error c (tcp_WriteFrame env (Some c) msg w)"
    using auth v unfolding handlePreSecureFrame_def handleAuthV2Frame_def Let_def w_def by simp
  then have t: "t = remove_on_error c (tcp_WriteFrame env (Some c) msg w)"
    using r by (simp add: t_def u_def [symmetric] handleTCPState_touch [of env c payload p u, folded v_def] u)
  have t': "heap t = heap w" "conns t = conns w" "bySID t = bySID w" "cfg t = cfg w"
    using w(1) by (simp_all add: t remove_on_error_def split_beta removeConnState_bySID fun_upd_idem)
  show "bySID t (newSessionID env) = Some p" "secureReady (heap t p)" "cfg t = cfg s"
    "sessionID (heap t p) = newSessionID env" using w by (simp_all add: t')
  show "conns t c' \<noteq> Some p"
    using server_inv_inject [OF assms(1,2), of c'] assms(5) by (auto simp: t' w u)
qed

lemma orphan_not_reaped:
  assumes "bySID s sid = Some p" "\<And>c q. conns s c = Some q \<Longrightarrow> sessionID (heap s q) \<noteq> sid"
  shows "bySID (dropIdleConnStates env order s) sid = Some p"
proof (cases "0 < sc_SessionIdleSec (cfg s)")
  case True
  show ?thesis
    using dropIdle_result [OF True, where env = env and order = order]
  proof cases
    case (1 cl)
    then show ?thesis using assms by auto
  qed
qed (use assms in \<open>simp add: dropIdleConnStates_def\<close>)

end
