(* ===== verification/JsonIndent.thy ===== *)
theory JsonIndent
  imports JsonRound
begin

text \<open>
  \<open>json.MarshalIndent(v, \<dots>)\<close> with no prefix and two spaces, the form of every file the program
  writes. Shown: parsing the indented text returns the value, so a file holds what was written.
\<close>

definition newline :: "nat \<Rightarrow> string" where
  "newline d = CHR 0x0A # replicate (2 * d) CHR '' ''"

fun json_indent :: "nat \<Rightarrow> json \<Rightarrow> string"
and indent_elems :: "nat \<Rightarrow> json list \<Rightarrow> string"
and indent_members :: "nat \<Rightarrow> (string \<times> json) list \<Rightarrow> string" where
  "json_indent d JNull = ''null''"
| "json_indent d (JBool b) = (if b then ''true'' else ''false'')"
| "json_indent d (JNum l) = l"
| "json_indent d (JStr s) = json_quote s"
| "json_indent d (JArr vs) = (if vs = [] then ''[]''
     else ''['' @ newline (Suc d) @ indent_elems (Suc d) vs @ newline d @ '']'')"
| "json_indent d (JObj ms) = (if ms = [] then ''{}''
     else ''{'' @ newline (Suc d) @ indent_members (Suc d) ms @ newline d @ ''}'')"
| "indent_elems d [] = ''''"
| "indent_elems d [v] = json_indent d v"
| "indent_elems d (v # w # vs) = json_indent d v @ '','' @ newline d @ indent_elems d (w # vs)"
| "indent_members d [] = ''''"
| "indent_members d [(k, v)] = json_quote k @ '': '' @ json_indent d v"
| "indent_members d ((k, v) # m # ms) =
     json_quote k @ '': '' @ json_indent d v @ '','' @ newline d @ indent_members d (m # ms)"

definition json_marshal_indent :: "json \<Rightarrow> bytes" where
  "json_marshal_indent v = bytes_of_str (json_indent 0 v)"

subsection \<open>White space between tokens\<close>

lemma is_space_blank [simp]: "is_space CHR '' ''" "is_space CHR 0x0A"
  by (simp_all add: is_space_def Let_def)

lemma run_blanks:
  assumes "\<And>c. is_space c \<Longrightarrow> json_step s c = s"
  shows "json_run s (newline d) = s"
proof -
  have "json_run s (replicate n CHR '' '') = s" for n
    by (induction n) (simp_all add: assms)
  then show ?thesis by (simp add: newline_def assms)
qed

lemma run_newline [simp]:
  "json_run (st, MBegin) (newline d) = (st, MBegin)"
  "json_run (st, MBeginOrEmpty) (newline d) = (st, MBeginOrEmpty)"
  "json_run (st, MKeyOrEmpty) (newline d) = (st, MKeyOrEmpty)"
  "json_run (st, MKey ms) (newline d) = (st, MKey ms)"
  "json_run (st, MEnd v) (newline d) = (st, MEnd v)"
  by (rule run_blanks; simp add: end_value_def)+

lemma number_step_newline: "number_final n \<Longrightarrow> number_step n CHR 0x0A = None"
  by (cases n) (simp_all add: number_final_def is_digit_def between_def)

lemma settled_newline:
  assumes "settled st v s"
  shows "json_run s (newline d) = (st, MEnd v)"
proof -
  have "json_step s CHR 0x0A = (st, MEnd v)"
    using assms number_step_newline by (auto simp: settled_def end_value_def)
  moreover have "json_run s (newline d) = json_run (json_step s CHR 0x0A) (tl (newline d))"
    by (simp add: newline_def)
  moreover have "json_run (st, MEnd v) (tl (newline d)) = (st, MEnd v)"
    using run_newline(5) [of st v d] by (simp add: newline_def end_value_def)
  ultimately show ?thesis by simp
qed

subsection \<open>Round trip\<close>

lemma json_indent_head: "json_ok v \<Longrightarrow> \<exists>c cs. json_indent d v = c # cs \<and> c \<noteq> CHR '']'' \<and> \<not> is_space c"
  using number_literal_head by (cases v) (auto simp: json_quote_def)

lemma indent_elems_head:
  assumes "elems_ok (v # vs)"
  shows "\<exists>c cs. indent_elems d (v # vs) = c # cs \<and> c \<noteq> CHR '']'' \<and> \<not> is_space c"
proof -
  obtain c cs where "json_indent d v = c # cs" "c \<noteq> CHR '']''" "\<not> is_space c"
    using assms json_indent_head [of v d] by auto
  then show ?thesis by (cases vs) auto
qed

lemma indent_members_head: "ms \<noteq> [] \<Longrightarrow> \<exists>cs. indent_members d ms = CHR 0x22 # cs"
  by (cases "(d, ms)" rule: indent_members.cases) (auto simp: json_quote_def)

theorem run_json_indent:
  "json_ok v \<Longrightarrow> length st + json_depth v \<le> max_depth \<Longrightarrow>
     settled st v (json_run (st, MBegin) (json_indent d v))"
  "elems_ok vs \<Longrightarrow> vs \<noteq> [] \<Longrightarrow> Suc (length st) + elems_depth vs \<le> max_depth \<Longrightarrow>
     json_run (FArr acc # st, MBegin) (indent_elems d vs @ newline e @ '']'') = (st, MEnd (JArr (rev acc @ vs)))"
  "members_ok ms \<Longrightarrow> ms \<noteq> [] \<Longrightarrow> Suc (length st) + members_depth ms \<le> max_depth \<Longrightarrow>
     json_run (st, MKey macc) (indent_members d ms @ newline e @ ''}'') = (st, MEnd (JObj (rev macc @ ms)))"
proof (induction d v and d vs and d ms arbitrary: st and st acc e and st macc e
    rule: json_indent_indent_elems_indent_members.induct)
  case 1
  then show ?case by (simp add: begin_value_def)
next
  case (2 d b)
  then show ?case by (simp add: begin_value_def)
next
  case (3 d l)
  then show ?case using run_number_literal [of l st] by (auto simp: settled_def simp del: json_run_simps)
next
  case (4 d s)
  then show ?case by (simp add: run_string_quote del: json_run_simps)
next
  case (5 d vs)
  show ?case
  proof (cases vs)
    case Nil
    with 5 show ?thesis by (simp add: begin_value_def)
  next
    case (Cons v vs')
    then obtain c cs where hd: "indent_elems (Suc d) vs = c # cs" "c \<noteq> CHR '']''" "\<not> is_space c"
      using 5 indent_elems_head [of v vs' "Suc d"] by auto
    have "json_run (st, MBegin) (json_indent d (JArr vs))
        = json_run (FArr [] # st, MBeginOrEmpty) (newline (Suc d) @ (c # cs) @ newline d @ '']'')"
      using 5 hd Cons by (simp add: begin_value_def)
    also have "\<dots> = json_run (FArr [] # st, MBegin) ((c # cs) @ newline d @ '']'')"
      using run_BeginOrEmpty [OF hd(2,3)] by simp
    also have "\<dots> = (st, MEnd (JArr vs))"
      using 5 Cons hd(1) by (simp del: json_run_simps)
    finally show ?thesis by (simp del: json_run_simps)
  qed
next
  case (6 d ms)
  show ?case
  proof (cases ms)
    case Nil
    with 6 show ?thesis by (simp add: begin_value_def)
  next
    case (Cons m ms')
    then obtain cs where hd: "indent_members (Suc d) ms = CHR 0x22 # cs"
      using indent_members_head [of ms "Suc d"] by auto
    have "json_run (st, MBegin) (json_indent d (JObj ms))
        = json_run (st, MKeyOrEmpty) (newline (Suc d) @ (CHR 0x22 # cs) @ newline d @ ''}'')"
      using 6 hd Cons by (simp add: begin_value_def)
    also have "\<dots> = json_run (st, MKey []) ((CHR 0x22 # cs) @ newline d @ ''}'')"
      using run_KeyOrEmpty by simp
    also have "\<dots> = (st, MEnd (JObj ms))"
      using 6 Cons hd by (simp del: json_run_simps)
    finally show ?thesis by (simp del: json_run_simps)
  qed
next
  case (8 d v)
  then have "settled (FArr acc # st) v (json_run (FArr acc # st, MBegin) (json_indent d v))" by simp
  then show ?case by (simp add: settled_newline end_value_def)
next
  case (9 d v w vs)
  then have "settled (FArr acc # st) v (json_run (FArr acc # st, MBegin) (json_indent d v))" by simp
  moreover have "json_run (FArr (v # acc) # st, MBegin) (indent_elems d (w # vs) @ newline e @ '']'')
      = (st, MEnd (JArr (rev (v # acc) @ w # vs)))"
    using 9 by (intro "9.IH"(2)) simp_all
  ultimately show ?case by (simp add: settled_comma end_value_def)
next
  case (11 d k v)
  then have "settled (FObj macc k # st) v (json_run (FObj macc k # st, MBegin) (json_indent d v))" by simp
  note sp = settled_newline [OF this]
  have "ascii k" using 11 by simp
  then show ?case by (simp add: run_key_quote sp end_value_def)
next
  case (12 d k v m ms)
  then have "settled (FObj macc k # st) v (json_run (FObj macc k # st, MBegin) (json_indent d v))" by simp
  note comma = settled_comma [OF this]
  have "json_run (st, MKey ((k, v) # macc)) (indent_members d (m # ms) @ newline e @ ''}'')
      = (st, MEnd (JObj (rev ((k, v) # macc) @ m # ms)))"
    using 12 by (intro "12.IH"(2)) simp_all
  moreover have "ascii k" using 12 by simp
  ultimately show ?case by (simp add: run_key_quote comma end_value_def)
qed simp_all

lemma json_parse_indent [codec_simps]:
  assumes "json_ok v" and "json_depth v \<le> max_depth"
  shows "json_parse (json_indent 0 v) = Some v"
proof -
  have "settled [] v (json_run ([], MBegin) (json_indent 0 v))"
    using assms by (intro run_json_indent(1)) simp_all
  then show ?thesis by (auto simp: json_parse_def json_finish_def settled_def)
qed

lemma obj_members_marshal_indent [codec_simps]:
  "members_ok ms \<Longrightarrow> members_depth ms < max_depth \<Longrightarrow> obj_members (json_marshal_indent (JObj ms)) = Inr ms"
  using json_parse_indent [of "JObj ms"]
  by (simp add: obj_members_def json_marshal_indent_def del: json_indent.simps)

end
