(* ===== verification/WinClient.thy ===== *)
theory WinClient
  imports Handshake Wire Config JsonIndent
begin

text \<open>
  \<open>winclient/secure_client.go\<close> and \<open>winclient/key_store.go\<close>: the client of the Windows build.
  The record \<open>net\<close> holds what is around it: the bytes still to arrive on the connection, the
  frames and datagrams it sent, the packets it gave to the tunnel device, and whether the next
  write succeeds. A read sees the bytes that arrive before its deadline; \<open>rx_end\<close> is what it
  gets after them, the deadline or the end of the stream.
\<close>

record SecureTCPClient =
  cl_cfg :: WinConfig
  cl_sessionID :: string
  cl_udp :: bool
  cl_seq :: "32 word"

record net =
  rx :: bytes
  rx_end :: go_error
  tx :: "bytes list"
  write_ok :: "nat \<Rightarrow> bool"
  dgrams :: "bytes list"
  dgram_ok :: "bytes \<Rightarrow> bool"
  dev_out :: "bytes list"
  dev_ok :: "bytes \<Rightarrow> bool"

definition NewSecureTCPClient :: "WinConfig \<Rightarrow> SecureTCPClient" where
  "NewSecureTCPClient c = \<lparr>cl_cfg = c, cl_sessionID = [], cl_udp = False, cl_seq = 0\<rparr>"

subsection \<open>The connection\<close>

definition conn_write :: "bytes \<Rightarrow> net \<Rightarrow> unit result \<times> net" where
  "conn_write payload n =
     (case WriteFrame payload of
        Inl e \<Rightarrow> (Inl e, n)
      | Inr w \<Rightarrow> (if write_ok n (length (tx n)) then (Inr (), n\<lparr>tx := tx n @ [w]\<rparr>) else (Inl ENet, n)))"

definition conn_read :: "net \<Rightarrow> bytes result \<times> net" where
  "conn_read n = (case readFrameWithTimeout (rx_end n) (rx n) of (r, rest) \<Rightarrow> (r, n\<lparr>rx := rest\<rparr>))"

definition udp_Send :: "bytes \<Rightarrow> net \<Rightarrow> bool \<times> net" where
  "udp_Send d n = (if dgram_ok n d then (True, n\<lparr>dgrams := dgrams n @ [d]\<rparr>) else (False, n))"

definition dev_WritePacket :: "bytes \<Rightarrow> net \<Rightarrow> bool \<times> net" where
  "dev_WritePacket p n = (if dev_ok n p then (True, n\<lparr>dev_out := dev_out n @ [p]\<rparr>) else (False, n))"

definition decodeB64 :: "string \<Rightarrow> bytes result" where
  "decodeB64 s = (case StdDecodeString s of Inl e \<Rightarrow> Inl EBase64 | Inr b \<Rightarrow> Inr b)"

subsection \<open>The handshake\<close>

definition doHandshakeV2 ::
  "x25519_fun \<Rightarrow> bytes \<Rightarrow> bytes \<Rightarrow> SecureTCPClient \<Rightarrow> net \<Rightarrow> bytes result \<times> SecureTCPClient \<times> net" where
  "doHandshakeV2 x25519 firstPayload clientNonce c n =
     (case ParseChallenge firstPayload of
        Inl e \<Rightarrow> (Inl e, c, n)
      | Inr (challenge, serverNonce) \<Rightarrow>
      (case SharedSecret x25519 (wc_ClientPrivateKey (cl_cfg c)) (wc_ServerPublicKey (cl_cfg c)) of
        Inl e \<Rightarrow> (Inl e, c, n)
      | Inr shared \<Rightarrow>
        (let sessionKey = DeriveSessionKey shared clientNonce serverNonce;
             auth = \<lparr>auth_Type = TypeAuth, auth_ProtoVersion = ''v2'',
                     Proof = BuildAuthProof sessionKey (Ticket challenge)\<rparr>
         in (case conn_write (AuthFrame_marshal auth) n of
               (Inl e, n) \<Rightarrow> (Inl e, c, n)
             | (Inr _, n) \<Rightarrow>
             (case conn_read n of
               (Inl e, n) \<Rightarrow> (Inl e, c, n)
             | (Inr rawReady, n) \<Rightarrow>
             (case ReadyFrame_unmarshal rawReady of
               Inl e \<Rightarrow> (Inl e, c, n)
             | Inr ready \<Rightarrow>
               (let (ok, _, computedMAC) = VerifyReady sessionKey ready
                in if \<not> ok then (Inl (EMsg ''ready_v2 verification failed''), c, n)
                   else (Inr sessionKey, c\<lparr>cl_sessionID := ready_SessionID ready\<rparr>, n))))))))"

definition doHandshake ::
  "x25519_fun \<Rightarrow> draw \<Rightarrow> int \<Rightarrow> SecureTCPClient \<Rightarrow> net \<Rightarrow> bytes result \<times> SecureTCPClient \<times> net" where
  "doHandshake x25519 d now c n =
     (case NewHello d now (wc_ClientPublicKey (cl_cfg c)) (wc_PreSharedKey (cl_cfg c))
             (wc_ProtocolVersion (cl_cfg c)) of
        Inl e \<Rightarrow> (Inl e, c, n)
      | Inr (hello, clientNonce) \<Rightarrow>
      (case conn_write (HelloJSON hello) n of
        (Inl e, n) \<Rightarrow> (Inl e, c, n)
      | (Inr _, n) \<Rightarrow>
      (case conn_read n of
        (Inl e, n) \<Rightarrow> (Inl e, c, n)
      | (Inr payload, n) \<Rightarrow>
        if wc_ProtocolVersion (cl_cfg c) = ''v2'' then doHandshakeV2 x25519 payload clientNonce c n
        else (case AckFrame_unmarshal payload of
          Inl e \<Rightarrow> (Inl e, c, n)
        | Inr ack \<Rightarrow>
        (case decodeB64 (ack_ServerNonce ack) of
          Inl e \<Rightarrow> (Inl e, c, n)
        | Inr serverNonce \<Rightarrow>
        (case SharedSecret x25519 (wc_ClientPrivateKey (cl_cfg c)) (wc_ServerPublicKey (cl_cfg c)) of
          Inl e \<Rightarrow> (Inl e, c, n)
        | Inr shared \<Rightarrow>
          (let sessionKey = DeriveSessionKey shared clientNonce serverNonce
           in (case VerifyAck sessionKey ack of
                 Inl e \<Rightarrow> (Inl e, c, n)
               | Inr _ \<Rightarrow> (Inr sessionKey, c, n)))))))))"

subsection \<open>Payloads\<close>

definition nextSeq :: "SecureTCPClient \<Rightarrow> 32 word \<times> SecureTCPClient" where
  "nextSeq c = (let s = cl_seq c + 1 in (s, c\<lparr>cl_seq := s\<rparr>))"

definition shouldUseUDP :: "SecureTCPClient \<Rightarrow> 32 word \<Rightarrow> bool" where
  "shouldUseUDP c seq =
     (if \<not> wc_EnableMultiTransport (cl_cfg c) then False
      else if wc_ServerUDP (cl_cfg c) = [] then False
      else seq mod 4 \<noteq> 0)"

definition sendEncryptedPayload ::
  "rng \<Rightarrow> bytes \<Rightarrow> bytes \<Rightarrow> 8 word \<Rightarrow> SecureTCPClient \<Rightarrow> net \<Rightarrow> unit result \<times> SecureTCPClient \<times> net" where
  "sendEncryptedPayload rng sessionKey plain channel c n =
     (if wc_ProtocolVersion (cl_cfg c) = ''v2''
      then let (seq, c) = nextSeq c;
               mode = SelectObfsMode seq (length plain)
           in (case BuildDataFrameV2 rng sessionKey channel seq mode plain 64 of
                 Inl e \<Rightarrow> (Inl e, c, n)
               | Inr raw \<Rightarrow>
                 let tcp = (\<lambda>n. case conn_write raw n of (r, n) \<Rightarrow> (r, c, n))
                 in if channel = 1 \<and> shouldUseUDP c seq \<and> cl_udp c \<and> cl_sessionID c \<noteq> []
                    then (case BuildDatagramFrameV2 (rng_skip 3 rng) sessionKey (cl_sessionID c) channel seq
                                 mode plain 64 of
                            Inl e \<Rightarrow> tcp n
                          | Inr dgram \<Rightarrow>
                            (case udp_Send dgram n of
                               (True, n) \<Rightarrow> (Inr (), c, n)
                             | (False, n) \<Rightarrow> tcp n))
                    else tcp n)
      else (case Encrypt rng sessionKey plain of
              Inl e \<Rightarrow> (Inl e, c, n)
            | Inr ciphertext \<Rightarrow>
              (case conn_write (DataFrame_marshal \<lparr>data_Type = TypeData, data_Ciphertext = ciphertext\<rparr>) n of
                 (r, n) \<Rightarrow> (r, c, n))))"

definition readEncryptedPayload :: "bytes \<Rightarrow> SecureTCPClient \<Rightarrow> net \<Rightarrow> bytes result \<times> net" where
  "readEncryptedPayload sessionKey c n =
     (case conn_read n of
        (Inl e, n) \<Rightarrow> (Inl e, n)
      | (Inr respRaw, n) \<Rightarrow>
        if wc_ProtocolVersion (cl_cfg c) = ''v2''
        then (case ParseDataFrameV2 sessionKey respRaw of
                Inl e \<Rightarrow> (Inl e, n)
              | Inr (_, payload) \<Rightarrow> (Inr payload, n))
        else (case DataFrame_unmarshal respRaw of
                Inl e \<Rightarrow> (Inl e, n)
              | Inr resp \<Rightarrow> (Decrypt sessionKey (data_Ciphertext resp), n)))"

definition secureRequest ::
  "rng \<Rightarrow> bytes \<Rightarrow> bytes \<Rightarrow> SecureTCPClient \<Rightarrow> net \<Rightarrow> bytes result \<times> SecureTCPClient \<times> net" where
  "secureRequest rng sessionKey plain c n =
     (case sendEncryptedPayload rng sessionKey plain 2 c n of
        (Inl e, c, n) \<Rightarrow> (Inl e, c, n)
      | (Inr _, c, n) \<Rightarrow> (case readEncryptedPayload sessionKey c n of (r, n) \<Rightarrow> (r, c, n)))"

definition closeUDP :: "SecureTCPClient \<Rightarrow> SecureTCPClient" where
  "closeUDP c = c\<lparr>cl_udp := False\<rparr>"

text \<open>\<open>dial\<close> is the outcome of \<open>udp.Dial\<close>.\<close>

definition initUDPPlane ::
  "rng \<Rightarrow> unit result \<Rightarrow> bytes \<Rightarrow> SecureTCPClient \<Rightarrow> net \<Rightarrow> unit result \<times> SecureTCPClient \<times> net" where
  "initUDPPlane rng dial sessionKey c n =
     (if wc_ProtocolVersion (cl_cfg c) \<noteq> ''v2'' \<or> \<not> wc_EnableMultiTransport (cl_cfg c)
         \<or> wc_ServerUDP (cl_cfg c) = [] \<or> cl_sessionID c = []
      then (Inr (), c, n)
      else (case dial of
        Inl e \<Rightarrow> (Inl e, c, n)
      | Inr _ \<Rightarrow>
        (let c = c\<lparr>cl_udp := True\<rparr>;
             (seq, c) = nextSeq c
         in (case BuildDatagramFrameV2 rng sessionKey (cl_sessionID c) 2 seq ''bind'' (bytes_of_str ''bind'') 24 of
               Inl e \<Rightarrow> (Inl e, c, n)
             | Inr raw \<Rightarrow>
               (case udp_Send raw n of
                  (ok, n) \<Rightarrow> ((if ok then Inr () else Inl ENet), c, n))))))"

text \<open>
  \<open>runOneSession\<close> up to its loop: the error of the data plane is only logged, so the result is
  the session key or the error of the handshake. \<open>dial\<close> is the outcome of \<open>net.DialTimeout\<close>.
\<close>

definition openSession ::
  "x25519_fun \<Rightarrow> draw \<Rightarrow> rng \<Rightarrow> int \<Rightarrow> unit result \<Rightarrow> unit result \<Rightarrow> SecureTCPClient \<Rightarrow> net
     \<Rightarrow> bytes result \<times> SecureTCPClient \<times> net" where
  "openSession x25519 d rng now dial udpDial c n =
     (case dial of
        Inl e \<Rightarrow> (Inl e, c, n)
      | Inr _ \<Rightarrow>
      (case doHandshake x25519 d now c n of
        (Inl e, c, n) \<Rightarrow> (Inl e, c, n)
      | (Inr sessionKey, c, n) \<Rightarrow>
        (case initUDPPlane rng udpDial sessionKey (closeUDP c) n of
          (_, c, n) \<Rightarrow> (Inr sessionKey, c, n))))"

definition ping_message :: "string \<Rightarrow> int \<Rightarrow> SecureTCPClient \<Rightarrow> bytes" where
  "ping_message prefix now c = bytes_of_str (prefix @ ''profile='' @ wc_ProfileName (cl_cfg c)
     @ '' device='' @ wc_DeviceName (cl_cfg c) @ '' ts='' @ int_text now)"

text \<open>One tick of the session loop; the tunnel probe differs in the text only.\<close>

definition pingTick :: "rng \<Rightarrow> string \<Rightarrow> int \<Rightarrow> bytes \<Rightarrow> SecureTCPClient \<Rightarrow> net
    \<Rightarrow> bytes result \<times> SecureTCPClient \<times> net" where
  "pingTick rng prefix now sessionKey c n = secureRequest rng sessionKey (ping_message prefix now c) c n"

subsection \<open>The three loops of a tunnel session\<close>

text \<open>
  One round of each goroutine of \<open>runTunnelSession\<close>: it goes on, ends quietly because the
  session was cancelled, or reports an error. \<open>cancelled\<close> is whether \<open>sessionCtx.Err()\<close> is set
  when an error is looked at.
\<close>

datatype round = Continue | Quit | Failed go_error

definition fail_round :: "bool \<Rightarrow> go_error \<Rightarrow> round" where
  "fail_round cancelled e = (if cancelled then Quit else Failed e)"

definition uplinkRound ::
  "rng \<Rightarrow> bool \<Rightarrow> bytes result \<Rightarrow> bytes \<Rightarrow> SecureTCPClient \<Rightarrow> net \<Rightarrow> round \<times> SecureTCPClient \<times> net" where
  "uplinkRound rng cancelled read sessionKey c n =
     (case read of
        Inl e \<Rightarrow> (fail_round cancelled e, c, n)
      | Inr pkt \<Rightarrow>
        if length pkt = 0 then (Continue, c, n)
        else (case sendEncryptedPayload rng sessionKey pkt 1 c n of
                (Inl e, c, n) \<Rightarrow> (fail_round cancelled e, c, n)
              | (Inr _, c, n) \<Rightarrow> (Continue, c, n)))"

definition downlinkRound :: "bool \<Rightarrow> bytes \<Rightarrow> SecureTCPClient \<Rightarrow> net \<Rightarrow> round \<times> net" where
  "downlinkRound cancelled sessionKey c n =
     (case readEncryptedPayload sessionKey c n of
        (Inl e, n) \<Rightarrow>
          (if cancelled then Quit else if e = ETimeout then Continue else Failed e, n)
      | (Inr pkt, n) \<Rightarrow>
        if length pkt = 0 then (Continue, n)
        else (case dev_WritePacket pkt n of
                (ok, n) \<Rightarrow> (if ok then Continue else fail_round cancelled EOs, n)))"

text \<open>\<open>recv\<close> is the datagram the socket delivers, if any before the deadline.\<close>

definition datagramRound :: "bool \<Rightarrow> bytes result \<Rightarrow> bytes \<Rightarrow> SecureTCPClient \<Rightarrow> net \<Rightarrow> round \<times> net" where
  "datagramRound cancelled recv sessionKey c n =
     (if \<not> cl_udp c \<or> cl_sessionID c = [] then (Continue, n)
      else (case recv of
        Inl e \<Rightarrow> (if e = ETimeout then Continue else if cancelled then Quit else Continue, n)
      | Inr raw \<Rightarrow>
      (case ParseDatagramFrameV2 sessionKey (udp_receive raw) of
        Inl e \<Rightarrow> (Continue, n)
      | Inr (frame, payload) \<Rightarrow>
        if dg_SessionID frame \<noteq> cl_sessionID c \<or> dg_Channel frame \<noteq> 1 then (Continue, n)
        else if length payload = 0 then (Continue, n)
        else (case dev_WritePacket payload n of
                (ok, n) \<Rightarrow> (if ok then Continue else fail_round cancelled EOs, n)))))"

subsection \<open>key\_store.go\<close>

record keyFilePayload =
  kf_ClientPrivateKey :: string
  kf_ClientPublicKey :: string

definition keyFilePayload_members :: "keyFilePayload \<Rightarrow> (string \<times> json) list" where
  "keyFilePayload_members k = [(''client_private_key'', JStr (kf_ClientPrivateKey k)),
     (''client_public_key'', JStr (kf_ClientPublicKey k))]"

definition keyFilePayload_unmarshal :: "bytes \<Rightarrow> keyFilePayload result" where
  "keyFilePayload_unmarshal raw = (case obj_members raw of Inl e \<Rightarrow> Inl e | Inr ms \<Rightarrow>
     with_field (str_field ''client_private_key'' ms) (\<lambda>a.
     with_field (str_field ''client_public_key'' ms) (\<lambda>b.
       Inr \<lparr>kf_ClientPrivateKey = a, kf_ClientPublicKey = b\<rparr>)))"

text \<open>The file is the outcome of reading it; \<open>None\<close> stands for any error of the file system.\<close>

definition loadIntoConfig :: "bytes option \<Rightarrow> WinConfig \<Rightarrow> WinConfig result" where
  "loadIntoConfig file cfg =
     (case file of
        None \<Rightarrow> Inl EOs
      | Some b \<Rightarrow>
      (case keyFilePayload_unmarshal b of
        Inl e \<Rightarrow> Inl e
      | Inr data \<Rightarrow>
        if kf_ClientPrivateKey data = [] \<or> kf_ClientPublicKey data = []
        then Inl (EMsg ''key file is incomplete'')
        else Inr (cfg\<lparr>wc_ClientPrivateKey := kf_ClientPrivateKey data,
                      wc_ClientPublicKey := kf_ClientPublicKey data\<rparr>)))"

text \<open>
  \<open>savePair\<close>: the error, if any, and the new contents of the file; \<open>io\<close> is the outcome of making
  the directory and writing.
\<close>

definition savePair :: "unit result \<Rightarrow> KeyPair \<Rightarrow> unit result \<times> bytes option" where
  "savePair io pair =
     (let data = \<lparr>kf_ClientPrivateKey = PrivateKey pair, kf_ClientPublicKey = PublicKey pair\<rparr>;
          b = json_marshal_indent (JObj (keyFilePayload_members data))
      in (io, if is_ok io then Some b else None))"

text \<open>\<open>Ensure\<close>: the error, if any, the configuration as it is left, and what was written to the file.\<close>

definition KeyStore_Ensure ::
  "x25519_fun \<Rightarrow> draw \<Rightarrow> bytes option \<Rightarrow> unit result \<Rightarrow> WinConfig \<Rightarrow> unit result \<times> WinConfig \<times> bytes option" where
  "KeyStore_Ensure x25519 d file io cfg =
     (if wc_ClientPrivateKey cfg \<noteq> [] \<and> wc_ClientPublicKey cfg \<noteq> [] then (Inr (), cfg, None)
      else (case loadIntoConfig file cfg of
        Inr cfg' \<Rightarrow> (Inr (), cfg', None)
      | Inl _ \<Rightarrow>
      (case GenerateKeyPair x25519 d of
        Inl e \<Rightarrow> (Inl e, cfg, None)
      | Inr pair \<Rightarrow>
        (let cfg = cfg\<lparr>wc_ClientPrivateKey := PrivateKey pair, wc_ClientPublicKey := PublicKey pair\<rparr>
         in (case savePair io pair of (r, kept) \<Rightarrow> (r, cfg, kept))))))"

subsection \<open>app.go\<close>

text \<open>\<open>New\<close>: the client it builds, and what the key store wrote.\<close>

definition App_New ::
  "x25519_fun \<Rightarrow> draw \<Rightarrow> bytes option \<Rightarrow> unit result \<Rightarrow> WinConfig \<Rightarrow> SecureTCPClient result \<times> bytes option" where
  "App_New x25519 d file io cfg =
     (if wc_ServerPublicKey cfg = [] then (Inl (EMsg ''server_public_key is required''), None)
      else case KeyStore_Ensure x25519 d file io cfg of
        (Inl e, _, kept) \<Rightarrow> (Inl e, kept)
      | (Inr _, cfg, kept) \<Rightarrow> (Inr (NewSecureTCPClient cfg), kept))"

text \<open>
  An application starts with a complete key pair: the configured one, the stored one, or a fresh
  one, which is then the one stored. A configuration that only lacks one half of the pair has
  the other half replaced. Started again with the file as it was left, it is the same application.
\<close>

definition stored_pair :: "bytes option \<Rightarrow> keyFilePayload option" where
  "stored_pair file = (case file of None \<Rightarrow> None | Some b \<Rightarrow>
     (case keyFilePayload_unmarshal b of Inl e \<Rightarrow> None
      | Inr k \<Rightarrow> if kf_ClientPrivateKey k = [] \<or> kf_ClientPublicKey k = [] then None else Some k))"

lemma loadIntoConfig_stored: "loadIntoConfig file cfg = Inr cfg' \<longleftrightarrow>
    (\<exists>k. stored_pair file = Some k \<and> cfg' = cfg\<lparr>wc_ClientPrivateKey := kf_ClientPrivateKey k,
       wc_ClientPublicKey := kf_ClientPublicKey k\<rparr>)"
  by (auto simp: loadIntoConfig_def stored_pair_def split: option.splits sum.splits)

lemma stored_pair_complete: "stored_pair file = Some k \<Longrightarrow> kf_ClientPrivateKey k \<noteq> [] \<and> kf_ClientPublicKey k \<noteq> []"
  by (auto simp: stored_pair_def split: option.splits sum.splits if_splits)

lemma stored_pair_marshal:
  assumes "ascii a" "ascii b" "a \<noteq> []" "b \<noteq> []"
  defines "k \<equiv> \<lparr>kf_ClientPrivateKey = a, kf_ClientPublicKey = b\<rparr>"
  shows "stored_pair (Some (json_marshal_indent (JObj (keyFilePayload_members k)))) = Some k"
proof -
  have "obj_members (json_marshal_indent (JObj (keyFilePayload_members k))) = Inr (keyFilePayload_members k)"
    by (rule obj_members_marshal_indent) (simp_all add: keyFilePayload_members_def k_def assms max_depth_def)
  then show ?thesis
    using assms(3,4) by (simp add: stored_pair_def keyFilePayload_unmarshal_def keyFilePayload_members_def k_def field_eval)
qed

lemma GenerateKeyPair_text:
  assumes "x25519_laws x25519" "GenerateKeyPair x25519 d = Inr kp"
  shows "PrivateKey kp \<noteq> [] \<and> ascii (PrivateKey kp)" "PublicKey kp \<noteq> [] \<and> ascii (PublicKey kp)"
proof -
  obtain priv where "length priv = 32" "kp = keypair_of x25519 priv"
    using GenerateKeyPair_keypair assms(2) by blast
  moreover have "StdEncodeToString bs \<noteq> []" if "length bs = 32" for bs
    using that length_StdEncode [of bs] by auto
  ultimately show "PrivateKey kp \<noteq> [] \<and> ascii (PrivateKey kp)" "PublicKey kp \<noteq> [] \<and> ascii (PublicKey kp)"
    using assms(1) by (simp_all add: keypair_of_def x25519_laws_def)
qed

text \<open>The pair a configuration and a file name between them, if any.\<close>

definition known_pair :: "bytes option \<Rightarrow> WinConfig \<Rightarrow> keyFilePayload option" where
  "known_pair file cfg =
     (if wc_ClientPrivateKey cfg \<noteq> [] \<and> wc_ClientPublicKey cfg \<noteq> []
      then Some \<lparr>kf_ClientPrivateKey = wc_ClientPrivateKey cfg, kf_ClientPublicKey = wc_ClientPublicKey cfg\<rparr>
      else stored_pair file)"

definition with_pair :: "keyFilePayload \<Rightarrow> WinConfig \<Rightarrow> WinConfig" where
  "with_pair k cfg = cfg\<lparr>wc_ClientPrivateKey := kf_ClientPrivateKey k, wc_ClientPublicKey := kf_ClientPublicKey k\<rparr>"

lemma load_stored: "stored_pair file = Some k \<Longrightarrow> loadIntoConfig file cfg = Inr (with_pair k cfg)"
  by (simp add: loadIntoConfig_stored with_pair_def)

lemma KeyStore_Ensure_known: "known_pair file cfg = Some k \<Longrightarrow> KeyStore_Ensure x25519 d file io cfg = (Inr (), with_pair k cfg, None)"
  by (auto simp: KeyStore_Ensure_def known_pair_def load_stored split: if_splits) (simp add: with_pair_def)

lemma KeyStore_Ensure_fresh:
  assumes "known_pair file cfg = None"
  shows "KeyStore_Ensure x25519 d file io cfg =
    (case GenerateKeyPair x25519 d of
       Inl e \<Rightarrow> (Inl e, cfg, None)
     | Inr pair \<Rightarrow> let k = \<lparr>kf_ClientPrivateKey = PrivateKey pair, kf_ClientPublicKey = PublicKey pair\<rparr>
         in (io, with_pair k cfg, if is_ok io then Some (json_marshal_indent (JObj (keyFilePayload_members k))) else None))"
proof -
  have "stored_pair file = None" "\<not> (wc_ClientPrivateKey cfg \<noteq> [] \<and> wc_ClientPublicKey cfg \<noteq> [])"
    using assms by (auto simp: known_pair_def split: if_splits)
  moreover from this obtain e where "loadIntoConfig file cfg = Inl e"
    using loadIntoConfig_stored [of "file" "cfg"] by (cases "loadIntoConfig file cfg") auto
  ultimately show ?thesis
    by (auto simp: KeyStore_Ensure_def savePair_def with_pair_def Let_def split: sum.splits)
qed

lemma known_pair_complete: "known_pair file cfg = Some k \<Longrightarrow> kf_ClientPrivateKey k \<noteq> [] \<and> kf_ClientPublicKey k \<noteq> []"
  using stored_pair_complete by (auto simp: known_pair_def split: if_splits)

theorem App_New_known:
  assumes "x25519_laws x25519" "App_New x25519 d file io cfg = (Inr c, kept)"
  defines "file' \<equiv> (case kept of None \<Rightarrow> file | Some b \<Rightarrow> Some b)"
  shows "\<exists>k. known_pair file' cfg = Some k \<and> c = NewSecureTCPClient (with_pair k cfg)
    \<and> (known_pair file cfg \<noteq> None \<longrightarrow> kept = None)"
proof (cases "known_pair file cfg")
  case (Some k)
  then have "c = NewSecureTCPClient (with_pair k cfg)" "kept = None"
    using assms(2) KeyStore_Ensure_known [OF Some] by (auto simp: App_New_def split: if_splits)
  then show ?thesis using Some by (simp add: file'_def)
next
  case None
  then obtain pair where g: "GenerateKeyPair x25519 d = Inr pair"
    using assms(2) KeyStore_Ensure_fresh [OF None] by (auto simp: App_New_def split: if_splits sum.splits)
  define k where "k = \<lparr>kf_ClientPrivateKey = PrivateKey pair, kf_ClientPublicKey = PublicKey pair\<rparr>"
  have io: "is_ok io" "c = NewSecureTCPClient (with_pair k cfg)" "kept = Some (json_marshal_indent (JObj (keyFilePayload_members k)))"
    using assms(2) KeyStore_Ensure_fresh [OF None] g by (auto simp: App_New_def k_def Let_def split: if_splits sum.splits)
  have "stored_pair kept = Some k"
    using stored_pair_marshal GenerateKeyPair_text [OF assms(1) g] unfolding io(3) k_def by blast
  then have "known_pair file' cfg = Some k"
    using None io(3) by (auto simp: file'_def known_pair_def split: if_splits)
  then show ?thesis using io(2) None by blast
qed

lemma App_New_again:
  assumes "known_pair file cfg = Some k" "wc_ServerPublicKey cfg \<noteq> []"
  shows "App_New x25519 d file io cfg = (Inr (NewSecureTCPClient (with_pair k cfg)), None)"
  using KeyStore_Ensure_known [OF assms(1)] assms(2) by (simp add: App_New_def)

subsection \<open>Which plane a packet takes\<close>

lemma shouldUseUDP_iff: "shouldUseUDP c seq \<longleftrightarrow> wc_EnableMultiTransport (cl_cfg c)
    \<and> wc_ServerUDP (cl_cfg c) \<noteq> [] \<and> \<not> 4 dvd unat seq"
  by (simp add: shouldUseUDP_def unat_mod dvd_eq_mod_eq_0 word_unat_eq_iff)

fun next_seqs :: "nat \<Rightarrow> SecureTCPClient \<Rightarrow> 32 word list" where
  "next_seqs 0 c = []"
| "next_seqs (Suc k) c = (case nextSeq c of (s, c) \<Rightarrow> s # next_seqs k c)"

lemma next_seqs_eq: "next_seqs k c = map (\<lambda>i. cl_seq c + 1 + of_nat i) [0..<k]"
proof (induction k arbitrary: c)
  case (Suc k)
  have "[0..<Suc k] = 0 # map Suc [0..<k]" by (simp add: map_Suc_upt upt_conv_Cons)
  with Suc [of "c\<lparr>cl_seq := cl_seq c + 1\<rparr>"] show ?case
    by (simp add: nextSeq_def Let_def add.commute add.left_commute del: upt_Suc)
qed simp

lemma next_seqs_distinct: "k \<le> 2 ^ 32 \<Longrightarrow> distinct (next_seqs k c)"
proof -
  assume k: "k \<le> 2 ^ 32"
  have "inj_on (\<lambda>i. cl_seq c + 1 + of_nat i) {0..<k}"
  proof (rule inj_onI)
    fix i j assume ij: "i \<in> {0..<k}" "j \<in> {0..<k}" "cl_seq c + 1 + of_nat i = cl_seq c + 1 + of_nat j"
    then have "(of_nat i :: 32 word) = of_nat j" by simp
    then have "take_bit 32 i = take_bit 32 j" by (simp only: word_of_nat_eq_iff) simp
    with ij k show "i = j" by (simp add: take_bit_nat_eq_self)
  qed
  then show ?thesis by (simp add: next_seqs_eq distinct_map)
qed

end
