(* ===== verification/EndToEnd.thy ===== *)
theory EndToEnd
  imports ServerBehaviour WinClient
begin

text \<open>
  Client and server together: the bytes one side writes are the bytes the other reads. The
  version 2 and version 1 handshakes end with the same session key on both sides, and a packet
  read from the client's device is the packet the server gives to its tunnel.
\<close>

subsection \<open>Sizes of the handshake messages\<close>

lemma int_text_length:
  assumes "0 \<le> t" "t < 2 ^ 63"
  shows "length (int_text t) \<le> 19"
proof -
  have "nat t < 10 ^ 19" using assms by (simp add: nat_less_iff)
  then show ?thesis using assms nat_digits_length [of "nat t" 19] by (simp add: int_text_def)
qed

lemma length_TypeHello: "length TypeHello = 8"
  by (simp add: TypeHello_def)

lemma HelloJSON_length:
  assumes "NewHello d now pk psk pv = Inr (h, nonce)" "plain_text pk" "plain_text pv"
    "length pk = 44" "length pv \<le> 2" "0 \<le> now" "now < 2 ^ 63"
  shows "length (HelloJSON h) \<le> 256" "HelloJSON h \<noteq> []"
proof -
  note n = NewHello_Inr [OF assms(1)]
  have p: "plain_text (hello_ProtoVersion h)" "plain_text (AuthTag h)" "plain_text (ClientNonce h)"
    "length (hello_ProtoVersion h) \<le> 2" "length (ClientNonce h) = 24" "plain_text (hello_Type h)"
    "length (hello_Type h) = 8"
    using n assms plain_types(1) length_TypeHello by (auto simp: BuildHelloAuth_def length_StdEncode)
  show "length (HelloJSON h) \<le> 256"
    using p n assms int_text_length [OF assms(6,7)]
    by (simp add: HelloJSON_def json_marshal_def HelloFrame_members_def length_quote_plain length_quote_name
        between_def is_digit_def)
  show "HelloJSON h \<noteq> []"
    by (simp add: HelloJSON_def json_marshal_def HelloFrame_members_def bytes_of_str_def)
qed

lemma AuthFrame_frame_ok:
  "frame_ok (AuthFrame_marshal \<lparr>auth_Type = TypeAuth, auth_ProtoVersion = ''v2'', Proof = BuildAuthProof k t\<rparr>)"
  "length (AuthFrame_marshal \<lparr>auth_Type = TypeAuth, auth_ProtoVersion = ''v2'', Proof = BuildAuthProof k t\<rparr>) \<le> 256"
proof -
  have p: "plain_text (BuildAuthProof k t)" "length TypeAuth = 7"
    by (simp_all add: BuildAuthProof_def TypeAuth_def)
  show len: "length (AuthFrame_marshal \<lparr>auth_Type = TypeAuth, auth_ProtoVersion = ''v2'', Proof = BuildAuthProof k t\<rparr>) \<le> 256"
    using p by (simp add: AuthFrame_marshal_def json_marshal_def length_quote_plain length_quote_name
        between_def is_digit_def)
  show "frame_ok (AuthFrame_marshal \<lparr>auth_Type = TypeAuth, auth_ProtoVersion = ''v2'', Proof = BuildAuthProof k t\<rparr>)"
    using len by (simp add: frame_ok_def)
      (simp add: AuthFrame_marshal_def json_marshal_def bytes_of_str_def)
qed

lemma ChallengeFrame_frame_ok:
  assumes "length n = 16"
  shows "frame_ok (ChallengeFrame_marshal (BuildChallenge k n))"
proof -
  have p: "length TypeChallenge = 12" "length (ch_ServerNonce (BuildChallenge k n)) = 24"
    "length (Ticket (BuildChallenge k n)) = 44" "plain_text (ch_ServerNonce (BuildChallenge k n))"
    "plain_text (Ticket (BuildChallenge k n))" "ch_Type (BuildChallenge k n) = TypeChallenge"
    "ch_ProtoVersion (BuildChallenge k n) = ''v2''"
    using assms by (simp_all add: BuildChallenge_def TypeChallenge_def length_StdEncode)
  then have "length (ChallengeFrame_marshal (BuildChallenge k n)) \<le> 256"
    by (simp add: ChallengeFrame_marshal_def ChallengeFrame_members_def json_marshal_def length_quote_plain
        length_quote_name between_def is_digit_def)
  then show ?thesis by (simp add: frame_ok_def)
      (simp add: ChallengeFrame_marshal_def ChallengeFrame_members_def json_marshal_def bytes_of_str_def)
qed

lemma ReadyFrame_frame_ok:
  assumes "plain_text sid" "length sid \<le> 1000"
  shows "frame_ok (ReadyFrame_marshal (BuildReady k sid))"
proof -
  have p: "length TypeReady = 8" "length (ready_Mac (BuildReady k x)) = 44"
    "plain_text (ready_Mac (BuildReady k x))" "ready_Type (BuildReady k x) = TypeReady"
    "ready_ProtoVersion (BuildReady k x) = ''v2''" "ready_SessionID (BuildReady k x) = x" for x
    by (simp_all add: BuildReady_def TypeReady_def length_StdEncode)
  then have "length (ReadyFrame_marshal (BuildReady k sid)) \<le> 2000"
    using assms by (simp add: ReadyFrame_marshal_def ReadyFrame_members_def json_marshal_def length_quote_plain
        length_quote_name between_def is_digit_def)
  then show ?thesis by (simp add: frame_ok_def)
      (simp add: ReadyFrame_marshal_def ReadyFrame_members_def json_marshal_def bytes_of_str_def)
qed

lemma AckFrame_frame_ok:
  assumes "length n = 16"
  shows "frame_ok (AckFrame_marshal (BuildAck k n))"
proof -
  have p: "length TypeAck = 6" "length (ack_ServerNonce (BuildAck k n)) = 24"
    "length (ack_Mac (BuildAck k n)) = 44" "plain_text (ack_ServerNonce (BuildAck k n))"
    "plain_text (ack_Mac (BuildAck k n))" "ack_Type (BuildAck k n) = TypeAck"
    using assms by (simp_all add: BuildAck_def TypeAck_def length_StdEncode)
  then have "length (AckFrame_marshal (BuildAck k n)) \<le> 256"
    by (simp add: AckFrame_marshal_def AckFrame_members_def json_marshal_def length_quote_plain
        length_quote_name between_def is_digit_def)
  then show ?thesis by (simp add: frame_ok_def)
      (simp add: AckFrame_marshal_def AckFrame_members_def json_marshal_def bytes_of_str_def)
qed

subsection \<open>The server's steps\<close>

text \<open>The state after an accepted hello of version 2 on a new connection.\<close>

definition awaiting :: "env \<Rightarrow> conn \<Rightarrow> bytes \<Rightarrow> bytes \<Rightarrow> connState" where
  "awaiting env c key serverNonce = zero_connState\<lparr>lastSeen := clock env 1, st_conn := Some c,
     sessionKey := key, protoVersion := ''v2'', pendingTicket := Ticket (BuildChallenge key serverNonce),
     awaitAuthV2 := True\<rparr>"

lemma server_hello_v2:
  assumes "conns s c = None" "sc_ServerPrivateKey (cfg s) \<noteq> []" "payload \<noteq> []"
    and "int (length payload) \<le> wrap64 (sc_MaxPacketSize (cfg s) * 8)"
    and "ParseHello payload = Inr (hello, clientNonce)" "hello_accepted env s hello clientNonce"
    and "SharedSecret (env_x25519 env) (sc_ServerPrivateKey (cfg s)) (ClientPublicKey hello) = Inr shared"
    and "read_full (env_rng env 0) 16 = Inr serverNonce" "hello_ProtoVersion hello = ''v2''" "conn_ok env c"
  defines "key \<equiv> DeriveSessionKey shared clientNonce serverNonce"
    and "t \<equiv> handleTCPPayload env c payload s"
  shows "effects t = effects s @ [TCPWrite c (frame_bytes (ChallengeFrame_marshal (BuildChallenge key serverNonce)))]"
    "conns t c = Some (next_ptr s)" "heap t (next_ptr s) = awaiting env c key serverNonce" "cfg t = cfg s"
    "bySID t = bySID s"
proof -
  have ok: "frame_ok (ChallengeFrame_marshal (BuildChallenge key serverNonce))"
    using read_full_length [OF assms(8)] by (rule ChallengeFrame_frame_ok)
  have h: "ValidateTimestamp (clock env 2 div 1000000000) (Timestamp hello) (sc_HandshakeSkewSec (cfg s))"
    "VerifyHelloAuth (sc_PreSharedKey (cfg s)) hello clientNonce"
    using assms(6) by (simp_all add: hello_accepted_def)
  obtain u where t: "t = emit (TCPWrite c (frame_bytes (ChallengeFrame_marshal (BuildChallenge key serverNonce)))) u"
    and u: "effects u = effects s" "conns u = (conns s)(c \<mapsto> next_ptr s)" "cfg u = cfg s" "bySID u = bySID s"
      "heap u (next_ptr s) = awaiting env c key serverNonce"
    using assms(1-10) h ok
    by (simp add: t_def key_def [symmetric] handleTCPPayload_def getConnState_def handleTCPState_def
        handlePreSecureFrame_def zero_connState_def handleHelloFrame_def Let_def tcp_WriteFrame_ok
        remove_on_error_def awaiting_def)
  show "effects t = effects s @ [TCPWrite c (frame_bytes (ChallengeFrame_marshal (BuildChallenge key serverNonce)))]"
    "conns t c = Some (next_ptr s)" "heap t (next_ptr s) = awaiting env c key serverNonce" "cfg t = cfg s"
    "bySID t = bySID s"
    by (simp_all add: t u)
qed

lemma server_hello_v1:
  assumes "conns s c = None" "sc_ServerPrivateKey (cfg s) \<noteq> []" "payload \<noteq> []"
    and "int (length payload) \<le> wrap64 (sc_MaxPacketSize (cfg s) * 8)"
    and "ParseHello payload = Inr (hello, clientNonce)" "hello_accepted env s hello clientNonce"
    and "SharedSecret (env_x25519 env) (sc_ServerPrivateKey (cfg s)) (ClientPublicKey hello) = Inr shared"
    and "read_full (env_rng env 0) 16 = Inr serverNonce" "hello_ProtoVersion hello \<noteq> ''v2''" "conn_ok env c"
  defines "key \<equiv> DeriveSessionKey shared clientNonce serverNonce"
    and "t \<equiv> handleTCPPayload env c payload s"
  shows "effects t = effects s @ [TCPWrite c (frame_bytes (AckFrame_marshal (BuildAck key serverNonce)))]"
    "conns t c = Some (next_ptr s)" "sessionKey (heap t (next_ptr s)) = key" "secureReady (heap t (next_ptr s))"
    "protoVersion (heap t (next_ptr s)) = hello_ProtoVersion hello"
proof -
  have ok: "frame_ok (AckFrame_marshal (BuildAck key serverNonce))"
    using read_full_length [OF assms(8)] by (rule AckFrame_frame_ok)
  have h: "ValidateTimestamp (clock env 2 div 1000000000) (Timestamp hello) (sc_HandshakeSkewSec (cfg s))"
    "VerifyHelloAuth (sc_PreSharedKey (cfg s)) hello clientNonce"
    using assms(6) by (simp_all add: hello_accepted_def)
  obtain u where t: "t = emit (TCPWrite c (frame_bytes (AckFrame_marshal (BuildAck key serverNonce)))) u"
    and u: "effects u = effects s" "conns u = (conns s)(c \<mapsto> next_ptr s)" "sessionKey (heap u (next_ptr s)) = key"
      "secureReady (heap u (next_ptr s))" "protoVersion (heap u (next_ptr s)) = hello_ProtoVersion hello"
    using assms(1-10) h ok
    by (simp add: t_def key_def [symmetric] handleTCPPayload_def getConnState_def handleTCPState_def
        handlePreSecureFrame_def zero_connState_def handleHelloFrame_def Let_def tcp_WriteFrame_ok
        remove_on_error_def)
  show "effects t = effects s @ [TCPWrite c (frame_bytes (AckFrame_marshal (BuildAck key serverNonce)))]"
    "conns t c = Some (next_ptr s)" "sessionKey (heap t (next_ptr s)) = key" "secureReady (heap t (next_ptr s))"
    "protoVersion (heap t (next_ptr s)) = hello_ProtoVersion hello"
    by (simp_all add: t u)
qed

lemma server_auth_v2:
  assumes "conns s c = Some p" "\<not> secureReady (heap s p)" "awaitAuthV2 (heap s p)"
    and "sc_ServerPrivateKey (cfg s) \<noteq> []" "256 \<le> wrap64 (sc_MaxPacketSize (cfg s) * 8)"
    and "sessionKey (heap s p) = key" "pendingTicket (heap s p) = ticket" "conn_ok env c"
    and "newSessionID env \<noteq> []" "length (newSessionID env) \<le> 1000"
  defines "t \<equiv> handleTCPPayload env c (AuthFrame_marshal \<lparr>auth_Type = TypeAuth, auth_ProtoVersion = ''v2'',
      Proof = BuildAuthProof key ticket\<rparr>) s"
  shows "effects t = effects s @ [TCPWrite c (frame_bytes (ReadyFrame_marshal (BuildReady key (newSessionID env))))]"
    "conns t c = Some p" "bySID t (newSessionID env) = Some p" "secureReady (heap t p)"
    "sessionKey (heap t p) = key" "protoVersion (heap t p) = protoVersion (heap s p)"
    "sessionID (heap t p) = newSessionID env"
proof -
  define payload where "payload = AuthFrame_marshal \<lparr>auth_Type = TypeAuth, auth_ProtoVersion = ''v2'',
      Proof = BuildAuthProof key ticket\<rparr>"
  have ok: "frame_ok (ReadyFrame_marshal (BuildReady key (newSessionID env)))"
    using assms(10) by (intro ReadyFrame_frame_ok) simp_all
  have len: "payload \<noteq> []" "int (length payload) \<le> wrap64 (sc_MaxPacketSize (cfg s) * 8)"
    using AuthFrame_frame_ok [of key ticket] assms(5) by (auto simp: payload_def frame_ok_def)
  have parse: "AuthFrame_unmarshal payload = Inr \<lparr>auth_Type = TypeAuth, auth_ProtoVersion = ''v2'',
      Proof = BuildAuthProof key ticket\<rparr>"
    unfolding payload_def by (rule AuthFrame_roundtrip) (simp add: AuthFrame_ascii_def)
  obtain u where t: "t = emit (TCPWrite c (frame_bytes (ReadyFrame_marshal (BuildReady key (newSessionID env))))) u"
    and u: "effects u = effects s" "conns u c = Some p" "bySID u (newSessionID env) = Some p"
      "secureReady (heap u p)" "sessionKey (heap u p) = key" "protoVersion (heap u p) = protoVersion (heap s p)"
      "sessionID (heap u p) = newSessionID env"
    using assms(1-9) ok len parse
    by (simp add: t_def payload_def [symmetric] handleTCPPayload_def getConnState_def handleTCPState_def
        handlePreSecureFrame_def handleAuthV2Frame_def Let_def tcp_WriteFrame_ok remove_on_error_def)
  show "effects t = effects s @ [TCPWrite c (frame_bytes (ReadyFrame_marshal (BuildReady key (newSessionID env))))]"
    "conns t c = Some p" "bySID t (newSessionID env) = Some p" "secureReady (heap t p)"
    "sessionKey (heap t p) = key" "protoVersion (heap t p) = protoVersion (heap s p)"
    "sessionID (heap t p) = newSessionID env"
    by (simp_all add: t u)
qed

subsection \<open>The client's steps\<close>

definition all_writes_ok :: "net \<Rightarrow> bool" where
  "all_writes_ok n \<longleftrightarrow> (\<forall>i. write_ok n i)"

lemma conn_write_ok: "frame_ok w \<Longrightarrow> all_writes_ok n \<Longrightarrow> conn_write w n = (Inr (), n\<lparr>tx := tx n @ [frame_bytes w]\<rparr>)"
  by (simp add: conn_write_def WriteFrame_frame_bytes all_writes_ok_def)

lemma conn_read_frame: "frame_ok w \<Longrightarrow> rx n = frame_bytes w @ rest \<Longrightarrow> conn_read n = (Inr w, n\<lparr>rx := rest\<rparr>)"
  using frame.take_off_put [OF _ WriteFrame_frame_bytes, of w "rx_end n" rest]
  by (simp add: conn_read_def readFrameWithTimeout_readFrame)

lemma all_writes_ok_upd [simp]:
  "all_writes_ok (n\<lparr>tx := x\<rparr>) = all_writes_ok n" "all_writes_ok (n\<lparr>rx := y\<rparr>) = all_writes_ok n"
  by (simp_all add: all_writes_ok_def)

lemma client_handshake_v2:
  assumes "NewHello d now (wc_ClientPublicKey (cl_cfg c)) (wc_PreSharedKey (cl_cfg c)) ''v2'' = Inr (hello, clientNonce)"
    and "wc_ProtocolVersion (cl_cfg c) = ''v2''" "frame_ok (HelloJSON hello)"
    and "SharedSecret x25519 (wc_ClientPrivateKey (cl_cfg c)) (wc_ServerPublicKey (cl_cfg c)) = Inr shared"
    and "length serverNonce = 16" "plain_text sid" "length sid \<le> 1000" "all_writes_ok n"
  defines "key \<equiv> DeriveSessionKey shared clientNonce serverNonce"
  assumes "rx n = frame_bytes (ChallengeFrame_marshal (BuildChallenge key serverNonce))
      @ frame_bytes (ReadyFrame_marshal (BuildReady key sid)) @ rest"
  shows "doHandshake x25519 d now c n = (Inr key, c\<lparr>cl_sessionID := sid\<rparr>,
      n\<lparr>rx := rest, tx := tx n @ [frame_bytes (HelloJSON hello), frame_bytes (AuthFrame_marshal
         \<lparr>auth_Type = TypeAuth, auth_ProtoVersion = ''v2'',
          Proof = BuildAuthProof key (Ticket (BuildChallenge key serverNonce))\<rparr>)]\<rparr>)"
proof -
  define ch where "ch = BuildChallenge key serverNonce"
  define auth where "auth = \<lparr>auth_Type = TypeAuth, auth_ProtoVersion = ''v2'', Proof = BuildAuthProof key (Ticket ch)\<rparr>"
  have ok: "frame_ok (ChallengeFrame_marshal ch)" "frame_ok (ReadyFrame_marshal (BuildReady key sid))"
    "frame_ok (AuthFrame_marshal auth)"
    using ChallengeFrame_frame_ok ReadyFrame_frame_ok AuthFrame_frame_ok assms(5-7)
    by (simp_all add: ch_def auth_def)
  have ready: "ReadyFrame_unmarshal (ReadyFrame_marshal (BuildReady key sid)) = Inr (BuildReady key sid)"
    using assms(6) by (intro ReadyFrame_roundtrip) (simp add: plain_text_ascii)
  have sid: "ready_SessionID (BuildReady key sid) = sid" by (simp add: BuildReady_def)
  have ch: "ParseChallenge (ChallengeFrame_marshal ch) = Inr (ch, serverNonce)"
    unfolding ch_def using assms(5) by (rule ParseChallenge_BuildChallenge)
  define n1 where "n1 = n\<lparr>tx := tx n @ [frame_bytes (HelloJSON hello)]\<rparr>"
  define n2 where "n2 = n1\<lparr>rx := frame_bytes (ReadyFrame_marshal (BuildReady key sid)) @ rest\<rparr>"
  define n3 where "n3 = n2\<lparr>tx := tx n2 @ [frame_bytes (AuthFrame_marshal auth)]\<rparr>"
  have w1: "conn_write (HelloJSON hello) n = (Inr (), n1)"
    unfolding n1_def using assms(3,8) by (rule conn_write_ok)
  have r1: "conn_read n1 = (Inr (ChallengeFrame_marshal ch), n2)"
    unfolding n2_def using ok(1) by (rule conn_read_frame) (simp add: n1_def assms(10) ch_def)
  have w2: "conn_write (AuthFrame_marshal auth) n2 = (Inr (), n3)"
    unfolding n3_def using ok(3) by (rule conn_write_ok) (use assms(8) in \<open>simp add: n1_def n2_def\<close>)
  have r2: "conn_read n3 = (Inr (ReadyFrame_marshal (BuildReady key sid)), n3\<lparr>rx := rest\<rparr>)"
    using ok(2) by (rule conn_read_frame) (simp add: n2_def n3_def)
  have "doHandshake x25519 d now c n = (Inr key, c\<lparr>cl_sessionID := sid\<rparr>, n3\<lparr>rx := rest\<rparr>)"
    using assms(1,2,4) w1 r1 w2 r2 ch ready sid
    by (simp add: doHandshake_def doHandshakeV2_def key_def [symmetric] auth_def [symmetric]
        VerifyReady_BuildReady Let_def)
  then show ?thesis by (simp add: n1_def n2_def n3_def ch_def auth_def)
qed

subsection \<open>Both sides\<close>

text \<open>
  The situation of an honest client and server that know each other's keys: the pairs come from
  the key generator, both have the same pre-shared key, the clocks are close enough, and the
  random sources and the connection work.
\<close>

definition honest_setup ::
  "x25519_fun \<Rightarrow> KeyPair \<Rightarrow> KeyPair \<Rightarrow> WinConfig \<Rightarrow> ServerConfig \<Rightarrow> bytes \<Rightarrow> bool" where
  "honest_setup x25519 ck sk wc sc shared \<longleftrightarrow>
     x25519_laws x25519
     \<and> (\<exists>d1 d2. GenerateKeyPair x25519 d1 = Inr ck \<and> GenerateKeyPair x25519 d2 = Inr sk)
     \<and> SharedSecret x25519 (PrivateKey ck) (PublicKey sk) = Inr shared
     \<and> wc_ClientPrivateKey wc = PrivateKey ck \<and> wc_ClientPublicKey wc = PublicKey ck
     \<and> wc_ServerPublicKey wc = PublicKey sk \<and> sc_ServerPrivateKey sc = PrivateKey sk
     \<and> sc_PreSharedKey sc = wc_PreSharedKey wc
     \<and> 256 \<le> wrap64 (sc_MaxPacketSize sc * 8)"

lemma honest_setup_facts:
  assumes "honest_setup x25519 ck sk wc sc shared"
  shows "SharedSecret x25519 (sc_ServerPrivateKey sc) (wc_ClientPublicKey wc) = Inr shared"
    "SharedSecret x25519 (wc_ClientPrivateKey wc) (wc_ServerPublicKey wc) = Inr shared"
    "plain_text (wc_ClientPublicKey wc)" "length (wc_ClientPublicKey wc) = 44" "sc_ServerPrivateKey sc \<noteq> []"
    "sc_PreSharedKey sc = wc_PreSharedKey wc" "256 \<le> wrap64 (sc_MaxPacketSize sc * 8)"
proof -
  obtain d1 d2 where g: "GenerateKeyPair x25519 d1 = Inr ck" "GenerateKeyPair x25519 d2 = Inr sk"
    and laws: "x25519_laws x25519"
    using assms by (auto simp: honest_setup_def)
  show "SharedSecret x25519 (sc_ServerPrivateKey sc) (wc_ClientPublicKey wc) = Inr shared"
    using SharedSecret_agree [OF laws g] assms by (simp add: honest_setup_def)
  obtain a b where a: "length a = 32" "ck = keypair_of x25519 a" and b: "length b = 32" "sk = keypair_of x25519 b"
    using GenerateKeyPair_keypair g by meson
  have "length (x25519 a base_point) = 32" using laws a by (simp add: x25519_laws_def)
  then show "plain_text (wc_ClientPublicKey wc)" "length (wc_ClientPublicKey wc) = 44"
    using assms a by (simp_all add: honest_setup_def keypair_of_def length_StdEncode)
  have "length (sc_ServerPrivateKey sc) = 44"
    using assms b by (simp add: honest_setup_def keypair_of_def length_StdEncode)
  then show "sc_ServerPrivateKey sc \<noteq> []" by auto
qed (use assms in \<open>simp_all add: honest_setup_def\<close>)

lemma length_RawURL: "length bs = 3 * k \<Longrightarrow> length (RawURLEncodeToString bs) = 4 * k"
  unfolding RawURLEncodeToString_def
proof (induction "url_alphabet" False bs arbitrary: k rule: b64_encode.induct)
  case (4 a b c rest)
  then obtain j where "k = Suc j" by (cases k) auto
  with 4 show ?case by (simp add: Let_def)
qed (presburger | simp)+

lemma newSessionID_ok:
  assumes "draw_ok (env_rng env 0)"
  shows "length (newSessionID env) = 16"
proof -
  obtain bs where "read_full (env_rng env 0) 12 = Inr bs" "length bs = 3 * 4"
    using read_full_ok [OF assms, of 12] by auto
  then show ?thesis using length_RawURL by (simp add: newSessionID_def)
qed

lemma handshake_v2_agrees:
  assumes "honest_setup x25519 ck sk (cl_cfg cl) (cfg s) shared"
    and "wc_ProtocolVersion (cl_cfg cl) = ''v2''" "conns s c = None"
    and "draw_ok d" "draw_ok (env_rng e1 0)" "draw_ok (env_rng e2 0)"
    and "conn_ok e1 c" "conn_ok e2 c" "env_x25519 e1 = x25519" "all_writes_ok n"
    and "0 \<le> now" "now < 2 ^ 63"
    and "ValidateTimestamp (clock e1 2 div 1000000000) now (sc_HandshakeSkewSec (cfg s))"
  shows "\<exists>hello auth w1 w2 key s2.
    s2 = handleTCPPayload e2 c auth (handleTCPPayload e1 c hello s)
    \<and> effects s2 = effects s @ [TCPWrite c w1, TCPWrite c w2]
    \<and> doHandshake x25519 d now cl (n\<lparr>rx := w1 @ w2\<rparr>)
        = (Inr key, cl\<lparr>cl_sessionID := newSessionID e2\<rparr>,
           n\<lparr>rx := [], tx := tx n @ [frame_bytes hello, frame_bytes auth]\<rparr>)
    \<and> frame_ok hello \<and> frame_ok auth
    \<and> conns s2 c = Some (next_ptr s) \<and> secureReady (heap s2 (next_ptr s))
    \<and> sessionKey (heap s2 (next_ptr s)) = key \<and> protoVersion (heap s2 (next_ptr s)) = ''v2''
    \<and> sessionID (heap s2 (next_ptr s)) = newSessionID e2 \<and> bySID s2 (newSessionID e2) = Some (next_ptr s)"
proof -
  note f = honest_setup_facts [OF assms(1)]
  define wc where "wc = cl_cfg cl"
  note f = f [folded wc_def]
  obtain hello clientNonce where hello:
    "NewHello d now (wc_ClientPublicKey wc) (wc_PreSharedKey wc) ''v2'' = Inr (hello, clientNonce)"
    using read_full_ok [OF assms(4), of 16] by (auto simp: NewHello_def)
  note h = NewHello_Inr [OF hello]
  have len: "length (HelloJSON hello) \<le> 256" "HelloJSON hello \<noteq> []"
    using HelloJSON_length [OF hello f(3) _ f(4) _ assms(11,12)] by simp_all
  have hok: "frame_ok (HelloJSON hello)" using len by (simp add: frame_ok_def)
  have pk: "ascii (wc_ClientPublicKey wc)" "wc_ClientPublicKey wc \<noteq> []" "ascii ''v2''" "in_int64 now"
    using f(3,4) assms(11,12) by (auto simp: plain_text_ascii in_int64_def)
  note parse = ParseHello_NewHello [OF hello pk]
  have acc: "hello_accepted e1 s hello clientNonce"
    using parse(2) assms(13) h(5) by (simp add: hello_accepted_def f(6))
  obtain serverNonce where sn: "read_full (env_rng e1 0) 16 = Inr serverNonce" "length serverNonce = 16"
    using read_full_ok [OF assms(5)] by blast
  define key where "key = DeriveSessionKey shared clientNonce serverNonce"
  define s1 where "s1 = handleTCPPayload e1 c (HelloJSON hello) s"
  have hs: "sc_ServerPrivateKey (cfg s) \<noteq> []" "int (length (HelloJSON hello)) \<le> wrap64 (sc_MaxPacketSize (cfg s) * 8)"
    "SharedSecret (env_x25519 e1) (sc_ServerPrivateKey (cfg s)) (ClientPublicKey hello) = Inr shared"
    "hello_ProtoVersion hello = ''v2''"
    using f len(1) h assms(9) by simp_all
  note s1 = server_hello_v2 [OF assms(3) hs(1) len(2) hs(2) parse(1) acc hs(3) sn(1) hs(4) assms(7),
      folded key_def s1_def]
  have aw: "\<not> secureReady (heap s1 (next_ptr s))" "awaitAuthV2 (heap s1 (next_ptr s))"
    "sessionKey (heap s1 (next_ptr s)) = key" "protoVersion (heap s1 (next_ptr s)) = ''v2''"
    "pendingTicket (heap s1 (next_ptr s)) = Ticket (BuildChallenge key serverNonce)"
    by (simp_all add: s1(3) awaiting_def zero_connState_def)
  have sid: "length (newSessionID e2) = 16" "plain_text (newSessionID e2)" "newSessionID e2 \<noteq> []"
    using newSessionID_ok [OF assms(6)] by auto
  have cfg1: "sc_ServerPrivateKey (cfg s1) \<noteq> []" "256 \<le> wrap64 (sc_MaxPacketSize (cfg s1) * 8)"
    using hs(1) f(7) by (simp_all add: s1(4))
  define auth where "auth = AuthFrame_marshal \<lparr>auth_Type = TypeAuth, auth_ProtoVersion = ''v2'',
      Proof = BuildAuthProof key (Ticket (BuildChallenge key serverNonce))\<rparr>"
  define s2 where "s2 = handleTCPPayload e2 c auth s1"
  have "length (newSessionID e2) \<le> 1000" using sid(1) by simp
  note s2 = server_auth_v2 [OF s1(2) aw(1,2) cfg1 aw(3,5) assms(8) sid(3) this, folded auth_def s2_def]
  have "all_writes_ok (n\<lparr>rx := frame_bytes (ChallengeFrame_marshal (BuildChallenge key serverNonce))
      @ frame_bytes (ReadyFrame_marshal (BuildReady key (newSessionID e2)))\<rparr>)"
    using assms(10) by simp
  then have "doHandshake x25519 d now cl (n\<lparr>rx := frame_bytes (ChallengeFrame_marshal (BuildChallenge key serverNonce))
      @ frame_bytes (ReadyFrame_marshal (BuildReady key (newSessionID e2)))\<rparr>)
    = (Inr key, cl\<lparr>cl_sessionID := newSessionID e2\<rparr>,
           n\<lparr>rx := [], tx := tx n @ [frame_bytes (HelloJSON hello), frame_bytes auth]\<rparr>)"
    using client_handshake_v2 [OF hello [unfolded wc_def] assms(2) hok f(2) [unfolded wc_def] sn(2) sid(2) _,
        where rest = "[]", folded key_def, folded auth_def] sid(1)
    by simp
  moreover have "effects s2 = effects s
      @ [TCPWrite c (frame_bytes (ChallengeFrame_marshal (BuildChallenge key serverNonce))),
         TCPWrite c (frame_bytes (ReadyFrame_marshal (BuildReady key (newSessionID e2))))]"
    using s1(1) s2(1) by simp
  moreover have "s2 = handleTCPPayload e2 c auth (handleTCPPayload e1 c (HelloJSON hello) s)"
    by (simp only: s2_def s1_def)
  moreover have "frame_ok auth" unfolding auth_def by (rule AuthFrame_frame_ok(1))
  moreover have "protoVersion (heap s2 (next_ptr s)) = ''v2''" using s2(6) aw(4) by simp
  ultimately show ?thesis using s2(2-5,7) hok by blast
qed

lemma client_handshake_v1:
  assumes "NewHello d now (wc_ClientPublicKey (cl_cfg c)) (wc_PreSharedKey (cl_cfg c)) (wc_ProtocolVersion (cl_cfg c))
      = Inr (hello, clientNonce)"
    and "wc_ProtocolVersion (cl_cfg c) \<noteq> ''v2''" "frame_ok (HelloJSON hello)"
    and "SharedSecret x25519 (wc_ClientPrivateKey (cl_cfg c)) (wc_ServerPublicKey (cl_cfg c)) = Inr shared"
    and "length serverNonce = 16" "all_writes_ok n"
  defines "key \<equiv> DeriveSessionKey shared clientNonce serverNonce"
  assumes "rx n = frame_bytes (AckFrame_marshal (BuildAck key serverNonce)) @ rest"
  shows "doHandshake x25519 d now c n
    = (Inr key, c, n\<lparr>rx := rest, tx := tx n @ [frame_bytes (HelloJSON hello)]\<rparr>)"
proof -
  define n1 where "n1 = n\<lparr>tx := tx n @ [frame_bytes (HelloJSON hello)]\<rparr>"
  have w1: "conn_write (HelloJSON hello) n = (Inr (), n1)"
    unfolding n1_def using assms(3,6) by (rule conn_write_ok)
  have r1: "conn_read n1 = (Inr (AckFrame_marshal (BuildAck key serverNonce)), n1\<lparr>rx := rest\<rparr>)"
    using AckFrame_frame_ok [OF assms(5)] by (rule conn_read_frame) (simp add: n1_def assms(8))
  have ack: "AckFrame_unmarshal (AckFrame_marshal (BuildAck key serverNonce)) = Inr (BuildAck key serverNonce)"
    by (rule AckFrame_roundtrip) simp
  have nonce: "decodeB64 (ack_ServerNonce (BuildAck key serverNonce)) = Inr serverNonce"
    by (simp add: decodeB64_def BuildAck_def)
  have "doHandshake x25519 d now c n = (Inr key, c, n1\<lparr>rx := rest\<rparr>)"
    using assms(1,2,4) w1 r1 ack nonce VerifyAck_BuildAck [OF assms(5), of key]
    by (simp add: doHandshake_def key_def [symmetric] Let_def)
  then show ?thesis by (simp add: n1_def)
qed

lemma handshake_v1_agrees:
  assumes "honest_setup x25519 ck sk (cl_cfg cl) (cfg s) shared"
    and "wc_ProtocolVersion (cl_cfg cl) = ''v1''" "conns s c = None"
    and "draw_ok d" "draw_ok (env_rng e1 0)" "conn_ok e1 c" "env_x25519 e1 = x25519" "all_writes_ok n"
    and "0 \<le> now" "now < 2 ^ 63"
    and "ValidateTimestamp (clock e1 2 div 1000000000) now (sc_HandshakeSkewSec (cfg s))"
  shows "\<exists>hello w key s1.
    s1 = handleTCPPayload e1 c hello s \<and> effects s1 = effects s @ [TCPWrite c w]
    \<and> doHandshake x25519 d now cl (n\<lparr>rx := w\<rparr>) = (Inr key, cl, n\<lparr>rx := [], tx := tx n @ [frame_bytes hello]\<rparr>)
    \<and> frame_ok hello \<and> conns s1 c = Some (next_ptr s) \<and> secureReady (heap s1 (next_ptr s))
    \<and> sessionKey (heap s1 (next_ptr s)) = key \<and> protoVersion (heap s1 (next_ptr s)) = ''v1''"
proof -
  note f = honest_setup_facts [OF assms(1)]
  define wc where "wc = cl_cfg cl"
  note f = f [folded wc_def]
  obtain hello clientNonce where hello:
    "NewHello d now (wc_ClientPublicKey wc) (wc_PreSharedKey wc) ''v1'' = Inr (hello, clientNonce)"
    using read_full_ok [OF assms(4), of 16] by (auto simp: NewHello_def)
  note h = NewHello_Inr [OF hello]
  have len: "length (HelloJSON hello) \<le> 256" "HelloJSON hello \<noteq> []"
    using HelloJSON_length [OF hello f(3) _ f(4) _ assms(9,10)] by simp_all
  have hok: "frame_ok (HelloJSON hello)" using len by (simp add: frame_ok_def)
  have pk: "ascii (wc_ClientPublicKey wc)" "wc_ClientPublicKey wc \<noteq> []" "ascii ''v1''" "in_int64 now"
    using f(3,4) assms(9,10) by (auto simp: plain_text_ascii in_int64_def)
  note parse = ParseHello_NewHello [OF hello pk]
  have acc: "hello_accepted e1 s hello clientNonce"
    using parse(2) assms(11) h(5) by (simp add: hello_accepted_def f(6))
  obtain serverNonce where sn: "read_full (env_rng e1 0) 16 = Inr serverNonce" "length serverNonce = 16"
    using read_full_ok [OF assms(5)] by blast
  define key where "key = DeriveSessionKey shared clientNonce serverNonce"
  define s1 where "s1 = handleTCPPayload e1 c (HelloJSON hello) s"
  have hs: "sc_ServerPrivateKey (cfg s) \<noteq> []" "int (length (HelloJSON hello)) \<le> wrap64 (sc_MaxPacketSize (cfg s) * 8)"
    "SharedSecret (env_x25519 e1) (sc_ServerPrivateKey (cfg s)) (ClientPublicKey hello) = Inr shared"
    "hello_ProtoVersion hello \<noteq> ''v2''"
    using f len(1) h assms(7) by simp_all
  note s1 = server_hello_v1 [OF assms(3) hs(1) len(2) hs(2) parse(1) acc hs(3) sn(1) hs(4) assms(6),
      folded key_def s1_def]
  have "all_writes_ok (n\<lparr>rx := frame_bytes (AckFrame_marshal (BuildAck key serverNonce))\<rparr>)"
    using assms(8) by simp
  moreover have "wc_ProtocolVersion (cl_cfg cl) \<noteq> ''v2''" using assms(2) by simp
  ultimately have "doHandshake x25519 d now cl (n\<lparr>rx := frame_bytes (AckFrame_marshal (BuildAck key serverNonce))\<rparr>)
      = (Inr key, cl, n\<lparr>rx := [], tx := tx n @ [frame_bytes (HelloJSON hello)]\<rparr>)"
    using client_handshake_v1 [OF hello [unfolded wc_def, folded assms(2)] _ hok f(2) [unfolded wc_def] sn(2) _,
        where rest = "[]", folded key_def]
    by simp
  moreover have "protoVersion (heap s1 (next_ptr s)) = ''v1''" using s1(5) h(7) by simp
  ultimately show ?thesis using s1(1-4) hok s1_def by blast
qed

subsection \<open>Packets from the client's device to the server's tunnel\<close>

text \<open>The client and the server hold the two ends of one version 2 session.\<close>

definition same_session :: "SecureTCPClient \<Rightarrow> bytes \<Rightarrow> conn \<Rightarrow> ptr \<Rightarrow> Server \<Rightarrow> bool" where
  "same_session cl key c p s \<longleftrightarrow>
     server_inv s \<and> sc_ServerPrivateKey (cfg s) \<noteq> [] \<and> wc_ProtocolVersion (cl_cfg cl) = ''v2''
     \<and> conns s c = Some p \<and> secureReady (heap s p) \<and> sessionKey (heap s p) = key
     \<and> protoVersion (heap s p) = ''v2'' \<and> sessionID (heap s p) = cl_sessionID cl
     \<and> bySID s (cl_sessionID cl) = Some p \<and> cl_sessionID cl \<noteq> []"

lemma server_tunnels_frame:
  assumes "server_inv s" "conns s c = Some p" "secureReady (heap s p)" "protoVersion (heap s p) = ''v2''"
    and "sc_ServerPrivateKey (cfg s) \<noteq> []" "payload \<noteq> []"
    and "int (length payload) \<le> wrap64 (sc_MaxPacketSize (cfg s) * 8)"
    and "ParseDataFrameV2 (sessionKey (heap s p)) payload = Inr (frame, plain)" "df_Channel frame = 1"
    and "int (length plain) \<le> sc_MaxPacketSize (cfg s)" "tunnel s" "isIPPacket plain" "tun_ok env plain"
  shows "tunnel_log (handleTCPPayload env c payload s) = tunnel_log s @ [plain]"
proof -
  define t where "t = upd p (\<lambda>st. st\<lparr>lastSeen := clock env 1\<rparr>) s"
  have t: "sessionKey (heap t p) = sessionKey (heap s p)" "cfg t = cfg s" "tunnel t = tunnel s"
    "protoVersion (heap t p) = ''v2''" "tunnel_log t = tunnel_log s"
    using assms(4) by (simp_all add: t_def)
  show ?thesis
    using assms t
    by (simp add: handleTCPPayload_def getConnState_def handleTCPState_touch [of env c payload p s, folded t_def]
        handleDataFrame_def handleDataFrameV2_def Let_def tunnel_WritePacket_def)
qed

lemma server_tunnels_datagram:
  assumes "server_inv s" "bySID s sid = Some p" "udpSrv s"
    and "sc_ServerPrivateKey (cfg s) \<noteq> []" "payload \<noteq> []"
    and "int (length payload) \<le> wrap64 (sc_MaxPacketSize (cfg s) * 8)"
    and "ParseDatagramFrameV2 (sessionKey (heap s p)) payload = Inr (frame, plain)"
    and "dg_SessionID frame = sid" "dg_Channel frame = 1" "dg_Mode frame \<noteq> ''bind''"
    and "int (length plain) \<le> sc_MaxPacketSize (cfg s)" "tunnel s" "isIPPacket plain" "tun_ok env plain"
  shows "tunnel_log (handleUDPPayload env a payload s) = tunnel_log s @ [plain]"
proof -
  obtain c where "sid \<noteq> []" "secureReady (heap s p)" "protoVersion (heap s p) = ''v2''"
    using server_inv_sid [OF assms(1,2)] by metis
  moreover have "ParseDatagramSessionID payload = Inr sid"
    using ParseDatagramSessionID_of_frame [OF assms(7)] assms(8) by simp
  ultimately show ?thesis
    using assms by (simp add: handleUDPPayload_def findStateBySessionID_def Let_def tunnel_WritePacket_def)
qed

lemma datagram_length:
  assumes "BuildDatagramFrameV2 rng k sid ch seq mode p maxPad = Inr raw" "mode \<in> obfs_modes" "plain_text sid"
  shows "length raw \<le> 4 * ((length p + 30) div 3) + 4 * ((nat maxPad + 2) div 3) + length sid + 138"
proof -
  have m: "plain_text mode" "ascii mode" "length mode \<le> 8"
    using obfs_modes_plain [OF assms(2)] by (simp_all add: plain_text_ascii)
  from assms(1) m(2) show ?thesis
  proof (cases rule: BuildDatagramFrameV2_cases)
    case (1 enc pad)
    have "(length pad + 2) div 3 \<le> (nat maxPad + 2) div 3"
      using randomPadding_bound [OF 1(2)] by (intro div_le_mono) simp
    then show ?thesis
      using assms(3) m Encrypt_plain [OF 1(1)] Encrypt_length [OF 1(1)]
        channel_digits [of ch] sequence_digits [of seq]
      by (simp add: 1(3) DatagramFrameV2_length length_StdEncode)
  qed
qed

lemma datagram_fits:
  assumes "BuildDatagramFrameV2 rng k sid ch seq mode p 64 = Inr raw" "mode \<in> obfs_modes" "plain_text sid"
    "length sid = 16" "length p \<le> 1320"
  shows "length raw \<le> udp_buffer" "udp_receive raw = raw"
proof -
  have "4 * ((length p + 30) div 3) \<le> 4 * (1350 div 3)"
    using assms(5) by (intro mult_le_mono div_le_mono) simp_all
  then show "length raw \<le> udp_buffer"
    using datagram_length [OF assms(1-3)] assms(4) by (simp add: udp_buffer_def)
  then show "udp_receive raw = raw" by (simp add: udp_receive_def)
qed

lemma data_frame_fits:
  assumes "BuildDataFrameV2 rng k ch seq mode p 64 = Inr raw" "mode \<in> obfs_modes" "length p \<le> 1320"
  shows "length raw \<le> 2048"
proof -
  have "4 * ((length p + 30) div 3) \<le> 4 * (1350 div 3)"
    using assms(3) by (intro mult_le_mono div_le_mono) simp_all
  then show ?thesis
    using BuildDataFrameV2_length [OF assms(1)] obfs_modes_plain [OF assms(2)] by simp
qed

text \<open>
  A packet read from the device: the client's report of success means that the one frame, or the
  one datagram, it sent makes the server write exactly this packet to its tunnel.
\<close>

lemma packet_delivered:
  assumes "same_session cl key c p s" "tunnel s" "udpSrv s" "isIPPacket pkt" "tun_ok env pkt"
    and "length pkt \<le> 1320" "int (length pkt) \<le> sc_MaxPacketSize (cfg s)"
    and "2048 \<le> wrap64 (sc_MaxPacketSize (cfg s) * 8)" "length (cl_sessionID cl) = 16"
    and "\<And>i. draw_ok (rng i)" "all_writes_ok n"
  shows "\<exists>cl' n'. sendEncryptedPayload rng key pkt 1 cl n = (Inr (), cl', n') \<and>
    ((\<exists>raw. tx n' = tx n @ [frame_bytes raw] \<and> dgrams n' = dgrams n
        \<and> tunnel_log (handleTCPPayload env c raw s) = tunnel_log s @ [pkt])
     \<or> (\<exists>d. dgrams n' = dgrams n @ [d] \<and> tx n' = tx n
        \<and> tunnel_log (handleUDPPayload env a (udp_receive d) s) = tunnel_log s @ [pkt]))"
proof -
  note S = assms(1) [unfolded same_session_def]
  define sid where "sid = cl_sessionID cl"
  define seq where "seq = cl_seq cl + 1"
  define mode where "mode = SelectObfsMode seq (length pkt)"
  have m: "mode \<in> obfs_modes" "ascii mode" "mode \<noteq> ''bind''"
    using SelectObfsMode_modes obfs_modes_plain obfs_modes_not_bind plain_text_ascii by (simp_all add: mode_def)
  have sid: "plain_text sid" "sid \<noteq> []" "length sid = 16" "ascii sid" "sessionID (heap s p) = sid"
    "bySID s sid = Some p"
    using server_inv_conn(3) [of s c p] S assms(9) plain_text_ascii by (auto simp: state_ok_def sid_def)
  obtain raw where raw: "BuildDataFrameV2 rng key 1 seq mode pkt 64 = Inr raw"
    using BuildDataFrameV2_ok assms(10) by blast
  obtain d where d: "BuildDatagramFrameV2 (rng_skip 3 rng) key sid 1 seq mode pkt 64 = Inr d"
    using BuildDatagramFrameV2_ok [of "rng_skip 3 rng"] assms(10) m(2) by (metis rng_skip_apply)
  have rawlen: "length raw \<le> 2048" using data_frame_fits [OF raw m(1) assms(6)] .
  have rawne: "raw \<noteq> []" using BuildDataFrameV2_nonempty [OF raw] .
  have rok: "frame_ok raw" using rawlen rawne by (simp add: frame_ok_def)
  obtain fr where fr: "ParseDataFrameV2 key raw = Inr (fr, pkt)" "df_Channel fr = 1"
    using ParseDataFrameV2_BuildDataFrameV2 [OF raw m(2)] by blast
  obtain dg where dg: "ParseDatagramFrameV2 key d = Inr (dg, pkt)" "dg_SessionID dg = sid" "dg_Channel dg = 1"
    "dg_Mode dg = mode"
    using ParseDatagram_BuildDatagram [OF d m(2) sid(4,2)] by blast
  have dlen: "udp_receive d = d" "length d \<le> 2048" "d \<noteq> []"
    using datagram_fits [OF d m(1) sid(1,3) assms(6)] datagram_minimum_length [OF d _ sid(1)]
      obfs_modes_plain [OF m(1)] by (auto simp: udp_buffer_def)
  have tcp: "tunnel_log (handleTCPPayload env c raw s) = tunnel_log s @ [pkt]"
    using S fr rawne rawlen assms(2,4-8) by (intro server_tunnels_frame [where frame = fr and p = p]) simp_all
  have udp: "tunnel_log (handleUDPPayload env a (udp_receive d) s) = tunnel_log s @ [pkt]"
    using S dg dlen m(3) sid assms(2-8) by (intro server_tunnels_datagram [where frame = dg and p = p and sid = sid]) simp_all
  show ?thesis
  proof (cases "shouldUseUDP (cl\<lparr>cl_seq := seq\<rparr>) seq \<and> cl_udp cl \<and> dgram_ok n d")
    case True
    then have "sendEncryptedPayload rng key pkt 1 cl n = (Inr (), cl\<lparr>cl_seq := seq\<rparr>, n\<lparr>dgrams := dgrams n @ [d]\<rparr>)"
      using S raw d by (simp add: sendEncryptedPayload_def nextSeq_def Let_def seq_def [symmetric]
          mode_def [symmetric] sid_def [symmetric] udp_Send_def)
    then show ?thesis using udp by auto
  next
    case False
    then have "sendEncryptedPayload rng key pkt 1 cl n
        = (Inr (), cl\<lparr>cl_seq := seq\<rparr>, n\<lparr>tx := tx n @ [frame_bytes raw]\<rparr>)"
      using S raw d conn_write_ok [OF rok assms(11)]
      by (auto simp: sendEncryptedPayload_def nextSeq_def Let_def seq_def [symmetric]
          mode_def [symmetric] sid_def [symmetric] udp_Send_def split: prod.splits bool.splits)
    then show ?thesis using tcp by auto
  qed
qed

text \<open>
  A full packet of the client's device (its MTU is 1380) is lost when the padding drawn is 22
  bytes or more: the datagram exceeds the server's buffer, its prefix does not parse, and the
  client has already reported success.
\<close>

lemma full_packet_lost:
  assumes "BuildDatagramFrameV2 rng k sid 1 seq mode pkt 64 = Inr d" "mode \<in> obfs_modes" "plain_text sid"
    and "length pkt = 1380" "length sid = 16" "length mode = 5"
    and "randomPadding (rng_skip 1 rng) 64 = Inr pad" "22 \<le> length pad"
    and "sc_ServerPrivateKey (cfg s) \<noteq> []"
  shows "udp_buffer < length d" "handleUDPPayload env a (udp_receive d) s = s"
proof -
  have m: "plain_text mode" "ascii mode" using obfs_modes_plain [OF assms(2)] by (simp_all add: plain_text_ascii)
  define f where "f = \<lparr>dg_Type = TypeData, dg_ProtoVersion = ''v2'', dg_SessionID = sid, dg_Channel = 1,
      dg_Sequence = seq, dg_Mode = mode, dg_Ciphertext = (SOME e. Encrypt rng k pkt = Inr e),
      dg_Padding = StdEncodeToString pad\<rparr>"
  from assms(1) m(2) have d: "d = DatagramFrameV2_marshal f \<and> plain_text (dg_Ciphertext f)
      \<and> length (dg_Ciphertext f) = 1880"
  proof (cases rule: BuildDatagramFrameV2_cases)
    case (1 enc pad')
    then have "dg_Ciphertext f = enc" "pad' = pad" using assms(7) by (simp_all add: f_def)
    then show ?thesis
      using 1 Encrypt_plain [OF 1(1)] Encrypt_length [OF 1(1)] assms(4) by (auto simp: f_def)
  qed
  have "8 \<le> (length pad + 2) div 3" using div_le_mono [of 24 "length pad + 2" 3] assms(8) by simp
  then show l: "udp_buffer < length d"
    using d assms(3,5,6) m nat_digits_length_pos [of "unat seq"] nat_digits_length_pos [of "unat (1 :: 8 word)"]
    by (simp add: DatagramFrameV2_length f_def length_StdEncode udp_buffer_def Suc_le_eq [symmetric]
        del: length_greater_0_conv)
  have split: "DatagramFrameV2_marshal f = take udp_buffer d @ drop udp_buffer d" "drop udp_buffer d \<noteq> []"
    using d l by simp_all
  have "DatagramFrameV2_ascii f"
    using d m assms(3) by (simp add: DatagramFrameV2_ascii_def f_def plain_text_ascii)
  from datagram_prefix_rejected [OF this split]
  have "obj_members (udp_receive d) = Inl EJson" by (simp add: udp_receive_def)
  then show "handleUDPPayload env a (udp_receive d) s = s"
    using assms(9) by (intro udp_unknown) (simp_all add: ParseDatagramSessionID_def)
qed

end
