(* ===== verification/CliSession.thy ===== *)
theory CliSession
  imports Handshake Wire Policy Config
begin

text \<open>
  \<open>client/client.go\<close>: the command-line client, its session and its choice of transport. The
  connection is the list of chunks its reads will see, because \<open>tcp.Client.Receive\<close> makes a fresh
  buffered reader for every call; \<open>dg_in\<close> holds the outcome of the next receives of the datagram
  socket. \<open>VerifyReady\<close> returns three values, the source uses the call as a condition; the model
  takes the first. Shown: what a request reports to the engine, that a session whose requests all
  succeed never leaves UDP, the fall back to TCP, and the bytes \<open>Receive\<close> loses.
\<close>

record CliClient =
  c_cfg :: ClientConfig
  c_policy :: Engine
  c_sessionID :: string
  c_seq :: "32 word"

record cnet =
  chunks :: "bytes list"
  chunks_end :: go_error
  sent :: "bytes list"
  send_ok :: "nat \<Rightarrow> bool"
  dg_out :: "bytes list"
  dg_ok :: "bytes \<Rightarrow> bool"
  dg_in :: "bytes result list"

definition EqualFold_tcp :: "string \<Rightarrow> bool" where
  "EqualFold_tcp s \<longleftrightarrow> map ascii_lower s = ModeTCP"

definition New_client :: "int \<Rightarrow> ClientConfig \<Rightarrow> CliClient" where
  "New_client now cfg =
     \<lparr>c_cfg = cfg,
      c_policy = NewEngine now (if EqualFold_tcp (cc_TransportMode cfg) then ModeTCP else ModeUDP),
      c_sessionID = [], c_seq = 0\<rparr>"

definition tc_Send :: "bytes \<Rightarrow> cnet \<Rightarrow> unit result \<times> cnet" where
  "tc_Send payload n =
     (case Client_Send payload of
        Inl e \<Rightarrow> (Inl e, n)
      | Inr w \<Rightarrow> (if send_ok n (length (sent n)) then (Inr (), n\<lparr>sent := sent n @ [w]\<rparr>) else (Inl ENet, n)))"

definition tc_Receive :: "cnet \<Rightarrow> bytes result \<times> cnet" where
  "tc_Receive n = (case Client_Receive (chunks_end n) (chunks n) of (r, rest) \<Rightarrow> (r, n\<lparr>chunks := rest\<rparr>))"

definition uc_Send :: "bytes \<Rightarrow> cnet \<Rightarrow> bool \<times> cnet" where
  "uc_Send d n = (if dg_ok n d then (True, n\<lparr>dg_out := dg_out n @ [d]\<rparr>) else (False, n))"

definition uc_Receive :: "cnet \<Rightarrow> bytes result \<times> cnet" where
  "uc_Receive n = (case dg_in n of
     [] \<Rightarrow> (Inl ETimeout, n)
   | r # rest \<Rightarrow> (map_sum id udp_receive r, n\<lparr>dg_in := rest\<rparr>))"

definition decodeB64_client :: "string \<Rightarrow> bytes result" where
  "decodeB64_client v = StdDecodeString v"

definition doHandshake_client ::
  "x25519_fun \<Rightarrow> draw \<Rightarrow> int \<Rightarrow> CliClient \<Rightarrow> cnet \<Rightarrow> bytes result \<times> CliClient \<times> cnet" where
  "doHandshake_client x25519 d now c n =
     (case NewHello d now (cc_ClientPublicKey (c_cfg c)) (cc_PreSharedKey (c_cfg c))
             (cc_ProtocolVersion (c_cfg c)) of
        Inl e \<Rightarrow> (Inl e, c, n)
      | Inr (hello, clientNonce) \<Rightarrow>
      (case tc_Send (HelloJSON hello) n of
        (Inl e, n) \<Rightarrow> (Inl e, c, n)
      | (Inr _, n) \<Rightarrow>
      (case tc_Receive n of
        (Inl e, n) \<Rightarrow> (Inl e, c, n)
      | (Inr resp, n) \<Rightarrow>
        if cc_ProtocolVersion (c_cfg c) = ''v2''
        then (case ParseChallenge resp of
          Inl e \<Rightarrow> (Inl e, c, n)
        | Inr (challenge, serverNonce) \<Rightarrow>
        (case SharedSecret x25519 (cc_ClientPrivateKey (c_cfg c)) (cc_ServerPublicKey (c_cfg c)) of
          Inl e \<Rightarrow> (Inl e, c, n)
        | Inr shared \<Rightarrow>
          (let sessionKey = DeriveSessionKey shared clientNonce serverNonce;
               auth = \<lparr>auth_Type = TypeAuth, auth_ProtoVersion = ''v2'',
                       Proof = BuildAuthProof sessionKey (Ticket challenge)\<rparr>
           in (case tc_Send (AuthFrame_marshal auth) n of
                 (Inl e, n) \<Rightarrow> (Inl e, c, n)
               | (Inr _, n) \<Rightarrow>
               (case tc_Receive n of
                 (Inl e, n) \<Rightarrow> (Inl e, c, n)
               | (Inr readyRaw, n) \<Rightarrow>
               (case ReadyFrame_unmarshal readyRaw of
                 Inl e \<Rightarrow> (Inl e, c, n)
               | Inr ready \<Rightarrow>
                 if \<not> fst (VerifyReady sessionKey ready)
                 then (Inl (EMsg ''ready_v2 verification failed''), c, n)
                 else (Inr sessionKey, c\<lparr>c_sessionID := ready_SessionID ready\<rparr>, n)))))))
        else (case AckFrame_unmarshal resp of
          Inl e \<Rightarrow> (Inl e, c, n)
        | Inr ack \<Rightarrow>
        (case decodeB64_client (ack_ServerNonce ack) of
          Inl e \<Rightarrow> (Inl e, c, n)
        | Inr serverNonce \<Rightarrow>
        (case SharedSecret x25519 (cc_ClientPrivateKey (c_cfg c)) (cc_ServerPublicKey (c_cfg c)) of
          Inl e \<Rightarrow> (Inl e, c, n)
        | Inr shared \<Rightarrow>
          (let sessionKey = DeriveSessionKey shared clientNonce serverNonce
           in (case VerifyAck sessionKey ack of
                 Inl e \<Rightarrow> (Inl e, c, n)
               | Inr _ \<Rightarrow> (Inr sessionKey, c, n)))))))))"

definition bindUDPPlane :: "rng \<Rightarrow> bytes \<Rightarrow> CliClient \<Rightarrow> cnet \<Rightarrow> unit result \<times> CliClient \<times> cnet" where
  "bindUDPPlane rng sessionKey c n =
     (let c = c\<lparr>c_seq := c_seq c + 1\<rparr>
      in (case BuildDatagramFrameV2 rng sessionKey (c_sessionID c) 2 (c_seq c) ''bind'' (bytes_of_str ''bind'') 24 of
            Inl e \<Rightarrow> (Inl e, c, n)
          | Inr raw \<Rightarrow>
            (case uc_Send raw n of
               (False, n) \<Rightarrow> (Inl ENet, c, n)
             | (True, n) \<Rightarrow> (case uc_Receive n of (_, n) \<Rightarrow> (Inr (), c, n)))))"

text \<open>The attempt over the datagram plane: the payload of an acceptable answer, if there is one.\<close>

definition request_udp :: "rng \<Rightarrow> bytes \<Rightarrow> string \<Rightarrow> bytes \<Rightarrow> CliClient \<Rightarrow> cnet \<Rightarrow> bytes option \<times> cnet" where
  "request_udp rng sessionKey mode plain c n =
     (case BuildDatagramFrameV2 rng sessionKey (c_sessionID c) 2 (c_seq c) mode plain 48 of
        Inl e \<Rightarrow> (None, n)
      | Inr raw \<Rightarrow>
        (case uc_Send raw n of
           (False, n) \<Rightarrow> (None, n)
         | (True, n) \<Rightarrow>
           (case uc_Receive n of
              (Inl e, n) \<Rightarrow> (None, n)
            | (Inr replyRaw, n) \<Rightarrow>
              (case ParseDatagramFrameV2 sessionKey replyRaw of
                 Inl e \<Rightarrow> (None, n)
               | Inr (_, payload) \<Rightarrow> (Some payload, n)))))"

definition request_tcp :: "rng \<Rightarrow> bytes \<Rightarrow> string \<Rightarrow> bytes \<Rightarrow> CliClient \<Rightarrow> cnet \<Rightarrow> bytes result \<times> cnet" where
  "request_tcp rng sessionKey mode plain c n =
     (case BuildDataFrameV2 rng sessionKey 2 (c_seq c) mode plain 48 of
        Inl e \<Rightarrow> (Inl e, n)
      | Inr raw \<Rightarrow>
        (case tc_Send raw n of
           (Inl e, n) \<Rightarrow> (Inl e, n)
         | (Inr _, n) \<Rightarrow>
           (case tc_Receive n of
              (Inl e, n) \<Rightarrow> (Inl e, n)
            | (Inr replyRaw, n) \<Rightarrow>
              (case ParseDataFrameV2 sessionKey replyRaw of
                 Inl e \<Rightarrow> (Inl e, n)
               | Inr (_, payload) \<Rightarrow> (Inr payload, n)))))"

text \<open>
  \<open>request\<close>; \<open>uc\<close> is whether there is a datagram socket, \<open>t\<close> and \<open>t'\<close> the two clock readings of the
  engine. The result is the payload and whether it came by datagram.
\<close>

definition request ::
  "rng \<Rightarrow> int \<Rightarrow> int \<Rightarrow> bool \<Rightarrow> bytes \<Rightarrow> bytes \<Rightarrow> CliClient \<Rightarrow> cnet \<Rightarrow> (bytes \<times> bool) result \<times> CliClient \<times> cnet" where
  "request rng t t' uc sessionKey plain c n =
     (let c = c\<lparr>c_seq := c_seq c + 1\<rparr>;
          mode = SelectObfsModeForProfile (profile (c_policy c)) (c_seq c) (length plain);
          useUDP = cc_ProtocolVersion (c_cfg c) = ''v2'' \<and> current (c_policy c) = ModeUDP \<and> uc \<and> c_sessionID c \<noteq> [];
          tcp = (\<lambda>c n. case request_tcp (rng_skip 3 rng) sessionKey mode plain c n of
                   (Inl e, n) \<Rightarrow> (Inl e, c, n)
                 | (Inr payload, n) \<Rightarrow> (Inr (payload, False), c, n))
      in if useUDP
         then (case request_udp rng sessionKey mode plain c n of
                 (Some payload, n) \<Rightarrow> (Inr (payload, True), c, n)
               | (None, n) \<Rightarrow> tcp (c\<lparr>c_policy := Observe t t' False 0 (c_policy c)\<rparr>) n)
         else tcp c n)"

definition probe_message :: "int \<Rightarrow> bytes" where
  "probe_message now = bytes_of_str (''v2-probe ts='' @ int_text now)"

text \<open>
  One tick of the loop of \<open>runSession\<close>; \<open>u\<close>, \<open>u'\<close> and \<open>rtt\<close> are the readings of the engine after the
  request and the time it took. The session goes on unless the result is an error.
\<close>

definition sessionTick ::
  "rng \<Rightarrow> int \<Rightarrow> int \<times> int \<Rightarrow> int \<times> int \<Rightarrow> int \<Rightarrow> bool \<Rightarrow> bytes \<Rightarrow> CliClient \<Rightarrow> cnet
     \<Rightarrow> (bytes \<times> bool) result \<times> CliClient \<times> cnet" where
  "sessionTick rng now ts us rtt uc sessionKey c n =
     (case request rng (fst ts) (snd ts) uc sessionKey (probe_message now) c n of
        (Inl e, c, n) \<Rightarrow> (Inl e, c\<lparr>c_policy := Observe (fst us) (snd us) False 0 (c_policy c)\<rparr>, n)
      | (Inr r, c, n) \<Rightarrow> (Inr r, c\<lparr>c_policy := Observe (fst us) (snd us) True rtt (c_policy c)\<rparr>, n))"

text \<open>
  \<open>runSession\<close> up to the loop: the session key and whether there is a datagram socket. \<open>dial\<close> and
  \<open>udpDial\<close> are the outcomes of the two dials.
\<close>

definition openClientSession ::
  "x25519_fun \<Rightarrow> draw \<Rightarrow> rng \<Rightarrow> int \<Rightarrow> unit result \<Rightarrow> unit result \<Rightarrow> CliClient \<Rightarrow> cnet
     \<Rightarrow> (bytes \<times> bool) result \<times> CliClient \<times> cnet" where
  "openClientSession x25519 d rng now dial udpDial c n =
     (case dial of
        Inl e \<Rightarrow> (Inl e, c, n)
      | Inr _ \<Rightarrow>
      (case doHandshake_client x25519 d now c n of
        (Inl e, c, n) \<Rightarrow> (Inl e, c, n)
      | (Inr sessionKey, c, n) \<Rightarrow>
        if cc_EnableMultiTransport (c_cfg c) \<and> cc_ServerUDP (c_cfg c) \<noteq> [] \<and> c_sessionID c \<noteq> []
        then (case udpDial of
                Inl e \<Rightarrow> (Inr (sessionKey, False), c, n)
              | Inr _ \<Rightarrow> (case bindUDPPlane rng sessionKey c n of
                           (_, c, n) \<Rightarrow> (Inr (sessionKey, True), c, n)))
        else (Inr (sessionKey, False), c, n)))"

definition ascii_upper :: "char \<Rightarrow> char" where
  "ascii_upper c = (if between 97 122 (code c) then char_of (code c - 32) else c)"

definition CurrentMode :: "CliClient \<Rightarrow> string" where
  "CurrentMode c = map ascii_upper (current (c_policy c))"

definition Client_String :: "CliClient \<Rightarrow> string" where
  "Client_String c = ''client{proto='' @ cc_ProtocolVersion (c_cfg c) @ '' mode='' @ CurrentMode c @ ''}''"

definition Client_Validate :: "CliClient \<Rightarrow> unit result" where
  "Client_Validate c =
     (if cc_ServerTCP (c_cfg c) = [] then Inl (EMsg ''server_tcp is empty'')
      else if cc_PreSharedKey (c_cfg c) = [] then Inl (EMsg ''pre_shared_key is empty'')
      else if cc_ServerPublicKey (c_cfg c) = [] \<or> cc_ClientPrivateKey (c_cfg c) = [] \<or> cc_ClientPublicKey (c_cfg c) = []
      then Inl (EMsg ''x25519 keys are required for secure protocol'')
      else Inr ())"

subsection \<open>What the engine sees\<close>

text \<open>
  A request touches the engine only to report a fault, when the datagram plane was tried and
  failed. A tick that succeeds then reports a success, so from a fresh engine on UDP the mode
  stays UDP however often the datagram plane fails.
\<close>

lemma request_policy:
  assumes "request rng t t' uc k plain c n = (r, c', n')"
  shows "c_policy c' = c_policy c \<or> c_policy c' = Observe t t' False 0 (c_policy c)"
  using assms by (auto simp: request_def Let_def split: if_splits prod.splits option.splits sum.splits)

lemma sessionTick_policy:
  assumes "sessionTick rng now ts us rtt uc k c n = (Inr r, c', n')"
  shows "c_policy c' = engine_run [(fst us, snd us, EvObserve True rtt)] (c_policy c)
    \<or> c_policy c' = engine_run (fault_then_success (fst ts, snd ts, fst us, snd us, rtt)) (c_policy c)"
proof -
  obtain q c1 n1 where r: "request rng (fst ts) (snd ts) uc k (probe_message now) c n = (q, c1, n1)"
    by (metis prod_cases3)
  with assms have "c_policy c' = Observe (fst us) (snd us) True rtt (c_policy c1)"
    by (auto simp: sessionTick_def split: sum.splits)
  with request_policy [OF r] show ?thesis by (auto simp: fault_then_success_def)
qed

definition fresh_on_UDP :: "Engine \<Rightarrow> bool" where
  "fresh_on_UDP e \<longleftrightarrow> current e = ModeUDP \<and> consecutiveFailures e = 0 \<and> failuresUDP e = 0"

lemma sessionTick_stays:
  assumes "sessionTick rng now ts us rtt uc k c n = (Inr r, c', n')" "fresh_on_UDP (c_policy c)"
  shows "fresh_on_UDP (c_policy c')"
  using sessionTick_policy [OF assms(1)]
proof
  assume "c_policy c' = engine_run [(fst us, snd us, EvObserve True rtt)] (c_policy c)"
  then show ?thesis using assms(2) by (auto simp: fresh_on_UDP_def engine_defs)
next
  assume "c_policy c' = engine_run (fault_then_success (fst ts, snd ts, fst us, snd us, rtt)) (c_policy c)"
  then show ?thesis
    using assms(2) fault_then_success_stays [of "c_policy c"] by (simp add: fresh_on_UDP_def Let_def)
qed

text \<open>The ticks of a session: up to the first that fails, or all of them, then the context is done.\<close>

type_synonym tick = "rng \<times> int \<times> (int \<times> int) \<times> (int \<times> int) \<times> int"

fun sessionTicks :: "bool \<Rightarrow> bytes \<Rightarrow> tick list \<Rightarrow> CliClient \<Rightarrow> cnet \<Rightarrow> unit result \<times> CliClient \<times> cnet" where
  "sessionTicks uc k [] c n = (Inr (), c, n)"
| "sessionTicks uc k ((rng, now, ts, us, rtt) # rest) c n =
     (case sessionTick rng now ts us rtt uc k c n of
        (Inl e, c, n) \<Rightarrow> (Inl e, c, n)
      | (Inr r, c, n) \<Rightarrow> sessionTicks uc k rest c n)"

lemma sessionTicks_stay:
  "sessionTicks uc k tks c n = (Inr (), c', n') \<Longrightarrow> fresh_on_UDP (c_policy c) \<Longrightarrow> fresh_on_UDP (c_policy c')"
proof (induction tks arbitrary: c n)
  case (Cons x tks)
  obtain rng now ts us rtt where x: "x = (rng, now, ts, us, rtt)" by (metis prod_cases5)
  obtain q c1 n1 where t: "sessionTick rng now ts us rtt uc k c n = (q, c1, n1)" by (metis prod_cases3)
  with Cons.prems(1) x obtain r where q: "q = Inr r" by (cases q) auto
  with Cons x t sessionTick_stays [OF t [unfolded q] Cons.prems(2)] show ?case by simp
qed simp

lemma New_client_fresh: "\<not> EqualFold_tcp (cc_TransportMode cfg) \<Longrightarrow> fresh_on_UDP (c_policy (New_client now cfg))"
  by (simp add: New_client_def NewEngine_def fresh_on_UDP_def)

subsection \<open>Requests\<close>

text \<open>When the datagram plane fails, the request is the TCP request of the same sequence number.\<close>

lemma request_falls_back:
  assumes "cc_ProtocolVersion (c_cfg c) = ''v2''" "current (c_policy c) = ModeUDP" "c_sessionID c \<noteq> []"
    and "request_udp rng k (SelectObfsModeForProfile (profile (c_policy c)) (c_seq c + 1) (length plain)) plain
           (c\<lparr>c_seq := c_seq c + 1\<rparr>) n = (None, n1)"
    and "request_tcp (rng_skip 3 rng) k
           (SelectObfsModeForProfile (profile (c_policy c)) (c_seq c + 1) (length plain)) plain
           (c\<lparr>c_seq := c_seq c + 1, c_policy := Observe t t' False 0 (c_policy c)\<rparr>) n1 = (r, n2)"
  shows "request rng t t' True k plain c n =
     (map_sum id (\<lambda>p. (p, False)) r,
      c\<lparr>c_seq := c_seq c + 1, c_policy := Observe t t' False 0 (c_policy c)\<rparr>, n2)"
  using assms by (cases r) (auto simp: request_def Let_def)

text \<open>
  The datagram a server relays or answers with, if the buffer holds it whole, is the client's
  answer. The bound is on the datagram, because the socket keeps 2048 bytes of it.
\<close>

lemma request_udp_answer:
  assumes "ascii mode" "draw_ok (rng 0)" "draw_ok (rng 1)" "draw_ok (rng 2)"
    and "\<And>d. dg_ok n d"
    and "BuildDatagramFrameV2 rng' k sid ch seq mode' payload maxPad = Inr raw"
    and "ascii mode'" "ascii sid" "sid \<noteq> []" "length raw \<le> 2048" "dg_in n = Inr raw # rest"
  shows "\<exists>out. request_udp rng k mode plain c n = (Some payload, n\<lparr>dg_out := dg_out n @ [out], dg_in := rest\<rparr>)"
proof -
  obtain out where o: "BuildDatagramFrameV2 rng k (c_sessionID c) 2 (c_seq c) mode plain 48 = Inr out"
    using BuildDatagramFrameV2_ok assms(1-4) by blast
  obtain d where "ParseDatagramFrameV2 k raw = Inr (d, payload)"
    using ParseDatagram_BuildDatagram [OF assms(6-9)] by blast
  then show ?thesis
    using assms(5,10,11) o
    by (auto simp: request_udp_def uc_Send_def uc_Receive_def udp_receive_def udp_buffer_def)
qed

text \<open>A version 1 client, and a client on TCP, never send a datagram.\<close>

lemma request_tcp_only:
  assumes "cc_ProtocolVersion (c_cfg c) \<noteq> ''v2'' \<or> current (c_policy c) = ModeTCP"
    and "request rng t t' uc k plain c n = (r, c', n')"
  shows "dg_out n' = dg_out n" "c_policy c' = c_policy c"
proof -
  have "dg_out n' = dg_out n" if "request_tcp rng k mode plain c n = (r, n')" for rng mode c n r n'
    using that by (auto simp: request_tcp_def tc_Send_def tc_Receive_def split: sum.splits prod.splits if_splits)
  then show "dg_out n' = dg_out n" "c_policy c' = c_policy c"
    using assms by (auto simp: request_def Let_def split: sum.splits prod.splits)
qed

text \<open>Reading ahead: bytes that arrive together with a frame, beyond it, are lost to the next call.\<close>

lemma Client_Receive_coalesced:
  assumes "frame_ok p" "length (frame_bytes p @ ahead) \<le> bufio_size"
  shows "Client_Receive fin ((frame_bytes p @ ahead) # rest) = (Inr p, rest)"
proof -
  have p: "p \<noteq> []" "length p \<le> 65535" "length p + 2 \<le> bufio_size"
    using assms by (auto simp: frame_ok_def frame_bytes_def)
  have hdr: "be16 w = [be16 w ! 0, be16 w ! 1]" for w by (simp add: be16_def)
  have none: "bufio_read_full fin 0 b cs = ((Inr [], b), cs)" for b cs
    by (subst bufio_read_full.simps) simp
  have hit: "bufio_read_full fin k b cs = ((Inr (take k b), drop k b), cs)"
    if "k \<le> length b" "b \<noteq> []" "k \<noteq> 0" for k b cs
    using that by (subst bufio_read_full.simps) (simp add: Let_def min_def none)
  have fill: "bufio_read_full fin 2 [] ((frame_bytes p @ ahead) # rest)
      = bufio_read_full fin 2 (frame_bytes p @ ahead) rest"
    using assms(2) p by (subst bufio_read_full.simps) (simp add: frame_bytes_def bufio_size_def)
  have two: "take 2 (frame_bytes p @ ahead) = be16 (word_of_nat (length p))" "drop 2 (frame_bytes p @ ahead) = p @ ahead"
    by (simp_all add: frame_bytes_def)
  have first: "bufio_read_full fin 2 [] ((frame_bytes p @ ahead) # rest)
      = ((Inr (be16 (word_of_nat (length p))), p @ ahead), rest)"
    unfolding fill by (subst hit) (use p(1) two in \<open>simp_all only: two, auto simp: frame_bytes_def neq_Nil_conv\<close>)
  have "bufio_read_full fin (length p) (p @ ahead) rest = ((Inr p, ahead), rest)"
    using hit [of "length p" "p @ ahead" rest] p by simp
  then show ?thesis
    using p first by (simp add: Client_Receive_def bufio_readFrame_def Let_def)
qed

text \<open>A frame that answers a TCP request, alone in its chunk, is the client's answer.\<close>

lemma BuildDataFrameV2_small:
  assumes "BuildDataFrameV2 rng k ch seq mode p 48 = Inr raw" "mode \<in> obfs_modes" "length p \<le> 1000"
  shows "frame_ok raw" "length raw \<le> 2000"
proof -
  have "4 * ((length p + 30) div 3) \<le> 4 * (1030 div 3)"
    using assms(3) by (intro mult_le_mono div_le_mono) simp_all
  then show "length raw \<le> 2000"
    using BuildDataFrameV2_length [OF assms(1)] obfs_modes_plain [OF assms(2)] by simp
  moreover have "raw \<noteq> []"
    using assms(1) by (auto elim!: BuildDataFrameV2_cases
        simp: DataFrameV2_marshal_def json_marshal_def DataFrameV2_members_def bytes_of_str_def)
  ultimately show "frame_ok raw" by (simp add: frame_ok_def)
qed

lemma request_tcp_answer:
  assumes "mode \<in> obfs_modes" "length plain \<le> 1000" "draw_ok (rng 0)" "draw_ok (rng 1)" "draw_ok (rng 2)"
    and "send_ok n (length (sent n))"
    and "BuildDataFrameV2 rng' k ch seq mode' payload 48 = Inr raw" "mode' \<in> obfs_modes" "length payload \<le> 1000"
    and "chunks n = frame_bytes raw # rest"
  shows "\<exists>out. request_tcp rng k mode plain c n = (Inr payload, n\<lparr>sent := sent n @ [out], chunks := rest\<rparr>)"
proof -
  obtain out where o: "BuildDataFrameV2 rng k 2 (c_seq c) mode plain 48 = Inr out"
    using BuildDataFrameV2_ok assms(3-5) by blast
  have w: "Client_Send out = Inr (frame_bytes out)"
    using BuildDataFrameV2_small(1) [OF o assms(1,2)] by (simp add: Client_Send_def WriteFrame_frame_bytes)
  have r: "frame_ok raw" "length raw \<le> 2000" using BuildDataFrameV2_small [OF assms(7-9)] by auto
  have "Client_Receive fin (frame_bytes raw # rest) = (Inr raw, rest)" for fin
    using Client_Receive_coalesced [OF r(1), of "[]" fin rest] r(2) by (simp add: frame_bytes_def bufio_size_def)
  moreover obtain f where "ParseDataFrameV2 k raw = Inr (f, payload)"
    using ParseDataFrameV2_BuildDataFrameV2 [OF assms(7)] obfs_modes_plain [OF assms(8)] plain_text_ascii by blast
  ultimately show ?thesis
    using assms(6,10) o w by (auto simp: request_tcp_def tc_Send_def tc_Receive_def)
qed

end
