(* ===== verification/GoTime.thy ===== *)
theory GoTime
  imports GoJson
begin

text \<open>
  What the panel uses of package \<open>time\<close>: instants as nanoseconds since the Unix epoch,
  \<open>time.Parse(time.RFC3339, s)\<close>, and the stricter variant behind \<open>time.Time\<close>'s JSON decoding.
  \<open>zero_time\<close> is Go's zero time, the first of January of year 1. A \<open>stamp\<close> is a \<open>time.Time\<close> as it
  is stored: the instant and its zone's offset in seconds.
\<close>

type_synonym time = int
type_synonym stamp = "time \<times> int"

definition UTC :: "time \<Rightarrow> stamp" where
  "UTC t = (t, 0)"

definition zero_time :: time where
  "zero_time = - 62135596800 * 1000000000"

definition is_leap :: "int \<Rightarrow> bool" where
  "is_leap y \<longleftrightarrow> y mod 4 = 0 \<and> (y mod 100 \<noteq> 0 \<or> y mod 400 = 0)"

definition days_in :: "int \<Rightarrow> int \<Rightarrow> int" where
  "days_in y m = (if m = 2 then (if is_leap y then 29 else 28)
     else if m \<in> {4, 6, 9, 11} then 30 else 31)"

definition days_before_month :: "int \<Rightarrow> int \<Rightarrow> int" where
  "days_before_month y m = sum_list (map (days_in y) [1..m - 1])"

text \<open>Days from the first of January of year 0 to the first of January of year \<open>y\<close>.\<close>

definition days_before_year :: "int \<Rightarrow> int" where
  "days_before_year y =
     (if y = 0 then 0 else 365 * y + (y - 1) div 4 - (y - 1) div 100 + (y - 1) div 400 + 1)"

definition unix_days :: "int \<Rightarrow> int \<Rightarrow> int \<Rightarrow> int" where
  "unix_days y m d = days_before_year y + days_before_month y m + (d - 1) - 719528"

subsection \<open>Parsing\<close>

definition digit_val :: "char \<Rightarrow> int" where
  "digit_val c = of_char c - 48"

text \<open>Exactly \<open>k\<close> digits.\<close>

fun take_digits :: "nat \<Rightarrow> int \<Rightarrow> string \<Rightarrow> (int \<times> string) option" where
  "take_digits 0 acc s = Some (acc, s)"
| "take_digits (Suc k) acc [] = None"
| "take_digits (Suc k) acc (c # s) =
     (if is_digit c then take_digits k (10 * acc + digit_val c) s else None)"

definition expect :: "char \<Rightarrow> string \<Rightarrow> string option" where
  "expect c s = (case s of [] \<Rightarrow> None | x # s' \<Rightarrow> if x = c then Some s' else None)"

text \<open>The hour field may have a single digit.\<close>

definition take_hour :: "string \<Rightarrow> (int \<times> string) option" where
  "take_hour s = (case take_digits 2 0 s of Some r \<Rightarrow> Some r | None \<Rightarrow> take_digits 1 0 s)"

text \<open>A fraction of a second, cut to nanoseconds; a comma may stand for the point.\<close>

definition take_fraction :: "string \<Rightarrow> int \<times> string" where
  "take_fraction s =
     (case s of
        p # c # _ \<Rightarrow>
          (if (p = CHR ''.'' \<or> p = CHR '','') \<and> is_digit c
           then (let ds = takeWhile is_digit (tl s);
                     ns = take 9 (ds @ replicate 9 CHR ''0'')
                 in (fold (\<lambda>c acc. 10 * acc + digit_val c) ns 0, drop (Suc (length ds)) s))
           else (0, s))
      | _ \<Rightarrow> (0, s))"

text \<open>The zone: the offset in seconds. The limits are those of the lenient parser.\<close>

definition take_zone :: "string \<Rightarrow> (int \<times> int \<times> int \<times> string) option" where
  "take_zone s =
     (case s of
        [] \<Rightarrow> None
      | z # rest \<Rightarrow>
          (if z = CHR ''Z'' then Some (0, 0, 0, rest)
           else if z = CHR ''+'' \<or> z = CHR ''-''
           then Option.bind (take_digits 2 0 rest) (\<lambda>(hh, r1).
                Option.bind (expect CHR '':'' r1) (\<lambda>r2.
                Option.bind (take_digits 2 0 r2) (\<lambda>(mm, r3).
                  if hh \<le> 24 \<and> mm \<le> 60
                  then Some ((if z = CHR ''+'' then 1 else - 1) * (hh * 3600 + mm * 60), hh, mm, r3)
                  else None)))
           else None))"

definition parse_rfc3339 :: "bool \<Rightarrow> string \<Rightarrow> stamp option" where
  "parse_rfc3339 strict s =
     Option.bind (take_digits 4 0 s) (\<lambda>(y, s1).
     Option.bind (expect CHR ''-'' s1) (\<lambda>s2.
     Option.bind (take_digits 2 0 s2) (\<lambda>(mo, s3).
     Option.bind (expect CHR ''-'' s3) (\<lambda>s4.
     Option.bind (take_digits 2 0 s4) (\<lambda>(d, s5).
     Option.bind (expect CHR ''T'' s5) (\<lambda>s6.
     Option.bind (take_hour s6) (\<lambda>(h, s7).
     Option.bind (expect CHR '':'' s7) (\<lambda>s8.
     Option.bind (take_digits 2 0 s8) (\<lambda>(mi, s9).
     Option.bind (expect CHR '':'' s9) (\<lambda>s10.
     Option.bind (take_digits 2 0 s10) (\<lambda>(sec, s11).
     case take_fraction s11 of (ns, s12) \<Rightarrow>
     Option.bind (take_zone s12) (\<lambda>(off, zh, zm, s13).
       if 1 \<le> mo \<and> mo \<le> 12 \<and> 1 \<le> d \<and> d \<le> days_in y mo \<and> h < 24 \<and> mi < 60 \<and> sec < 60 \<and> s13 = []
          \<and> (strict \<longrightarrow> length s7 + 2 = length s6 \<and> take 1 s11 \<noteq> '','' \<and> zh \<le> 23 \<and> zm \<le> 59)
       then Some ((unix_days y mo d * 86400 + (h * 3600 + mi * 60 + sec) - off) * 1000000000 + ns, off)
       else None))))))))))))"

text \<open>Decoding a \<open>time.Time\<close> member.\<close>

definition dec_time :: "stamp \<Rightarrow> json \<Rightarrow> stamp option" where
  "dec_time t v = (case v of JNull \<Rightarrow> Some t | JStr s \<Rightarrow> parse_rfc3339 True s | _ \<Rightarrow> None)"

lemma epoch_parses: "parse_rfc3339 False ''1970-01-01T00:00:00Z'' = Some (UTC 0)"
  by code_simp

lemma zero_time_parses: "parse_rfc3339 True ''0001-01-01T00:00:00Z'' = Some (UTC zero_time)"
  by code_simp

lemma offset_parses: "parse_rfc3339 True ''2024-02-29T23:59:59.5+03:00'' = Some (1709240399500000000, 10800)"
  by code_simp

end
