(* ===== verification/TimeText.thy ===== *)
theory TimeText
  imports GoTime JsonRound
begin

text \<open>
  \<open>time.Time\<close>'s JSON encoding: RFC 3339 in UTC with as many digits of the second's fraction as are
  not zero; years outside 0 to 9999 are an error. Shown: parsing the text gives the instant back.
  \<open>civil\<close> is the date of a day, \<open>unix_days\<close> its inverse.
\<close>

subsection \<open>Dates\<close>

lemma days_before_year_eq:
  "days_before_year y = 365 * y + (y - 1) div 4 - (y - 1) div 100 + (y - 1) div 400 + 1"
  by (simp add: days_before_year_def)

lemma days_before_year_bounds:
  "146097 * y - 497 \<le> 400 * days_before_year y" "400 * days_before_year y \<le> 146097 * y + 703"
proof -
  define q where "q = y - 1"
  have d: "k * (q div k) \<le> q \<and> q \<le> k * (q div k) + (k - 1)" if "0 < k" for k
    using mult_div_mod_eq [of k q] pos_mod_bound [OF that, of q] pos_mod_sign [OF that, of q] by linarith
  note d [of 4] d [of 100] d [of 400]
  moreover have "days_before_year y = 365 * y + q div 4 - q div 100 + q div 400 + 1" "q = y - 1"
    by (simp_all add: days_before_year_eq q_def)
  ultimately show "146097 * y - 497 \<le> 400 * days_before_year y" "400 * days_before_year y \<le> 146097 * y + 703"
    by simp_all
qed

definition year_of :: "int \<Rightarrow> int" where
  "year_of n = (let y = 400 * n div 146097
     in if n < days_before_year y then y - 1 else if days_before_year (y + 1) \<le> n then y + 1 else y)"

lemma year_between:
  fixes n y a b :: int
  assumes "146097 * y \<le> 400 * n" "400 * n < 146097 * y + 146097"
  shows year_below: "400 * a \<le> 146097 * (y - 1) + 703 \<Longrightarrow> a \<le> n"
    and year_above: "146097 * (y + 1 + 1) - 497 \<le> 400 * b \<Longrightarrow> n < b"
proof -
  show "a \<le> n" if "400 * a \<le> 146097 * (y - 1) + 703" using that [unfolded right_diff_distrib] assms by linarith
  show "n < b" if "146097 * (y + 1 + 1) - 497 \<le> 400 * b" using that [unfolded distrib_left] assms by linarith
qed

lemma year_of_correct: "days_before_year (year_of n) \<le> n \<and> n < days_before_year (year_of n + 1)"
proof -
  define y where "y = 400 * n div 146097"
  have b: "146097 * y \<le> 400 * n" "400 * n < 146097 * y + 146097"
    using div_mult_mod_eq [of "400 * n" 146097] pos_mod_bound [of 146097 "400 * n"]
      pos_mod_sign [of 146097 "400 * n"] by (simp_all add: y_def)
  have "days_before_year (y - 1) \<le> n" "n < days_before_year (y + 1 + 1)"
    by (rule year_between [OF b], rule days_before_year_bounds)+
  then show ?thesis by (auto simp: year_of_def y_def [symmetric] Let_def)
qed

lemma div_pred: "0 < k \<Longrightarrow> y div k - (y - 1) div k = (if y mod k = 0 then 1 else (0 :: int))"
proof -
  assume k: "0 < k"
  define q where "q = y div k"
  define r where "r = y mod k"
  have y: "y = k * q + r" "0 \<le> r" "r < k" using k by (simp_all add: q_def r_def)
  have "(y - 1) div k = (if r = 0 then q - 1 else q)"
  proof (cases "r = 0")
    case True
    then have e: "y - 1 = k * (q - 1) + (k - 1)" using y by (simp add: algebra_simps)
    have "(y - 1) div k = (q - 1) + (k - 1) div k" unfolding e by (rule div_mult_self4) (use k in simp)
    then show ?thesis using True k by (simp add: div_pos_pos_trivial)
  next
    case False
    then have e: "y - 1 = k * q + (r - 1)" using y by simp
    have "(y - 1) div k = q + (r - 1) div k" unfolding e by (rule div_mult_self4) (use k in simp)
    then show ?thesis using False y by (simp add: div_pos_pos_trivial)
  qed
  then show ?thesis by (simp add: q_def r_def)
qed

lemma days_before_month_table:
  "days_before_month y 1 = 0" "days_before_month y 2 = 31"
  "days_before_month y 3 = (if is_leap y then 60 else 59)" "days_before_month y 4 = (if is_leap y then 91 else 90)"
  "days_before_month y 5 = (if is_leap y then 121 else 120)" "days_before_month y 6 = (if is_leap y then 152 else 151)"
  "days_before_month y 7 = (if is_leap y then 182 else 181)" "days_before_month y 8 = (if is_leap y then 213 else 212)"
  "days_before_month y 9 = (if is_leap y then 244 else 243)" "days_before_month y 10 = (if is_leap y then 274 else 273)"
  "days_before_month y 11 = (if is_leap y then 305 else 304)" "days_before_month y 12 = (if is_leap y then 335 else 334)"
  "days_before_month y 13 = (if is_leap y then 366 else 365)"
  by (simp_all add: days_before_month_def days_in_def upto.simps)

lemma year_length: "days_before_year (y + 1) = days_before_year y + days_before_month y 13"
proof -
  define a b c where "a = (y - 1) div 4" and "b = (y - 1) div 100" and "c = (y - 1) div 400"
  define a' b' c' where "a' = y div 4" and "b' = y div 100" and "c' = y div 400"
  have "a' - a = (if y mod 4 = 0 then 1 else 0)" "b' - b = (if y mod 100 = 0 then 1 else 0)"
    "c' - c = (if y mod 400 = 0 then 1 else 0)"
    by (simp_all only: a_def b_def c_def a'_def b'_def c'_def) (simp_all only: div_pred zero_less_numeral)
  moreover have "days_before_year y = 365 * y + a - b + c + 1" "days_before_year (y + 1) = 365 * y + 365 + a' - b' + c' + 1"
    by (simp_all add: days_before_year_eq a_def b_def c_def a'_def b'_def c'_def)
  moreover have "y mod 100 = 0 \<Longrightarrow> y mod 4 = 0" "y mod 400 = 0 \<Longrightarrow> y mod 100 = 0"
    using mod_mod_cancel [of 4 100 y] mod_mod_cancel [of 100 400 y] by simp_all
  ultimately show ?thesis
    unfolding days_before_month_table(13) is_leap_def
    by (cases "y mod 4 = 0"; cases "y mod 100 = 0"; cases "y mod 400 = 0") simp_all
qed

lemma days_before_month_Suc: "1 \<le> m \<Longrightarrow> days_before_month y (m + 1) = days_before_month y m + days_in y m"
  using upto_rec2 [of 1 m] by (simp add: days_before_month_def)

definition month_of :: "int \<Rightarrow> int \<Rightarrow> int" where
  "month_of y r = (case filter (\<lambda>m. r < days_before_month y (m + 1)) [1..12] of m # _ \<Rightarrow> m | [] \<Rightarrow> 12)"

lemma month_of_correct:
  assumes "0 \<le> r" "r < days_before_month y 13"
  defines "m \<equiv> month_of y r"
  shows "1 \<le> m \<and> m \<le> 12 \<and> days_before_month y m \<le> r \<and> r < days_before_month y m + days_in y m"
proof -
  let ?P = "\<lambda>m. r < days_before_month y (m + 1)"
  have "filter ?P [1..12] \<noteq> []" using assms(2) by (auto simp: filter_empty_conv intro!: bexI [of _ 12])
  then obtain ms where "filter ?P [1..12] = m # ms"
    unfolding m_def month_of_def by (cases "filter ?P [1..12]") auto
  then obtain us vs where l: "[1..12] = us @ m # vs" and us: "\<forall>u \<in> set us. \<not> ?P u" and p: "?P m"
    by (auto simp: filter_eq_Cons_iff)
  have "m \<in> set [1..12]" unfolding l by simp
  then have m: "1 \<le> m" "m \<le> 12" by simp_all
  have "sorted_wrt (<) (us @ m # vs)" unfolding l [symmetric] by simp
  then have vs: "\<forall>v \<in> set vs. m < v" by (simp add: sorted_wrt_append)
  have "days_before_month y m \<le> r"
  proof (cases "m = 1")
    case True
    then show ?thesis using assms(1) by (simp add: days_before_month_table)
  next
    case False
    then have "m - 1 \<in> set (us @ m # vs)" using m unfolding l [symmetric] by simp
    then have "m - 1 \<in> set us" using vs by auto
    with us show ?thesis by force
  qed
  with m p show ?thesis by (simp add: days_before_month_Suc)
qed

definition civil :: "int \<Rightarrow> int \<times> int \<times> int" where
  "civil days = (let n = days + 719528; y = year_of n; r = n - days_before_year y; m = month_of y r
     in (y, m, r - days_before_month y m + 1))"

lemma civil_correct:
  assumes "civil days = (y, m, d)"
  shows "unix_days y m d = days" "1 \<le> m" "m \<le> 12" "1 \<le> d" "d \<le> days_in y m"
proof -
  define n where "n = days + 719528"
  have y: "y = year_of n" and m: "m = month_of y (n - days_before_year y)"
    and d: "d = n - days_before_year y - days_before_month y m + 1"
    using assms by (auto simp: civil_def n_def Let_def)
  have "0 \<le> n - days_before_year y" "n - days_before_year y < days_before_month y 13"
    using year_of_correct [of n] year_length [of y] by (simp_all add: y)
  from month_of_correct [OF this, folded m] show "unix_days y m d = days" "1 \<le> m" "m \<le> 12" "1 \<le> d" "d \<le> days_in y m"
    by (simp_all add: unix_days_def d n_def)
qed

subsection \<open>Formatting\<close>

fun zpad :: "nat \<Rightarrow> nat \<Rightarrow> string" where
  "zpad 0 n = []"
| "zpad (Suc k) n = zpad k (n div 10) @ [chr (48 + n mod 10)]"

definition fraction_text :: "nat \<Rightarrow> string" where
  "fraction_text ns = (let ds = rev (dropWhile (\<lambda>c. c = CHR ''0'') (rev (zpad 9 ns)))
     in if ds = [] then [] else CHR ''.'' # ds)"

definition zone_text :: "int \<Rightarrow> string" where
  "zone_text off = (if off = 0 then ''Z''
     else let z = nat (\<bar>off\<bar> div 60) in (if off < 0 then ''-'' else ''+'') @ zpad 2 (z div 60) @ '':'' @ zpad 2 (z mod 60))"

definition clock_text :: "nat \<Rightarrow> string" where
  "clock_text s = zpad 2 (s div 3600) @ '':'' @ zpad 2 (s div 60 mod 60) @ '':'' @ zpad 2 (s mod 60)"

text \<open>\<open>None\<close> is an error: a year that needs more than four digits, or a zone of a day or more.\<close>

definition format_rfc3339 :: "stamp \<Rightarrow> string option" where
  "format_rfc3339 st = (case st of (t, off) \<Rightarrow>
     let secs = t div 1000000000 + off
     in case civil (secs div 86400) of (y, m, d) \<Rightarrow>
       if y < 0 \<or> 9999 < y \<or> 86400 \<le> \<bar>off\<bar> then None
       else Some (zpad 4 (nat y) @ ''-'' @ zpad 2 (nat m) @ ''-'' @ zpad 2 (nat d) @ ''T''
         @ clock_text (nat (secs mod 86400)) @ fraction_text (nat (t mod 1000000000)) @ zone_text off))"

definition enc_time :: "stamp \<Rightarrow> json option" where
  "enc_time st = map_option JStr (format_rfc3339 st)"

lemma length_pad [simp]: "length (zpad k n) = k"
  by (induction k arbitrary: n) simp_all

lemma pad_digits [simp]: "list_all is_digit (zpad k n)"
  by (induction k arbitrary: n) simp_all

abbreviation digits_from :: "int \<Rightarrow> string \<Rightarrow> int" where
  "digits_from \<equiv> foldl (\<lambda>a c. 10 * a + digit_val c)"

lemma digit_val_chr: "n < 10 \<Longrightarrow> digit_val (chr (48 + n)) = int n"
  using of_nat_of_char [of "chr (48 + n)", where 'a = int] by (simp add: digit_val_def del: of_nat_of_char)

lemma digits_pad: "n < 10 ^ k \<Longrightarrow> digits_from acc (zpad k n) = acc * 10 ^ k + int n"
proof (induction k arbitrary: n)
  case (Suc k)
  then have "n div 10 < 10 ^ k" by (simp add: less_mult_imp_div_less)
  from Suc.IH [OF this] show ?case
    by (simp add: digit_val_chr algebra_simps) (simp add: zdiv_int zmod_int)
qed simp

lemma take_digits_app:
  "list_all is_digit ds \<Longrightarrow> take_digits (length ds) acc (ds @ s) = Some (digits_from acc ds, s)"
  by (induction ds arbitrary: acc) simp_all

lemma take_pad: "n < 10 ^ k \<Longrightarrow> take_digits k 0 (zpad k n @ s) = Some (int n, s)"
  using take_digits_app [OF pad_digits, of k n 0 s] digits_pad [of n k 0] by simp

lemma expect_same [simp]: "expect c (c # s) = Some s"
  by (simp add: expect_def)

lemma strip_trailing: "rev (dropWhile P (rev xs)) @ rev (takeWhile P (rev xs)) = xs"
  by (metis rev_append rev_rev_ident takeWhile_dropWhile_id)

lemma refill_zeros:
  fixes xs :: "'a list" and z :: 'a
  defines "ds \<equiv> rev (dropWhile (\<lambda>c. c = z) (rev xs))"
  shows "ds @ replicate (length xs - length ds) z = xs"
proof -
  let ?t = "takeWhile (\<lambda>c. c = z) (rev xs)"
  have "rev ?t = replicate (length ?t) z"
    by (metis (mono_tags, lifting) replicate_length_same rev_replicate set_takeWhileD)
  moreover have "length ?t = length xs - length ds"
    using arg_cong [OF strip_trailing [of "\<lambda>c. c = z" xs], of length] by (simp add: ds_def)
  ultimately show ?thesis using strip_trailing [of "\<lambda>c. c = z" xs] by (simp add: ds_def)
qed

lemma fold_digits: "fold (\<lambda>c acc. 10 * acc + digit_val c) cs a = digits_from a cs"
  by (simp add: foldl_conv_fold)

lemma take_fraction_digits: "is_digit c \<Longrightarrow> take_fraction (CHR ''.'' # c # r) =
    (digits_from 0 (take 9 (takeWhile is_digit (c # r) @ replicate 9 CHR ''0'')), drop (length (takeWhile is_digit (c # r))) (c # r))"
  by (simp only: take_fraction_def fold_digits Let_def) simp

definition zone_start :: "string \<Rightarrow> bool" where
  "zone_start z \<longleftrightarrow> (\<exists>c cs. z = c # cs \<and> c \<in> set ''Z+-'')"

lemma take_fraction_text:
  assumes "ns < 1000000000" "zone_start z"
  shows "take_fraction (fraction_text ns @ z) = (int ns, z)" "take 1 (fraction_text ns @ z) \<noteq> '',''"
proof -
  define ds where "ds = rev (dropWhile (\<lambda>c. c = CHR ''0'') (rev (zpad 9 ns)))"
  obtain c cs where z: "z = c # cs" "c \<in> set ''Z+-''" using assms(2) by (auto simp: zone_start_def)
  then have nd: "\<not> is_digit c" by (auto simp: is_digit_def between_def)
  have ft: "fraction_text ns = (if ds = [] then [] else CHR ''.'' # ds)"
    by (simp add: fraction_text_def ds_def Let_def)
  have full: "ds @ replicate (9 - length ds) CHR ''0'' = zpad 9 ns"
    using refill_zeros [of "CHR ''0''" "zpad 9 ns"] by (simp add: ds_def)
  then have "list_all is_digit (ds @ replicate (9 - length ds) CHR ''0'')" by simp
  then have dd: "list_all is_digit ds" by simp
  have v: "digits_from 0 (zpad 9 ns) = int ns" using digits_pad [of ns 9 0] assms(1) by simp
  have len: "length ds \<le> 9" using arg_cong [OF full, of length] by simp
  have w: "takeWhile is_digit (ds @ z) = ds"
    using dd nd z by (simp add: takeWhile_append list_all_iff)
  show "take_fraction (fraction_text ns @ z) = (int ns, z)"
  proof (cases ds)
    case Nil
    have "digits_from 0 (replicate k CHR ''0'') = 0" for k
      by (induction k) (simp_all add: digit_val_def)
    moreover have "zpad 9 ns = replicate 9 CHR ''0''" using full Nil by simp
    ultimately have "int ns = 0" using v by metis
    moreover have "take_fraction z = (0, z)" using z by (cases cs) (auto simp: take_fraction_def)
    ultimately show ?thesis using Nil ft by simp
  next
    case (Cons e es)
    have "take 9 (ds @ replicate 9 CHR ''0'') = zpad 9 ns"
      using full len by (simp add: min_def)
    moreover have "is_digit e" using dd Cons by simp
    ultimately have "take_fraction (CHR ''.'' # e # es @ z) = (int ns, drop (length ds) (ds @ z))"
      using take_fraction_digits [of e "es @ z"] w v Cons by (simp only: append_Cons)
    then show ?thesis using Cons ft by simp
  qed
  show "take 1 (fraction_text ns @ z) \<noteq> '',''"
    using z by (auto simp: ft)
qed

definition whole_zone :: "int \<Rightarrow> bool" where
  "whole_zone off \<longleftrightarrow> off mod 60 = 0 \<and> \<bar>off\<bar> < 86400"

lemma sixty: "a * 60 + b = c \<Longrightarrow> a * 3600 + b * 60 = c * (60 :: int)"
  by linarith

lemma take_zone_text:
  assumes "whole_zone off"
  shows "\<exists>zh zm. take_zone (zone_text off) = Some (off, zh, zm, []) \<and> zh \<le> 23 \<and> zm \<le> 59" "zone_start (zone_text off)"
proof -
  define z where "z = nat (\<bar>off\<bar> div 60)"
  have off: "\<bar>off\<bar> = int z * 60"
  proof -
    have "\<bar>off\<bar> mod 60 = 0" using assms by (simp add: whole_zone_def abs_if mod_eq_0_iff_dvd)
    then have "60 * (\<bar>off\<bar> div 60) = \<bar>off\<bar>" using mult_div_mod_eq [of 60 "\<bar>off\<bar>"] by simp
    then show ?thesis by (simp add: z_def pos_imp_zdiv_nonneg_iff)
  qed
  have z: "z < 1440" using assms off by (simp add: whole_zone_def)
  show "\<exists>zh zm. take_zone (zone_text off) = Some (off, zh, zm, []) \<and> zh \<le> 23 \<and> zm \<le> 59"
  proof (cases "off = 0")
    case False
    have h: "z div 60 < 10 ^ 2" "z mod 60 < 10 ^ 2" "int (z div 60) \<le> 23" "int (z mod 60) \<le> 59"
      using z by simp_all
    have e: "int (z div 60) * 3600 + int (z mod 60) * 60 = \<bar>off\<bar>"
    proof -
      have "int (z div 60) * 60 + int (z mod 60) = int z"
        by (metis div_mult_mod_eq of_nat_add of_nat_mult of_nat_numeral)
      then show ?thesis unfolding off by (rule sixty)
    qed
    have "take_digits 2 0 (zpad 2 (z div 60) @ CHR '':'' # zpad 2 (z mod 60)) = Some (int (z div 60), CHR '':'' # zpad 2 (z mod 60))"
      "take_digits 2 0 (zpad 2 (z mod 60)) = Some (int (z mod 60), [])"
      using take_pad [OF h(1)] take_pad [OF h(2), of "[]"] by simp_all
    then show ?thesis using False h(3,4) e
      by (auto simp: take_zone_def zone_text_def z_def [symmetric] Let_def)
  qed (simp add: take_zone_def zone_text_def)
  show "zone_start (zone_text off)" by (simp add: zone_start_def zone_text_def Let_def)
qed

lemma days_in_le: "days_in y m \<le> 31"
  by (simp add: days_in_def)

lemma clock_parts:
  assumes "n < 86400"
  shows "n div 3600 < 24" "n div 60 mod 60 < 60" "n mod 60 < 60"
    and "int (n div 3600) * 3600 + int (n div 60 mod 60) * 60 + int (n mod 60) = int n"
proof -
  have "n div 3600 = n div 60 div 60" by (simp add: div_mult2_eq [symmetric])
  then have "n div 3600 * 3600 + n div 60 mod 60 * 60 + n mod 60 = n"
    using div_mult_mod_eq [of "n div 60" 60] div_mult_mod_eq [of n 60] by linarith
  from arg_cong [OF this, of int]
  show "int (n div 3600) * 3600 + int (n div 60 mod 60) * 60 + int (n mod 60) = int n" by simp
qed (use assms in \<open>simp_all add: less_mult_imp_div_less\<close>)

theorem parse_format:
  assumes "format_rfc3339 (t, off) = Some s" "whole_zone off"
  shows "parse_rfc3339 True s = Some (t, off)"
proof -
  define secs where "secs = t div 1000000000 + off"
  define n where "n = nat (secs mod 86400)"
  define ns where "ns = nat (t mod 1000000000)"
  obtain y m d where c: "civil (secs div 86400) = (y, m, d)" by (metis prod.exhaust)
  note civil = civil_correct [OF c]
  have y: "0 \<le> y" "y \<le> 9999" and s: "s = zpad 4 (nat y) @ ''-'' @ zpad 2 (nat m) @ ''-'' @ zpad 2 (nat d) @ ''T''
         @ clock_text n @ fraction_text ns @ zone_text off"
    using assms(1) c by (auto simp: format_rfc3339_def Let_def secs_def n_def ns_def split: if_splits)
  have n: "n < 86400" "int n = secs mod 86400" and ns: "ns < 1000000000" "int ns = t mod 1000000000"
    by (simp_all add: n_def ns_def nat_less_iff)
  note k = clock_parts [OF n(1)]
  obtain zh zm where z: "take_zone (zone_text off) = Some (off, zh, zm, [])" "zh \<le> 23" "zm \<le> 59"
    using take_zone_text(1) [OF assms(2)] by blast
  note f = take_fraction_text [OF ns(1) take_zone_text(2) [OF assms(2)]]
  have ymd: "nat y < 10 ^ 4" "nat m < 10 ^ 2" "nat d < 10 ^ 2" using y civil days_in_le [of y m] by simp_all
  have hms: "n div 3600 < 10 ^ 2" "n div 60 mod 60 < 10 ^ 2" "n mod 60 < 10 ^ 2" using k by simp_all
  have p: "take_digits 4 0 (zpad 4 (nat y) @ r) = Some (y, r)" "take_digits 2 0 (zpad 2 (nat m) @ r) = Some (m, r)"
    "take_digits 2 0 (zpad 2 (nat d) @ r) = Some (d, r)" for r
    using take_pad [OF ymd(1), of r] take_pad [OF ymd(2), of r] take_pad [OF ymd(3), of r] y civil by simp_all
  have q: "take_hour (zpad 2 (n div 3600) @ r) = Some (int (n div 3600), r)"
    "take_digits 2 0 (zpad 2 (n div 60 mod 60) @ r) = Some (int (n div 60 mod 60), r)"
    "take_digits 2 0 (zpad 2 (n mod 60) @ r) = Some (int (n mod 60), r)" for r
    using take_pad [OF hms(1), of r] take_pad [OF hms(2), of r] take_pad [OF hms(3), of r] by (simp_all add: take_hour_def)
  have "unix_days y m d * 86400 + (int (n div 3600) * 3600 + int (n div 60 mod 60) * 60 + int (n mod 60)) - off = t div 1000000000"
    unfolding k(4) n(2) civil(1) by (simp add: secs_def)
  then have "(unix_days y m d * 86400 + (int (n div 3600) * 3600 + int (n div 60 mod 60) * 60 + int (n mod 60)) - off)
      * 1000000000 + int ns = t" by (simp add: ns(2))
  then show ?thesis
    unfolding s clock_text_def parse_rfc3339_def
    using civil k z(2,3) f(2) by (simp add: p q f(1) z(1) del: of_nat_div of_nat_mod zdiv_int zmod_int)
qed

lemma digits_ascii: "list_all is_digit ds \<Longrightarrow> ascii ds"
  by (induction ds) (auto simp: is_digit_def between_def)

lemma ascii_append [simp]: "ascii (xs @ ys) \<longleftrightarrow> ascii xs \<and> ascii ys"
  by (induction xs) auto

lemma fraction_digits: "\<exists>ds. list_all is_digit ds \<and> (fraction_text ns = [] \<or> fraction_text ns = CHR ''.'' # ds)"
proof -
  define ds where "ds = rev (dropWhile (\<lambda>c. c = CHR ''0'') (rev (zpad 9 ns)))"
  have "list_all is_digit ds"
    using pad_digits [of 9 ns] by (auto simp: ds_def list_all_iff dest: set_dropWhileD)
  then show ?thesis by (auto simp: fraction_text_def ds_def Let_def)
qed

lemma format_ascii: "format_rfc3339 st = Some s \<Longrightarrow> ascii s"
proof -
  have "ascii (zpad k n)" for k n by (rule digits_ascii) simp
  moreover have "ascii (fraction_text ns)" for ns using fraction_digits [of ns] digits_ascii by auto
  ultimately show "format_rfc3339 st = Some s \<Longrightarrow> ascii s"
    by (auto simp: format_rfc3339_def clock_text_def zone_text_def Let_def split: prod.splits if_splits)
qed

end
