(* ===== verification/PanelModel.thy ===== *)
theory PanelModel
  imports TimeText JsonIndent
begin

text \<open>
  \<open>panel/model.go\<close>: the panel's data, how a JSON object is decoded over it, and the JSON it is
  written as. A time whose year needs more than four digits has no JSON form, and then the whole
  value has none. Shown: a value decoded from its own JSON is the value.
\<close>

subsection \<open>model.go\<close>

record Inbound =
  inb_ID :: string
  inb_Name :: string
  inb_Listen :: string
  inb_Transport :: string
  inb_Enabled :: bool
  inb_CreatedAt :: stamp
  inb_Description :: string

record Client =
  cl_ID :: string
  cl_Email :: string
  cl_InboundID :: string
  cl_ExpiresAt :: stamp
  cl_Enabled :: bool
  cl_CreatedAt :: stamp

record PanelSettings =
  SiteTitle :: string
  DefaultLang :: string
  SessionHours :: int
  AllowSignup :: bool
  Timezone :: string

record TransportSettings =
  DefaultInboundTransport :: string
  DefaultPortTCP :: int
  DefaultPortUDP :: int
  EnableTCP :: bool
  EnableUDP :: bool
  EnableFallback :: bool

record ObfsSettings =
  obfs_Enabled :: bool
  obfs_MaxPadding :: int
  obfs_MaxJitterMS :: int

record SecuritySettings =
  EnableIPLimit :: bool
  MaxIPsPerClient :: int
  AllowedCIDR :: string
  BlockPrivateIPs :: bool

record TrafficSettings =
  EnableLimit :: bool
  DefaultClientGB :: int
  ResetEveryDays :: int
  EnableAutoSuspend :: bool

record Settings =
  set_Panel :: PanelSettings
  set_Transport :: TransportSettings
  set_Obfs :: ObfsSettings
  set_Security :: SecuritySettings
  set_Traffic :: TrafficSettings

record State =
  Inbounds :: "Inbound list"
  Clients :: "Client list"
  state_Settings :: Settings

definition DefaultSettings :: Settings where
  "DefaultSettings = \<lparr>
     set_Panel = \<lparr>SiteTitle = ''DarkSide Panel'', DefaultLang = ''ru'', SessionHours = 24,
                  AllowSignup = False, Timezone = ''UTC''\<rparr>,
     set_Transport = \<lparr>DefaultInboundTransport = ''tcp'', DefaultPortTCP = 18443, DefaultPortUDP = 18080,
                  EnableTCP = True, EnableUDP = True, EnableFallback = True\<rparr>,
     set_Obfs = \<lparr>obfs_Enabled = True, obfs_MaxPadding = 64, obfs_MaxJitterMS = 25\<rparr>,
     set_Security = \<lparr>EnableIPLimit = False, MaxIPsPerClient = 2, AllowedCIDR = ''0.0.0.0/0'',
                  BlockPrivateIPs = False\<rparr>,
     set_Traffic = \<lparr>EnableLimit = False, DefaultClientGB = 100, ResetEveryDays = 30,
                  EnableAutoSuspend = False\<rparr>\<rparr>"

subsection \<open>Decoding\<close>

text \<open>A struct is decoded over the value it already has; absent members keep it.\<close>

type_synonym 'a decoder = "'a \<Rightarrow> (string \<times> json) list \<Rightarrow> 'a option"

definition dec_struct :: "'a decoder \<Rightarrow> 'a \<Rightarrow> json \<Rightarrow> 'a option" where
  "dec_struct d a v = (case v of JNull \<Rightarrow> Some a | JObj ms \<Rightarrow> d a ms | _ \<Rightarrow> None)"

definition dec_list :: "('a \<Rightarrow> json \<Rightarrow> 'a option) \<Rightarrow> 'a \<Rightarrow> 'a list \<Rightarrow> json \<Rightarrow> 'a list option" where
  "dec_list d z old v = (case v of
     JNull \<Rightarrow> Some []
   | JArr vs \<Rightarrow> those (map (d z) vs)
   | _ \<Rightarrow> None)"

definition field :: "('a \<Rightarrow> json \<Rightarrow> 'a option) \<Rightarrow> string \<Rightarrow> 'a \<Rightarrow> (string \<times> json) list \<Rightarrow> ('a \<Rightarrow> 'b option) \<Rightarrow> 'b option" where
  "field dec name old ms k = Option.bind (field_fold dec name old ms) k"

definition zero_Inbound :: Inbound where
  "zero_Inbound = \<lparr>inb_ID = [], inb_Name = [], inb_Listen = [], inb_Transport = [], inb_Enabled = False,
     inb_CreatedAt = UTC zero_time, inb_Description = []\<rparr>"

definition Inbound_decode :: "Inbound decoder" where
  "Inbound_decode i ms =
     field dec_str ''id'' (inb_ID i) ms (\<lambda>a.
     field dec_str ''name'' (inb_Name i) ms (\<lambda>b.
     field dec_str ''listen'' (inb_Listen i) ms (\<lambda>c.
     field dec_str ''transport'' (inb_Transport i) ms (\<lambda>d.
     field dec_bool ''enabled'' (inb_Enabled i) ms (\<lambda>e.
     field dec_time ''created_at'' (inb_CreatedAt i) ms (\<lambda>f.
     field dec_str ''description'' (inb_Description i) ms (\<lambda>g.
       Some \<lparr>inb_ID = a, inb_Name = b, inb_Listen = c, inb_Transport = d, inb_Enabled = e,
             inb_CreatedAt = f, inb_Description = g\<rparr>)))))))"

definition zero_Client :: Client where
  "zero_Client = \<lparr>cl_ID = [], cl_Email = [], cl_InboundID = [], cl_ExpiresAt = UTC zero_time, cl_Enabled = False,
     cl_CreatedAt = UTC zero_time\<rparr>"

definition Client_decode :: "Client decoder" where
  "Client_decode c ms =
     field dec_str ''id'' (cl_ID c) ms (\<lambda>a.
     field dec_str ''email'' (cl_Email c) ms (\<lambda>b.
     field dec_str ''inbound_id'' (cl_InboundID c) ms (\<lambda>i.
     field dec_time ''expires_at'' (cl_ExpiresAt c) ms (\<lambda>x.
     field dec_bool ''enabled'' (cl_Enabled c) ms (\<lambda>e.
     field dec_time ''created_at'' (cl_CreatedAt c) ms (\<lambda>f.
       Some \<lparr>cl_ID = a, cl_Email = b, cl_InboundID = i, cl_ExpiresAt = x, cl_Enabled = e,
             cl_CreatedAt = f\<rparr>))))))"

definition PanelSettings_decode :: "PanelSettings decoder" where
  "PanelSettings_decode p ms =
     field dec_str ''site_title'' (SiteTitle p) ms (\<lambda>a.
     field dec_str ''default_lang'' (DefaultLang p) ms (\<lambda>b.
     field dec_int ''session_hours'' (SessionHours p) ms (\<lambda>c.
     field dec_bool ''allow_signup'' (AllowSignup p) ms (\<lambda>d.
     field dec_str ''timezone'' (Timezone p) ms (\<lambda>e.
       Some \<lparr>SiteTitle = a, DefaultLang = b, SessionHours = c, AllowSignup = d, Timezone = e\<rparr>)))))"

definition TransportSettings_decode :: "TransportSettings decoder" where
  "TransportSettings_decode t ms =
     field dec_str ''default_inbound_transport'' (DefaultInboundTransport t) ms (\<lambda>a.
     field dec_int ''default_port_tcp'' (DefaultPortTCP t) ms (\<lambda>b.
     field dec_int ''default_port_udp'' (DefaultPortUDP t) ms (\<lambda>c.
     field dec_bool ''enable_tcp'' (EnableTCP t) ms (\<lambda>d.
     field dec_bool ''enable_udp'' (EnableUDP t) ms (\<lambda>e.
     field dec_bool ''enable_fallback'' (EnableFallback t) ms (\<lambda>f.
       Some \<lparr>DefaultInboundTransport = a, DefaultPortTCP = b, DefaultPortUDP = c, EnableTCP = d,
             EnableUDP = e, EnableFallback = f\<rparr>))))))"

definition ObfsSettings_decode :: "ObfsSettings decoder" where
  "ObfsSettings_decode s ms =
     field dec_bool ''enabled'' (obfs_Enabled s) ms (\<lambda>a.
     field dec_int ''max_padding'' (obfs_MaxPadding s) ms (\<lambda>b.
     field dec_int ''max_jitter_ms'' (obfs_MaxJitterMS s) ms (\<lambda>c.
       Some \<lparr>obfs_Enabled = a, obfs_MaxPadding = b, obfs_MaxJitterMS = c\<rparr>)))"

definition SecuritySettings_decode :: "SecuritySettings decoder" where
  "SecuritySettings_decode s ms =
     field dec_bool ''enable_ip_limit'' (EnableIPLimit s) ms (\<lambda>a.
     field dec_int ''max_ips_per_client'' (MaxIPsPerClient s) ms (\<lambda>b.
     field dec_str ''allowed_cidr'' (AllowedCIDR s) ms (\<lambda>c.
     field dec_bool ''block_private_ips'' (BlockPrivateIPs s) ms (\<lambda>d.
       Some \<lparr>EnableIPLimit = a, MaxIPsPerClient = b, AllowedCIDR = c, BlockPrivateIPs = d\<rparr>))))"

definition TrafficSettings_decode :: "TrafficSettings decoder" where
  "TrafficSettings_decode s ms =
     field dec_bool ''enable_limit'' (EnableLimit s) ms (\<lambda>a.
     field dec_int ''default_client_gb'' (DefaultClientGB s) ms (\<lambda>b.
     field dec_int ''reset_every_days'' (ResetEveryDays s) ms (\<lambda>c.
     field dec_bool ''enable_auto_suspend'' (EnableAutoSuspend s) ms (\<lambda>d.
       Some \<lparr>EnableLimit = a, DefaultClientGB = b, ResetEveryDays = c, EnableAutoSuspend = d\<rparr>))))"

definition Settings_decode :: "Settings decoder" where
  "Settings_decode s ms =
     field (dec_struct PanelSettings_decode) ''panel'' (set_Panel s) ms (\<lambda>a.
     field (dec_struct TransportSettings_decode) ''transport'' (set_Transport s) ms (\<lambda>b.
     field (dec_struct ObfsSettings_decode) ''obfs'' (set_Obfs s) ms (\<lambda>c.
     field (dec_struct SecuritySettings_decode) ''security'' (set_Security s) ms (\<lambda>d.
     field (dec_struct TrafficSettings_decode) ''traffic'' (set_Traffic s) ms (\<lambda>e.
       Some \<lparr>set_Panel = a, set_Transport = b, set_Obfs = c, set_Security = d, set_Traffic = e\<rparr>)))))"

text \<open>The zero value of the struct, the start of decoding a request.\<close>

definition zero_Settings :: Settings where
  "zero_Settings = \<lparr>
     set_Panel = \<lparr>SiteTitle = [], DefaultLang = [], SessionHours = 0, AllowSignup = False, Timezone = []\<rparr>,
     set_Transport = \<lparr>DefaultInboundTransport = [], DefaultPortTCP = 0, DefaultPortUDP = 0,
                  EnableTCP = False, EnableUDP = False, EnableFallback = False\<rparr>,
     set_Obfs = \<lparr>obfs_Enabled = False, obfs_MaxPadding = 0, obfs_MaxJitterMS = 0\<rparr>,
     set_Security = \<lparr>EnableIPLimit = False, MaxIPsPerClient = 0, AllowedCIDR = [], BlockPrivateIPs = False\<rparr>,
     set_Traffic = \<lparr>EnableLimit = False, DefaultClientGB = 0, ResetEveryDays = 0, EnableAutoSuspend = False\<rparr>\<rparr>"

definition State_decode :: "State decoder" where
  "State_decode s ms =
     field (dec_list (dec_struct Inbound_decode) zero_Inbound) ''inbounds'' (Inbounds s) ms (\<lambda>a.
     field (dec_list (dec_struct Client_decode) zero_Client) ''clients'' (Clients s) ms (\<lambda>b.
     field (dec_struct Settings_decode) ''settings'' (state_Settings s) ms (\<lambda>c.
       Some \<lparr>Inbounds = a, Clients = b, state_Settings = c\<rparr>)))"

subsection \<open>Encoding\<close>

definition Inbound_json :: "Inbound \<Rightarrow> json option" where
  "Inbound_json i = Option.bind (enc_time (inb_CreatedAt i)) (\<lambda>t. Some (JObj
     [(''id'', JStr (inb_ID i)), (''name'', JStr (inb_Name i)), (''listen'', JStr (inb_Listen i)),
      (''transport'', JStr (inb_Transport i)), (''enabled'', JBool (inb_Enabled i)),
      (''created_at'', t), (''description'', JStr (inb_Description i))]))"

definition Client_json :: "Client \<Rightarrow> json option" where
  "Client_json c = Option.bind (enc_time (cl_ExpiresAt c)) (\<lambda>x. Option.bind (enc_time (cl_CreatedAt c)) (\<lambda>t. Some (JObj
     [(''id'', JStr (cl_ID c)), (''email'', JStr (cl_Email c)), (''inbound_id'', JStr (cl_InboundID c)),
      (''expires_at'', x), (''enabled'', JBool (cl_Enabled c)), (''created_at'', t)])))"

definition enc_int :: "int \<Rightarrow> json" where
  "enc_int i = JNum (int_text i)"

definition Settings_json :: "Settings \<Rightarrow> json" where
  "Settings_json s = (let p = set_Panel s; t = set_Transport s; obf = set_Obfs s; sec = set_Security s; tr = set_Traffic s
     in JObj
     [(''panel'', JObj [(''site_title'', JStr (SiteTitle p)), (''default_lang'', JStr (DefaultLang p)),
         (''session_hours'', enc_int (SessionHours p)), (''allow_signup'', JBool (AllowSignup p)),
         (''timezone'', JStr (Timezone p))]),
      (''transport'', JObj [(''default_inbound_transport'', JStr (DefaultInboundTransport t)),
         (''default_port_tcp'', enc_int (DefaultPortTCP t)), (''default_port_udp'', enc_int (DefaultPortUDP t)),
         (''enable_tcp'', JBool (EnableTCP t)), (''enable_udp'', JBool (EnableUDP t)),
         (''enable_fallback'', JBool (EnableFallback t))]),
      (''obfs'', JObj [(''enabled'', JBool (obfs_Enabled obf)), (''max_padding'', enc_int (obfs_MaxPadding obf)),
         (''max_jitter_ms'', enc_int (obfs_MaxJitterMS obf))]),
      (''security'', JObj [(''enable_ip_limit'', JBool (EnableIPLimit sec)),
         (''max_ips_per_client'', enc_int (MaxIPsPerClient sec)), (''allowed_cidr'', JStr (AllowedCIDR sec)),
         (''block_private_ips'', JBool (BlockPrivateIPs sec))]),
      (''traffic'', JObj [(''enable_limit'', JBool (EnableLimit tr)),
         (''default_client_gb'', enc_int (DefaultClientGB tr)), (''reset_every_days'', enc_int (ResetEveryDays tr)),
         (''enable_auto_suspend'', JBool (EnableAutoSuspend tr))])])"

definition State_members :: "State \<Rightarrow> (string \<times> json) list option" where
  "State_members s =
     Option.bind (those (map Inbound_json (Inbounds s))) (\<lambda>ins.
     Option.bind (those (map Client_json (Clients s))) (\<lambda>cs.
       Some [(''inbounds'', JArr ins), (''clients'', JArr cs), (''settings'', Settings_json (state_Settings s))]))"

text \<open>\<open>json.MarshalIndent(s.state, \<dots>)\<close>\<close>

definition State_marshal :: "State \<Rightarrow> bytes option" where
  "State_marshal s = map_option (\<lambda>ms. json_marshal_indent (JObj ms)) (State_members s)"

subsection \<open>Decoding what was encoded\<close>

text \<open>Values the JSON text carries as they are: ASCII strings, 64-bit numbers, zones of whole minutes.\<close>

definition inbound_text_ok :: "Inbound \<Rightarrow> bool" where
  "inbound_text_ok i \<longleftrightarrow> ascii (inb_ID i) \<and> ascii (inb_Name i) \<and> ascii (inb_Listen i) \<and> ascii (inb_Transport i)
     \<and> ascii (inb_Description i) \<and> whole_zone (snd (inb_CreatedAt i))"

definition client_text_ok :: "Client \<Rightarrow> bool" where
  "client_text_ok c \<longleftrightarrow> ascii (cl_ID c) \<and> ascii (cl_Email c) \<and> ascii (cl_InboundID c)
     \<and> whole_zone (snd (cl_ExpiresAt c)) \<and> whole_zone (snd (cl_CreatedAt c))"

definition settings_text_ok :: "Settings \<Rightarrow> bool" where
  "settings_text_ok s \<longleftrightarrow>
     ascii (SiteTitle (set_Panel s)) \<and> ascii (DefaultLang (set_Panel s)) \<and> in_int64 (SessionHours (set_Panel s))
     \<and> ascii (Timezone (set_Panel s)) \<and> ascii (DefaultInboundTransport (set_Transport s))
     \<and> in_int64 (DefaultPortTCP (set_Transport s)) \<and> in_int64 (DefaultPortUDP (set_Transport s))
     \<and> in_int64 (obfs_MaxPadding (set_Obfs s)) \<and> in_int64 (obfs_MaxJitterMS (set_Obfs s))
     \<and> in_int64 (MaxIPsPerClient (set_Security s)) \<and> ascii (AllowedCIDR (set_Security s))
     \<and> in_int64 (DefaultClientGB (set_Traffic s)) \<and> in_int64 (ResetEveryDays (set_Traffic s))"

definition state_text_ok :: "State \<Rightarrow> bool" where
  "state_text_ok s \<longleftrightarrow> list_all inbound_text_ok (Inbounds s) \<and> list_all client_text_ok (Clients s)
     \<and> settings_text_ok (state_Settings s)"

lemma enc_time_roundtrip:
  assumes "enc_time st = Some v" "whole_zone (snd st)"
  shows "dec_time t v = Some st" "json_ok v" "json_depth v = 0"
proof -
  obtain s where s: "format_rfc3339 st = Some s" "v = JStr s" using assms(1) by (auto simp: enc_time_def)
  have "parse_rfc3339 True s = Some st" using parse_format [of "fst st" "snd st" s] s(1) assms(2) by simp
  then show "dec_time t v = Some st" "json_ok v" "json_depth v = 0"
    using s format_ascii [OF s(1)] by (simp_all add: dec_time_def)
qed

lemma dec_enc_int [simp]: "in_int64 i \<Longrightarrow> dec_int a (enc_int i) = Some i" "json_ok (enc_int i)" "json_depth (enc_int i) = 0"
  by (simp_all add: enc_int_def)

lemma Inbound_roundtrip:
  assumes "Inbound_json i = Some v" "inbound_text_ok i"
  shows "dec_struct Inbound_decode z v = Some i" "json_ok v" "json_depth v = 1"
proof -
  obtain t where t: "enc_time (inb_CreatedAt i) = Some t" using assms(1) by (auto simp: Inbound_json_def bind_eq_Some_conv)
  note d = enc_time_roundtrip [OF t] and v = assms(1) [unfolded Inbound_json_def t, simplified, symmetric]
  show "dec_struct Inbound_decode z v = Some i" "json_ok v" "json_depth v = 1"
    using assms(2) unfolding v
    by (simp_all add: inbound_text_ok_def d dec_struct_def Inbound_decode_def field_def field_eval)
qed

lemma Client_roundtrip:
  assumes "Client_json c = Some v" "client_text_ok c"
  shows "dec_struct Client_decode z v = Some c" "json_ok v" "json_depth v = 1"
proof -
  obtain x t where x: "enc_time (cl_ExpiresAt c) = Some x" and t: "enc_time (cl_CreatedAt c) = Some t"
    using assms(1) by (auto simp: Client_json_def bind_eq_Some_conv)
  note d = enc_time_roundtrip [OF x] enc_time_roundtrip [OF t]
    and v = assms(1) [unfolded Client_json_def x t, simplified, symmetric]
  show "dec_struct Client_decode z v = Some c" "json_ok v" "json_depth v = 1"
    using assms(2) unfolding v
    by (simp_all add: client_text_ok_def d dec_struct_def Client_decode_def field_def field_eval)
qed

lemma Settings_roundtrip:
  assumes "settings_text_ok s"
  shows "dec_struct Settings_decode z (Settings_json s) = Some s" "json_ok (Settings_json s)" "json_depth (Settings_json s) = 2"
  using assms
  by (simp_all add: Settings_json_def settings_text_ok_def Let_def dec_struct_def Settings_decode_def PanelSettings_decode_def
      TransportSettings_decode_def ObfsSettings_decode_def SecuritySettings_decode_def TrafficSettings_decode_def field_def field_eval)

lemma list_roundtrip:
  assumes "those (map enc xs) = Some vs" "list_all ok xs"
    and "\<And>x v. enc x = Some v \<Longrightarrow> ok x \<Longrightarrow> dec v = Some x \<and> json_ok v \<and> json_depth v = 1"
  shows "those (map dec vs) = Some xs \<and> elems_ok vs \<and> elems_depth vs \<le> 1"
  using assms by (induction xs arbitrary: vs) (fastforce split: option.splits)+

lemma State_roundtrip:
  assumes "State_members s = Some ms" "state_text_ok s"
  shows "State_decode z ms = Some s" "members_ok ms" "members_depth ms \<le> 2"
proof -
  obtain ins cs where i: "those (map Inbound_json (Inbounds s)) = Some ins" and c: "those (map Client_json (Clients s)) = Some cs"
    using assms(1) by (auto simp: State_members_def bind_eq_Some_conv)
  note ms = assms(1) [unfolded State_members_def i c, simplified, symmetric]
  have ok: "list_all inbound_text_ok (Inbounds s)" "list_all client_text_ok (Clients s)" "settings_text_ok (state_Settings s)"
    using assms(2) by (simp_all add: state_text_ok_def)
  note ri = list_roundtrip [OF i ok(1), where dec = "dec_struct Inbound_decode zero_Inbound"]
    and rc = list_roundtrip [OF c ok(2), where dec = "dec_struct Client_decode zero_Client"]
  have ri: "those (map (dec_struct Inbound_decode zero_Inbound) ins) = Some (Inbounds s) \<and> elems_ok ins \<and> elems_depth ins \<le> 1"
    by (rule ri) (simp add: Inbound_roundtrip)
  have rc: "those (map (dec_struct Client_decode zero_Client) cs) = Some (Clients s) \<and> elems_ok cs \<and> elems_depth cs \<le> 1"
    by (rule rc) (simp add: Client_roundtrip)
  show "State_decode z ms = Some s" "members_ok ms" "members_depth ms \<le> 2"
    unfolding ms using ri rc Settings_roundtrip [OF ok(3)]
    by (simp_all add: State_decode_def field_def field_eval dec_list_def)
qed

theorem State_marshal_roundtrip:
  assumes "State_marshal s = Some b" "state_text_ok s"
  shows "\<exists>ms. obj_members b = Inr ms \<and> State_decode z ms = Some s" "b \<noteq> []"
proof -
  obtain ms where m: "State_members s = Some ms" "b = json_marshal_indent (JObj ms)"
    using assms(1) by (auto simp: State_marshal_def)
  note r = State_roundtrip [OF m(1) assms(2)]
  have "obj_members b = Inr ms"
    unfolding m(2) by (rule obj_members_marshal_indent) (use r(2,3) in \<open>simp_all add: max_depth_def\<close>)
  then show "\<exists>ms. obj_members b = Inr ms \<and> State_decode z ms = Some s" using r(1) by blast
  show "b \<noteq> []" unfolding m(2) by (simp add: json_marshal_indent_def bytes_of_str_def)
qed

text \<open>When a value has no JSON form.\<close>

lemma those_None: "those xs = None \<longleftrightarrow> None \<in> set xs"
  by (induction xs) (auto split: option.splits)

lemma None_in_map: "None \<in> set (map f xs) \<longleftrightarrow> (\<exists>x \<in> set xs. f x = None)"
  by (induction xs) auto

lemma State_marshal_None: "State_marshal s = None \<longleftrightarrow>
    (\<exists>i \<in> set (Inbounds s). enc_time (inb_CreatedAt i) = None)
    \<or> (\<exists>c \<in> set (Clients s). enc_time (cl_ExpiresAt c) = None \<or> enc_time (cl_CreatedAt c) = None)"
proof -
  have "Inbound_json i = None \<longleftrightarrow> enc_time (inb_CreatedAt i) = None" for i
    by (cases "enc_time (inb_CreatedAt i)") (simp_all add: Inbound_json_def)
  moreover have "Client_json c = None \<longleftrightarrow> enc_time (cl_ExpiresAt c) = None \<or> enc_time (cl_CreatedAt c) = None" for c
    by (cases "enc_time (cl_ExpiresAt c)"; cases "enc_time (cl_CreatedAt c)") (simp_all add: Client_json_def)
  moreover have "State_marshal s = None \<longleftrightarrow> None \<in> set (map Inbound_json (Inbounds s)) \<or> None \<in> set (map Client_json (Clients s))"
    unfolding those_None [symmetric]
    by (cases "those (map Inbound_json (Inbounds s))"; cases "those (map Client_json (Clients s))")
      (simp_all add: State_marshal_def State_members_def)
  ultimately show ?thesis by (simp only: None_in_map)
qed

end
