(* ===== verification/PanelStore.thy ===== *)
theory PanelStore
  imports PanelModel Systems
begin

text \<open>
  \<open>panel/store.go\<close>: a list of inbounds and a list of clients kept under their identifiers, and
  the settings. A save appends the file's new contents to \<open>st_saved\<close>; whether directory and file
  can be written is an argument.
\<close>

subsection \<open>store.go\<close>

record Store =
  st_state :: State
  st_saved :: "bytes list"

text \<open>\<open>ok\<close> is whether directory and file can be written.\<close>

definition saveLocked :: "bool \<Rightarrow> Store \<Rightarrow> unit result \<times> Store" where
  "saveLocked ok s =
     (case State_marshal (st_state s) of
        None \<Rightarrow> (Inl EJson, s)
      | Some b \<Rightarrow> if ok then (Inr (), s\<lparr>st_saved := st_saved s @ [b]\<rparr>) else (Inl EOs, s))"

text \<open>\<open>if x == zero { x = default }\<close>\<close>

definition or_default :: "'a \<Rightarrow> 'a \<Rightarrow> 'a \<Rightarrow> 'a" where
  "or_default zero def x = (if x = zero then def else x)"

definition settings_defaults :: "Settings \<Rightarrow> Settings" where
  "settings_defaults s =
     (let def = DefaultSettings;
          p = set_Panel s; t = set_Transport s; obf = set_Obfs s; sec = set_Security s; tr = set_Traffic s;
          p = p\<lparr>SiteTitle := or_default [] (SiteTitle (set_Panel def)) (SiteTitle p)\<rparr>;
          p = p\<lparr>DefaultLang := or_default [] (DefaultLang (set_Panel def)) (DefaultLang p)\<rparr>;
          p = p\<lparr>SessionHours := or_default 0 (SessionHours (set_Panel def)) (SessionHours p)\<rparr>;
          p = p\<lparr>Timezone := or_default [] (Timezone (set_Panel def)) (Timezone p)\<rparr>;
          t = t\<lparr>DefaultInboundTransport :=
                 or_default [] (DefaultInboundTransport (set_Transport def)) (DefaultInboundTransport t)\<rparr>;
          t = t\<lparr>DefaultPortTCP := or_default 0 (DefaultPortTCP (set_Transport def)) (DefaultPortTCP t)\<rparr>;
          t = t\<lparr>DefaultPortUDP := or_default 0 (DefaultPortUDP (set_Transport def)) (DefaultPortUDP t)\<rparr>;
          t = (if \<not> EnableTCP t \<and> \<not> EnableUDP t
               then t\<lparr>EnableTCP := EnableTCP (set_Transport def), EnableUDP := EnableUDP (set_Transport def)\<rparr>
               else t);
          obf = obf\<lparr>obfs_MaxPadding := or_default 0 (obfs_MaxPadding (set_Obfs def)) (obfs_MaxPadding obf)\<rparr>;
          obf = obf\<lparr>obfs_MaxJitterMS := or_default 0 (obfs_MaxJitterMS (set_Obfs def)) (obfs_MaxJitterMS obf)\<rparr>;
          sec = sec\<lparr>MaxIPsPerClient := or_default 0 (MaxIPsPerClient (set_Security def)) (MaxIPsPerClient sec)\<rparr>;
          sec = sec\<lparr>AllowedCIDR := or_default [] (AllowedCIDR (set_Security def)) (AllowedCIDR sec)\<rparr>;
          tr = tr\<lparr>DefaultClientGB := or_default 0 (DefaultClientGB (set_Traffic def)) (DefaultClientGB tr)\<rparr>;
          tr = tr\<lparr>ResetEveryDays := or_default 0 (ResetEveryDays (set_Traffic def)) (ResetEveryDays tr)\<rparr>
      in \<lparr>set_Panel = p, set_Transport = t, set_Obfs = obf, set_Security = sec, set_Traffic = tr\<rparr>)"

text \<open>A missing list and an empty one are the same list here.\<close>

definition applyDefaultsLocked :: "Store \<Rightarrow> Store" where
  "applyDefaultsLocked s =
     s\<lparr>st_state := (st_state s)\<lparr>state_Settings := settings_defaults (state_Settings (st_state s))\<rparr>\<rparr>"

datatype state_file = Missing | Unreadable | Contents bytes

definition load :: "state_file \<Rightarrow> bool \<Rightarrow> Store \<Rightarrow> unit result \<times> Store" where
  "load file ok s =
     (case file of
        Missing \<Rightarrow> saveLocked ok s
      | Unreadable \<Rightarrow> (Inl EOs, s)
      | Contents b \<Rightarrow>
          if length b = 0 then (Inr (), s)
          else (case obj_members b of
             Inl e \<Rightarrow> (Inl e, s)
           | Inr ms \<Rightarrow>
             (case State_decode (st_state s) ms of
                None \<Rightarrow> (Inl EJson, s)
              | Some st \<Rightarrow> (Inr (), applyDefaultsLocked (s\<lparr>st_state := st\<rparr>)))))"

definition NewStore :: "state_file \<Rightarrow> bool \<Rightarrow> Store result" where
  "NewStore file ok =
     (case load file ok \<lparr>st_state = \<lparr>Inbounds = [], Clients = [], state_Settings = DefaultSettings\<rparr>,
                         st_saved = []\<rparr> of
        (Inl e, s) \<Rightarrow> Inl e
      | (Inr _, s) \<Rightarrow> Inr s)"

definition Snapshot :: "Store \<Rightarrow> State" where
  "Snapshot s = st_state s"

text \<open>The loop of an upsert: replace the first entry with the identifier, or append.\<close>

fun upsert :: "('a \<Rightarrow> string) \<Rightarrow> 'a \<Rightarrow> 'a list \<Rightarrow> 'a list" where
  "upsert key x [] = [x]"
| "upsert key x (y # ys) = (if key y = key x then x # ys else y # upsert key x ys)"

definition remove_id :: "('a \<Rightarrow> string) \<Rightarrow> string \<Rightarrow> 'a list \<Rightarrow> 'a list" where
  "remove_id key i xs = filter (\<lambda>v. key v \<noteq> i) xs"

definition UpsertInbound :: "bool \<Rightarrow> Inbound \<Rightarrow> Store \<Rightarrow> unit result \<times> Store" where
  "UpsertInbound ok x s =
     saveLocked ok (s\<lparr>st_state := (st_state s)\<lparr>Inbounds := upsert inb_ID x (Inbounds (st_state s))\<rparr>\<rparr>)"

definition DeleteInbound :: "bool \<Rightarrow> string \<Rightarrow> Store \<Rightarrow> unit result \<times> Store" where
  "DeleteInbound ok i s =
     saveLocked ok (s\<lparr>st_state := (st_state s)\<lparr>Inbounds := remove_id inb_ID i (Inbounds (st_state s))\<rparr>\<rparr>)"

definition UpsertClient :: "bool \<Rightarrow> Client \<Rightarrow> Store \<Rightarrow> unit result \<times> Store" where
  "UpsertClient ok x s =
     saveLocked ok (s\<lparr>st_state := (st_state s)\<lparr>Clients := upsert cl_ID x (Clients (st_state s))\<rparr>\<rparr>)"

definition DeleteClient :: "bool \<Rightarrow> string \<Rightarrow> Store \<Rightarrow> unit result \<times> Store" where
  "DeleteClient ok i s =
     saveLocked ok (s\<lparr>st_state := (st_state s)\<lparr>Clients := remove_id cl_ID i (Clients (st_state s))\<rparr>\<rparr>)"

definition UpdateSettings :: "bool \<Rightarrow> Settings \<Rightarrow> Store \<Rightarrow> unit result \<times> Store" where
  "UpdateSettings ok x s =
     saveLocked ok (applyDefaultsLocked (s\<lparr>st_state := (st_state s)\<lparr>state_Settings := x\<rparr>\<rparr>))"

subsection \<open>The keyed lists\<close>

definition lookup :: "('a \<Rightarrow> string) \<Rightarrow> 'a list \<Rightarrow> string \<Rightarrow> 'a option" where
  "lookup key xs k = List.find (\<lambda>v. key v = k) xs"

lemma lookup_simps [simp]:
  "lookup key [] k = None" "lookup key (x # xs) k = (if key x = k then Some x else lookup key xs k)"
  by (simp_all add: lookup_def)

lemma lookup_upsert: "lookup key (upsert key x xs) k = (if k = key x then Some x else lookup key xs k)"
  by (induction xs) auto

lemma lookup_remove: "lookup key (remove_id key i xs) k = (if k = i then None else lookup key xs k)"
  by (induction xs) (auto simp: remove_id_def)

lemma set_upsert: "set (map key (upsert key x xs)) = insert (key x) (set (map key xs))"
  by (induction xs) auto

lemma distinct_upsert: "distinct (map key xs) \<Longrightarrow> distinct (map key (upsert key x xs))"
proof (induction xs)
  case (Cons y ys)
  then show ?case using set_upsert [of key x ys] by auto
qed simp

lemma distinct_remove: "distinct (map key xs) \<Longrightarrow> distinct (map key (remove_id key i xs))"
  by (simp add: remove_id_def distinct_map_filter)

lemma upsert_order: "key x \<in> set (map key xs) \<Longrightarrow> map key (upsert key x xs) = map key xs"
  by (induction xs) auto

lemma upsert_fresh: "key x \<notin> set (map key xs) \<Longrightarrow> upsert key x xs = xs @ [x]"
  by (induction xs) auto

text \<open>
  What a user of one of the two collections relies on: a state behaves as a map from identifiers
  under writing and deleting.
\<close>

locale keyed_store =
  fixes look :: "'s \<Rightarrow> string \<Rightarrow> 'a option"
    and key :: "'a \<Rightarrow> string"
    and put :: "'a \<Rightarrow> 's \<Rightarrow> 's"
    and del :: "string \<Rightarrow> 's \<Rightarrow> 's"
  assumes look_put: "look (put x s) k = (if k = key x then Some x else look s k)"
    and look_del: "look (del i s) k = (if k = i then None else look s k)"
begin

lemma put_look: "look (put x s) (key x) = Some x"
  by (simp add: look_put)

lemma put_twice: "key x = key y \<Longrightarrow> look (put x (put y s)) k = look (put x s) k"
  by (simp add: look_put)

lemma put_commute: "key x \<noteq> key y \<Longrightarrow> look (put x (put y s)) k = look (put y (put x s)) k"
  by (auto simp: look_put)

lemma del_put: "look (del (key x) (put x s)) k = look (del (key x) s) k"
  by (simp add: look_put look_del)

lemma look_puts: "look (fold put xs s) k = (case List.find (\<lambda>x. key x = k) (rev xs) of
    None \<Rightarrow> look s k | Some x \<Rightarrow> Some x)"
  by (induction xs rule: rev_induct) (auto simp: look_put split: option.splits)

end

lemma saveLocked_sel [simp]: "st_state (snd (saveLocked ok s)) = st_state s"
  by (simp add: saveLocked_def split: option.splits)

interpretation inbounds: keyed_store "\<lambda>s. lookup inb_ID (Inbounds (st_state s))" inb_ID
    "\<lambda>x s. snd (UpsertInbound ok x s)" "\<lambda>i s. snd (DeleteInbound ok i s)" for ok
  by unfold_locales (simp_all add: UpsertInbound_def DeleteInbound_def lookup_upsert lookup_remove)

interpretation clients: keyed_store "\<lambda>s. lookup cl_ID (Clients (st_state s))" cl_ID
    "\<lambda>x s. snd (UpsertClient ok x s)" "\<lambda>i s. snd (DeleteClient ok i s)" for ok
  by unfold_locales (simp_all add: UpsertClient_def DeleteClient_def lookup_upsert lookup_remove)

subsection \<open>Settings\<close>

definition settings_ok :: "Settings \<Rightarrow> bool" where
  "settings_ok s \<longleftrightarrow>
     SiteTitle (set_Panel s) \<noteq> [] \<and> DefaultLang (set_Panel s) \<noteq> [] \<and> SessionHours (set_Panel s) \<noteq> 0
     \<and> Timezone (set_Panel s) \<noteq> [] \<and> DefaultInboundTransport (set_Transport s) \<noteq> []
     \<and> DefaultPortTCP (set_Transport s) \<noteq> 0 \<and> DefaultPortUDP (set_Transport s) \<noteq> 0
     \<and> (EnableTCP (set_Transport s) \<or> EnableUDP (set_Transport s))
     \<and> obfs_MaxPadding (set_Obfs s) \<noteq> 0 \<and> obfs_MaxJitterMS (set_Obfs s) \<noteq> 0
     \<and> MaxIPsPerClient (set_Security s) \<noteq> 0 \<and> AllowedCIDR (set_Security s) \<noteq> []
     \<and> DefaultClientGB (set_Traffic s) \<noteq> 0 \<and> ResetEveryDays (set_Traffic s) \<noteq> 0"

lemma or_default_nonzero: "def \<noteq> zero \<Longrightarrow> or_default zero def x \<noteq> zero"
  by (simp add: or_default_def)

lemma settings_defaults_ok: "settings_ok (settings_defaults s)"
  by (simp add: settings_ok_def settings_defaults_def Let_def or_default_nonzero DefaultSettings_def)

lemma settings_defaults_id: "settings_ok s \<Longrightarrow> settings_defaults s = s"
  by (simp add: settings_ok_def settings_defaults_def Let_def or_default_def) blast

lemma DefaultSettings_ok: "settings_ok DefaultSettings"
  by (simp add: settings_ok_def DefaultSettings_def)

subsection \<open>The invariant of the store\<close>

definition ids_ok :: "State \<Rightarrow> bool" where
  "ids_ok st \<longleftrightarrow> distinct (map inb_ID (Inbounds st)) \<and> distinct (map cl_ID (Clients st))"

definition store_inv :: "Store \<Rightarrow> bool" where
  "store_inv s \<longleftrightarrow> ids_ok (st_state s) \<and> settings_ok (state_Settings (st_state s))"

datatype store_op =
    OpUpsertInbound Inbound | OpDeleteInbound string
  | OpUpsertClient Client | OpDeleteClient string | OpUpdateSettings Settings

text \<open>An operation with the outcome of its save.\<close>

fun store_step :: "bool \<times> store_op \<Rightarrow> Store \<Rightarrow> Store" where
  "store_step (ok, OpUpsertInbound x) s = snd (UpsertInbound ok x s)"
| "store_step (ok, OpDeleteInbound i) s = snd (DeleteInbound ok i s)"
| "store_step (ok, OpUpsertClient x) s = snd (UpsertClient ok x s)"
| "store_step (ok, OpDeleteClient i) s = snd (DeleteClient ok i s)"
| "store_step (ok, OpUpdateSettings x) s = snd (UpdateSettings ok x s)"

lemmas store_defs = UpsertInbound_def DeleteInbound_def UpsertClient_def DeleteClient_def UpdateSettings_def
  applyDefaultsLocked_def

lemma store_inv_step: "store_inv s \<Longrightarrow> store_inv (store_step e s)"
  by (cases "(e, s)" rule: store_step.cases)
    (simp_all add: store_defs store_inv_def ids_ok_def distinct_upsert distinct_remove settings_defaults_ok)

definition store_init :: "Store \<Rightarrow> bool" where
  "store_init s \<longleftrightarrow> (\<exists>file ok. NewStore file ok = Inr s) \<and> ids_ok (st_state s)"

lemma NewStore_settings: "NewStore file ok = Inr s \<Longrightarrow> settings_ok (state_Settings (st_state s))"
  by (auto simp: NewStore_def load_def saveLocked_def applyDefaultsLocked_def settings_defaults_ok
      DefaultSettings_ok split: state_file.splits sum.splits option.splits if_splits prod.splits)

text \<open>The contents a run writes to the file: when a save succeeds, the JSON of the new state.\<close>

definition saved_now :: "bool \<Rightarrow> State \<Rightarrow> bytes list" where
  "saved_now ok st = (case State_marshal st of None \<Rightarrow> [] | Some b \<Rightarrow> if ok then [b] else [])"

lemma saveLocked_saved: "st_saved (snd (saveLocked ok s)) = st_saved s @ saved_now ok (st_state s)"
  by (simp add: saveLocked_def saved_now_def split: option.splits)

lemma step_saved: "st_saved (store_step (ok, e) s) = st_saved s @ saved_now ok (st_state (store_step (ok, e) s))"
  by (cases e) (simp_all add: store_defs saveLocked_saved)

definition saved_justified :: "bool \<times> store_op \<Rightarrow> Store \<Rightarrow> bytes \<Rightarrow> bool" where
  "saved_justified e s b \<longleftrightarrow> fst e \<and> State_marshal (st_state (store_step e s)) = Some b"

interpretation panel_store: audited_system store_init store_step store_inv st_saved saved_justified
proof unfold_locales
  show "store_inv s" if "store_init s" for s
    using that NewStore_settings by (auto simp: store_init_def store_inv_def)
  show "store_inv (store_step e s)" if "store_inv s" for e s
    using that by (rule store_inv_step)
  show "\<exists>new. st_saved (store_step e s) = st_saved s @ new \<and> (\<forall>x \<in> set new. saved_justified e s x)" for e s
    using step_saved [of "fst e" "snd e" s] by (auto simp: saved_justified_def saved_now_def split: option.splits if_splits)
qed

subsection \<open>What the store promises\<close>

text \<open>
  The abstract store is two maps and the settings. An operation of the store is the operation of
  the maps, whether or not its save succeeds.
\<close>

type_synonym abstract_store = "(string \<Rightarrow> Inbound option) \<times> (string \<Rightarrow> Client option) \<times> Settings"

definition abs_store :: "Store \<Rightarrow> abstract_store" where
  "abs_store s = (lookup inb_ID (Inbounds (st_state s)), lookup cl_ID (Clients (st_state s)),
     state_Settings (st_state s))"

fun spec_step :: "store_op \<Rightarrow> abstract_store \<Rightarrow> abstract_store" where
  "spec_step (OpUpsertInbound x) (i, c, z) = (i(inb_ID x \<mapsto> x), c, z)"
| "spec_step (OpDeleteInbound k) (i, c, z) = (i(k := None), c, z)"
| "spec_step (OpUpsertClient x) (i, c, z) = (i, c(cl_ID x \<mapsto> x), z)"
| "spec_step (OpDeleteClient k) (i, c, z) = (i, c(k := None), z)"
| "spec_step (OpUpdateSettings y) (i, c, z) = (i, c, settings_defaults y)"

lemma store_step_refines: "abs_store (store_step e s) = spec_step (snd e) (abs_store s)"
proof (cases e)
  case (Pair ok x)
  show ?thesis
    using inbounds.look_put [where s = s and ok = ok] inbounds.look_del [where s = s and ok = ok]
      clients.look_put [where s = s and ok = ok] clients.look_del [where s = s and ok = ok]
    by (cases x) (auto simp: Pair abs_store_def store_defs fun_eq_iff)
qed

lemma store_run_refines: "abs_store (fold store_step evs s) = fold spec_step (map snd evs) (abs_store s)"
  by (induction evs arbitrary: s) (simp_all add: store_step_refines)

subsection \<open>Restarting from the file\<close>

fun op_text_ok :: "store_op \<Rightarrow> bool" where
  "op_text_ok (OpUpsertInbound x) = inbound_text_ok x"
| "op_text_ok (OpUpsertClient x) = client_text_ok x"
| "op_text_ok (OpUpdateSettings x) = settings_text_ok x"
| "op_text_ok e = True"

lemma list_all_upsert: "list_all P xs \<Longrightarrow> P x \<Longrightarrow> list_all P (upsert key x xs)"
  by (induction xs) auto

lemma list_all_remove: "list_all P xs \<Longrightarrow> list_all P (remove_id key i xs)"
  by (simp add: remove_id_def list_all_iff)

lemma settings_defaults_text: "settings_text_ok s \<Longrightarrow> settings_text_ok (settings_defaults s)"
  by (simp add: settings_text_ok_def settings_defaults_def Let_def or_default_def DefaultSettings_def in_int64_def)

lemma text_ok_step: "state_text_ok (st_state s) \<Longrightarrow> op_text_ok (snd e) \<Longrightarrow> state_text_ok (st_state (store_step e s))"
  by (cases "(e, s)" rule: store_step.cases)
    (auto simp: store_defs state_text_ok_def list_all_upsert settings_defaults_text list_all_remove)

lemma text_ok_run:
  "state_text_ok (st_state s) \<Longrightarrow> list_all (\<lambda>e. op_text_ok (snd e)) evs \<Longrightarrow> state_text_ok (st_state (fold store_step evs s))"
  by (induction evs arbitrary: s) (simp_all add: text_ok_step)

text \<open>What was saved loads as the state it was saved from.\<close>

lemma load_saved:
  assumes "State_marshal st = Some b" "state_text_ok st" "settings_ok (state_Settings st)"
  shows "\<exists>s'. NewStore (Contents b) ok = Inr s' \<and> st_state s' = st"
proof -
  let ?z = "\<lparr>Inbounds = [], Clients = [], state_Settings = DefaultSettings\<rparr>"
  obtain ms where "obj_members b = Inr ms" "State_decode ?z ms = Some st"
    using State_marshal_roundtrip(1) [OF assms(1,2)] by blast
  then show ?thesis
    using State_marshal_roundtrip(2) [OF assms(1,2)] assms(3)
    by (simp add: NewStore_def load_def applyDefaultsLocked_def settings_defaults_id)
qed

lemma last_saved:
  assumes "st_saved (store_step e s) \<noteq> st_saved s"
  shows "State_marshal (st_state (store_step e s)) = Some (last (st_saved (store_step e s)))"
  using assms step_saved [of "fst e" "snd e" s] by (auto simp: saved_now_def split: option.splits if_splits)

text \<open>
  A state without a JSON form makes every save fail: while a client with such a time stays in the
  list, nothing is written any more.
\<close>

definition leaves_client :: "string \<Rightarrow> store_op \<Rightarrow> bool" where
  "leaves_client i e = (case e of
     OpUpsertClient x \<Rightarrow> cl_ID x \<noteq> i | OpDeleteClient j \<Rightarrow> j \<noteq> i | _ \<Rightarrow> True)"

definition unprintable_client :: "Store \<Rightarrow> Client \<Rightarrow> bool" where
  "unprintable_client s c \<longleftrightarrow>
     lookup cl_ID (Clients (st_state s)) (cl_ID c) = Some c \<and> enc_time (cl_ExpiresAt c) = None"

lemma unprintable_marshal: "unprintable_client s c \<Longrightarrow> State_marshal (st_state s) = None"
  by (auto simp: unprintable_client_def lookup_def find_Some_iff State_marshal_None)

lemma unprintable_step:
  assumes "unprintable_client s c" "leaves_client (cl_ID c) (snd e)"
  shows "unprintable_client (store_step e s) c \<and> st_saved (store_step e s) = st_saved s"
proof -
  have "lookup cl_ID (Clients (st_state (store_step e s))) (cl_ID c) = lookup cl_ID (Clients (st_state s)) (cl_ID c)"
  proof (cases e)
    case (Pair ok op)
    then show ?thesis
      using assms(2) clients.look_put [where s = s and ok = ok] clients.look_del [where s = s and ok = ok]
      by (cases op) (auto simp: leaves_client_def store_defs)
  qed
  then have u: "unprintable_client (store_step e s) c" using assms(1) by (simp add: unprintable_client_def)
  then show ?thesis
    using step_saved [of "fst e" "snd e" s] unprintable_marshal [OF u] by (simp add: saved_now_def)
qed

lemma unprintable_run:
  "unprintable_client s c \<Longrightarrow> list_all (\<lambda>e. leaves_client (cl_ID c) (snd e)) evs \<Longrightarrow>
     unprintable_client (fold store_step evs s) c \<and> st_saved (fold store_step evs s) = st_saved s"
  by (induction evs arbitrary: s) (simp_all add: unprintable_step)

end
