(* ===== verification/GoPath.thy ===== *)
theory GoPath
  imports GoJson
begin

text \<open>
  Slash-separated paths as \<open>path\<close>, \<open>path/filepath\<close> (on Unix) and \<open>net/http\<close> treat them: \<open>Clean\<close>,
  \<open>Join\<close>, percent decoding, the multiplexer's \<open>cleanPath\<close> and the check \<open>ServeFile\<close> makes for
  \<open>..\<close> elements.
\<close>

fun path_unescape :: "string \<Rightarrow> string" where
  "path_unescape (c # a # b # s) =
     (case (hex_value a, hex_value b) of
        (Some x, Some y) \<Rightarrow>
          if c = CHR ''%'' then chr (16 * x + y) # path_unescape s else c # path_unescape (a # b # s)
      | _ \<Rightarrow> c # path_unescape (a # b # s))"
| "path_unescape (c # s) = c # path_unescape s"
| "path_unescape [] = []"

definition clean_step :: "bool \<Rightarrow> string \<Rightarrow> string list \<Rightarrow> string list" where
  "clean_step rooted c st =
     (if c = [] \<or> c = ''.'' then st
      else if c = ''..''
      then (case st of
              x # xs \<Rightarrow> if x \<noteq> ''..'' then xs else c # st
            | [] \<Rightarrow> if rooted then [] else [c])
      else c # st)"

definition path_Clean :: "string \<Rightarrow> string" where
  "path_Clean p =
     (let rooted = (take 1 p = ''/'');
          elems = rev (fold (clean_step rooted) (split_at CHR ''/'' p) []);
          q = (if rooted then ''/'' else []) @ join_with CHR ''/'' elems
      in if q = [] then ''.'' else q)"

definition path_Join :: "string \<Rightarrow> string \<Rightarrow> string" where
  "path_Join a b =
     (if a \<noteq> [] then path_Clean (a @ ''/'' @ b) else if b \<noteq> [] then path_Clean b else [])"

definition cleanPath :: "string \<Rightarrow> string" where
  "cleanPath p =
     (if p = [] then ''/''
      else let p = (if hd p \<noteq> CHR ''/'' then CHR ''/'' # p else p); np = path_Clean p
           in if last p = CHR ''/'' \<and> np \<noteq> ''/'' then np @ ''/'' else np)"

text \<open>Elements are bounded by slashes of either kind.\<close>

definition containsDotDot :: "string \<Rightarrow> bool" where
  "containsDotDot p \<longleftrightarrow> list_ex (\<lambda>x. ''..'' \<in> set (split_at CHR 0x5C x)) (split_at CHR ''/'' p)"

definition trim_prefix :: "string \<Rightarrow> string \<Rightarrow> string" where
  "trim_prefix p s = (if take (length p) s = p then drop (length p) s else s)"

definition has_suffix :: "string \<Rightarrow> string \<Rightarrow> bool" where
  "has_suffix p s \<longleftrightarrow> length p \<le> length s \<and> drop (length s - length p) s = p"

subsection \<open>Paths without \<open>..\<close>\<close>

definition proper :: "string \<Rightarrow> bool" where
  "proper c \<longleftrightarrow> c \<noteq> [] \<and> c \<noteq> ''.''"

text \<open>The elements a path keeps when it is cleaned.\<close>

definition path_elems :: "string \<Rightarrow> string list" where
  "path_elems p = filter proper (split_at CHR ''/'' p)"

lemma no_dotdot: "\<not> containsDotDot p \<Longrightarrow> ''..'' \<notin> set (split_at CHR ''/'' p)"
  by (auto simp: containsDotDot_def list_ex_iff)

lemma fold_clean: "''..'' \<notin> set cs \<Longrightarrow> fold (clean_step r) cs st = rev (filter proper cs) @ st"
  by (induction cs arbitrary: st) (auto simp: clean_step_def proper_def)

lemma path_elems_proper: "c \<in> set (path_elems p) \<Longrightarrow> proper c \<and> CHR ''/'' \<notin> set c"
  using split_at_clean [of c] by (auto simp: path_elems_def)

lemma path_Clean_elems:
  assumes "''..'' \<notin> set (split_at CHR ''/'' p)"
  shows "path_Clean p = (if take 1 p = ''/'' then ''/'' @ join_with CHR ''/'' (path_elems p)
    else if path_elems p = [] then ''.'' else join_with CHR ''/'' (path_elems p))"
proof -
  have "path_elems p \<noteq> [[]]" using path_elems_proper [of "[]" p] by (auto simp: proper_def)
  then show ?thesis
    by (simp add: path_Clean_def fold_clean [OF assms] path_elems_def [symmetric] Let_def join_with_Nil)
qed

lemma path_elems_slash: "path_elems (a @ CHR ''/'' # b) = path_elems a @ path_elems b"
  by (simp add: path_elems_def split_at_app)

lemma path_elems_join:
  assumes "\<And>c. c \<in> set cs \<Longrightarrow> proper c \<and> CHR ''/'' \<notin> set c"
  shows "path_elems (join_with CHR ''/'' cs) = cs"
proof (cases cs)
  case Nil
  then show ?thesis by (simp add: path_elems_def proper_def)
next
  case (Cons c cs')
  then have "split_at CHR ''/'' (join_with CHR ''/'' cs) = cs" using assms by (intro split_join) auto
  then show ?thesis using assms by (simp add: path_elems_def)
qed

lemma path_elems_Clean:
  assumes "''..'' \<notin> set (split_at CHR ''/'' p)"
  shows "path_elems (path_Clean p) = path_elems p" "''..'' \<notin> set (split_at CHR ''/'' (path_Clean p))"
proof -
  let ?j = "join_with CHR ''/'' (path_elems p)"
  have j: "path_elems ?j = path_elems p" by (rule path_elems_join) (rule path_elems_proper)
  have "path_elems (''/'' @ ?j) = path_elems p"
    using j path_elems_slash [of "[]" ?j] by (simp add: path_elems_def proper_def)
  then show e: "path_elems (path_Clean p) = path_elems p"
    using j path_Clean_elems [OF assms] by (auto simp: path_elems_def proper_def)
  have "''..'' \<in> set (path_elems q) \<longleftrightarrow> ''..'' \<in> set (split_at CHR ''/'' q)" for q
    by (auto simp: path_elems_def proper_def)
  then show "''..'' \<notin> set (split_at CHR ''/'' (path_Clean p))" using e assms by metis
qed

text \<open>Joining a relative directory with a path without \<open>..\<close> stays below the directory.\<close>

lemma path_Join_below:
  assumes "''..'' \<notin> set (split_at CHR ''/'' p)" "path_elems dir = ds" "ds \<noteq> []" "''..'' \<notin> set (split_at CHR ''/'' dir)"
    and "dir \<noteq> []" "hd dir \<noteq> CHR ''/''"
  shows "path_Join dir p = join_with CHR ''/'' (ds @ path_elems p)"
proof -
  have "take 1 (dir @ ''/'' @ p) \<noteq> ''/''" using assms(5,6) by (cases dir) auto
  moreover have "''..'' \<notin> set (split_at CHR ''/'' (dir @ ''/'' @ p))" using assms(1,4) by (simp add: split_at_app)
  moreover have "path_elems (dir @ ''/'' @ p) = ds @ path_elems p" using assms(2) by (simp add: path_elems_slash)
  ultimately show ?thesis using path_Clean_elems [of "dir @ ''/'' @ p"] assms(3,5) by (simp add: path_Join_def)
qed

end
