(* ===== verification/PanelServer.thy ===== *)
theory PanelServer
  imports PanelStore GoPath Config Crypto Base64
begin

text \<open>
  \<open>panel/auth.go\<close> and \<open>panel/server.go\<close>: logins and their tokens, the multiplexer and the HTTP
  handlers. A request has its method, its path as sent (\<open>r.URL.EscapedPath()\<close>), the value of the
  session cookie, the query parameter \<open>lines\<close> and the members of the JSON object at the start of
  its body. A response has its status and the value handed to \<open>writeJSON\<close>. The record \<open>penv\<close> answers
  for the outside: clock, random source, whether a save succeeds, \<open>systemctl\<close>, reading the log file,
  and \<open>os.Stat\<close>: whether a path exists and is a directory.
\<close>

subsection \<open>auth.go\<close>

record sessionInfo =
  si_User :: string
  si_ExpiresAt :: time

record authManager =
  am_user :: string
  passwordHash :: string
  sessions :: "string \<Rightarrow> sessionInfo option"

definition day :: time where
  "day = 24 * 3600 * 1000000000"

definition newAuthManager :: "string \<Rightarrow> string \<Rightarrow> authManager" where
  "newAuthManager user password = \<lparr>am_user = user,
     passwordHash = hexEncodeToString (sha256 (bytes_of_str password)), sessions = (\<lambda>_. None)\<rparr>"

definition Login :: "draw \<Rightarrow> time \<Rightarrow> string \<Rightarrow> string \<Rightarrow> authManager \<Rightarrow> (string \<times> bool) \<times> authManager" where
  "Login d now user password a =
     (if user \<noteq> am_user a \<or> hexEncodeToString (sha256 (bytes_of_str password)) \<noteq> passwordHash a
      then (([], False), a)
      else case read_full d 24 of
        Inl e \<Rightarrow> (([], False), a)
      | Inr token \<Rightarrow>
          (let tok = hexEncodeToString token
           in ((tok, True), a\<lparr>sessions := (sessions a)(tok \<mapsto> \<lparr>si_User = user, si_ExpiresAt = now + day\<rparr>)\<rparr>)))"

definition Validate :: "time \<Rightarrow> string \<Rightarrow> authManager \<Rightarrow> bool \<times> authManager" where
  "Validate now token a =
     (case sessions a token of
        None \<Rightarrow> (False, a)
      | Some s \<Rightarrow>
          (if si_ExpiresAt s < now then (False, a\<lparr>sessions := (sessions a)(token := None)\<rparr>)
           else (True, a)))"

definition Logout :: "string \<Rightarrow> authManager \<Rightarrow> authManager" where
  "Logout token a = a\<lparr>sessions := (sessions a)(token := None)\<rparr>"

subsection \<open>Requests and responses\<close>

record request =
  req_Method :: string
  req_EscapedPath :: string
  req_Cookie :: "string option"
  req_Lines :: string
  req_Body :: "(string \<times> json) list result"

text \<open>\<open>r.URL.Path\<close>\<close>

definition req_Path :: "request \<Rightarrow> string" where
  "req_Path r = path_unescape (req_EscapedPath r)"

text \<open>\<open>BFile\<close> is the file served, \<open>BRedirect\<close> the path of the new location.\<close>

datatype body =
    BText string | BStatus string | BAuthorized bool | BUser string
  | BStats int nat nat "64 word" | BInbounds "Inbound list" | BInbound Inbound
  | BClients "Client list" | BClient Client | BSettings Settings
  | BService string string string string | BFile string | BRedirect string

text \<open>The cookie the response sets: its value and its maximal age.\<close>

record response =
  status :: nat
  rbody :: body
  set_cookie :: "(string \<times> int) option"

definition ok_response :: "body \<Rightarrow> response" where
  "ok_response b = \<lparr>status = 200, rbody = b, set_cookie = None\<rparr>"

definition http_Error :: "string \<Rightarrow> nat \<Rightarrow> response" where
  "http_Error msg code' = \<lparr>status = code', rbody = BText msg, set_cookie = None\<rparr>"

record penv =
  p_now :: time
  p_draw :: draw
  p_save :: bool
  p_exec :: "string \<Rightarrow> string \<Rightarrow> string \<times> string"
  p_log :: "bytes option"
  p_stat :: "string \<Rightarrow> bool option"

record PanelServer =
  ps_cfg :: PanelConfig
  ps_store :: Store
  ps_auth :: authManager
  started :: time
  reqCount :: "64 word"

definition New_panel :: "time \<Rightarrow> state_file \<Rightarrow> bool \<Rightarrow> PanelConfig \<Rightarrow> PanelServer result" where
  "New_panel now file ok c =
     (case NewStore file ok of
        Inl e \<Rightarrow> Inl e
      | Inr st \<Rightarrow> Inr \<lparr>ps_cfg = c, ps_store = st,
                      ps_auth = newAuthManager (pc_AdminUser c) (pc_AdminPassword c),
                      started = now, reqCount = 0\<rparr>)"

definition method_not_allowed :: response where
  "method_not_allowed = http_Error ''method not allowed'' 405"

definition readSessionToken :: "request \<Rightarrow> string" where
  "readSessionToken r = (case req_Cookie r of None \<Rightarrow> [] | Some v \<Rightarrow> v)"

definition newID :: "string \<Rightarrow> time \<Rightarrow> string" where
  "newID prefix now = prefix @ ''_'' @ int_text now"

text \<open>The request bodies, decoded over zero values.\<close>

definition decode_body :: "'a decoder \<Rightarrow> 'a \<Rightarrow> request \<Rightarrow> 'a option" where
  "decode_body d z r = (case req_Body r of Inl e \<Rightarrow> None | Inr ms \<Rightarrow> d z ms)"

definition str_members :: "string list \<Rightarrow> (string \<times> json) list \<Rightarrow> string list option" where
  "str_members names ms = those (map (\<lambda>n. field_fold dec_str n [] ms) names)"

subsection \<open>Handlers\<close>

definition handleLogin :: "penv \<Rightarrow> request \<Rightarrow> PanelServer \<Rightarrow> response \<times> PanelServer" where
  "handleLogin env r s =
     (if req_Method r \<noteq> ''POST'' then (method_not_allowed, s)
      else (case decode_body (\<lambda>_. str_members [''username'', ''password'']) [] r of
        Some [user, password] \<Rightarrow>
          (case Login (p_draw env) (p_now env) user password (ps_auth s) of
             ((token, ok), a) \<Rightarrow>
               (if \<not> ok then (http_Error ''invalid credentials'' 401, s\<lparr>ps_auth := a\<rparr>)
                else (\<lparr>status = 200, rbody = BStatus ''ok'', set_cookie = Some (token, 86400)\<rparr>,
                      s\<lparr>ps_auth := a\<rparr>)))
      | _ \<Rightarrow> (http_Error ''bad json'' 400, s)))"

definition handleSession :: "penv \<Rightarrow> request \<Rightarrow> PanelServer \<Rightarrow> response \<times> PanelServer" where
  "handleSession env r s =
     (if req_Method r \<noteq> ''GET'' then (method_not_allowed, s)
      else let token = readSessionToken r
           in if token = [] then (ok_response (BAuthorized False), s)
              else (case Validate (p_now env) token (ps_auth s) of
                (v, a) \<Rightarrow> (ok_response (BAuthorized v), s\<lparr>ps_auth := a\<rparr>)))"

definition handleLogout :: "penv \<Rightarrow> request \<Rightarrow> PanelServer \<Rightarrow> response \<times> PanelServer" where
  "handleLogout env r s =
     (if req_Method r \<noteq> ''POST'' then (method_not_allowed, s)
      else let token = readSessionToken r;
               s = (if token \<noteq> [] then s\<lparr>ps_auth := Logout token (ps_auth s)\<rparr> else s)
           in (\<lparr>status = 200, rbody = BStatus ''ok'', set_cookie = Some ([], - 1)\<rparr>, s))"

definition handleMe :: "request \<Rightarrow> PanelServer \<Rightarrow> response \<times> PanelServer" where
  "handleMe r s =
     (if req_Method r \<noteq> ''GET'' then (method_not_allowed, s)
      else (ok_response (BUser (pc_AdminUser (ps_cfg s))), s))"

definition handleStats :: "penv \<Rightarrow> request \<Rightarrow> PanelServer \<Rightarrow> response \<times> PanelServer" where
  "handleStats env r s =
     (if req_Method r \<noteq> ''GET'' then (method_not_allowed, s)
      else let st = Snapshot (ps_store s)
           in (ok_response (BStats ((p_now env - started s) div 1000000000)
                 (length (Inbounds st)) (length (Clients st)) (reqCount s)), s))"

text \<open>\<open>if err := store.Op(); err != nil { http.Error(500) } else { writeJSON(b) }\<close>\<close>

definition after_save :: "unit result \<times> Store \<Rightarrow> body \<Rightarrow> PanelServer \<Rightarrow> response \<times> PanelServer" where
  "after_save r b s =
     (case r of
        (Inl e, st) \<Rightarrow> (http_Error ''save failed'' 500, s\<lparr>ps_store := st\<rparr>)
      | (Inr _, st) \<Rightarrow> (ok_response b, s\<lparr>ps_store := st\<rparr>))"

definition inbound_incomplete :: "Inbound \<Rightarrow> bool" where
  "inbound_incomplete i \<longleftrightarrow> inb_Name i = [] \<or> inb_Listen i = [] \<or> inb_Transport i = []"

definition handleInbounds :: "penv \<Rightarrow> request \<Rightarrow> PanelServer \<Rightarrow> response \<times> PanelServer" where
  "handleInbounds env r s =
     (if req_Method r = ''GET'' then (ok_response (BInbounds (Inbounds (Snapshot (ps_store s)))), s)
      else if req_Method r = ''POST''
      then (case decode_body Inbound_decode zero_Inbound r of
        None \<Rightarrow> (http_Error ''bad json'' 400, s)
      | Some req \<Rightarrow>
        if inbound_incomplete req then (http_Error ''name, listen, transport are required'' 400, s)
        else let req = (if inb_ID req = []
                        then req\<lparr>inb_ID := newID ''inb'' (p_now env), inb_CreatedAt := UTC (p_now env)\<rparr> else req)
             in after_save (UpsertInbound (p_save env) req (ps_store s)) (BInbound req) s)
      else (method_not_allowed, s))"

definition handleInboundByID :: "penv \<Rightarrow> request \<Rightarrow> PanelServer \<Rightarrow> response \<times> PanelServer" where
  "handleInboundByID env r s =
     (let i = trim_prefix ''/api/inbounds/'' (req_Path r) in
      if i = [] then (http_Error ''404 page not found'' 404, s)
      else if req_Method r = ''PUT''
      then (case decode_body Inbound_decode zero_Inbound r of
        None \<Rightarrow> (http_Error ''bad json'' 400, s)
      | Some req \<Rightarrow>
        let req = req\<lparr>inb_ID := i\<rparr>
        in if inbound_incomplete req then (http_Error ''name, listen, transport are required'' 400, s)
           else let req = (if fst (inb_CreatedAt req) = zero_time then req\<lparr>inb_CreatedAt := UTC (p_now env)\<rparr> else req)
                in after_save (UpsertInbound (p_save env) req (ps_store s)) (BInbound req) s)
      else if req_Method r = ''DELETE''
      then after_save (DeleteInbound (p_save env) i (ps_store s)) (BStatus ''deleted'') s
      else (method_not_allowed, s))"

record client_req =
  cr_ID :: string
  cr_Email :: string
  cr_InboundID :: string
  cr_ExpiresAt :: string
  cr_Enabled :: bool

definition zero_client_req :: client_req where
  "zero_client_req = \<lparr>cr_ID = [], cr_Email = [], cr_InboundID = [], cr_ExpiresAt = [], cr_Enabled = False\<rparr>"

definition client_req_decode :: "client_req decoder" where
  "client_req_decode c ms =
     field dec_str ''id'' (cr_ID c) ms (\<lambda>a.
     field dec_str ''email'' (cr_Email c) ms (\<lambda>b.
     field dec_str ''inbound_id'' (cr_InboundID c) ms (\<lambda>i.
     field dec_str ''expires_at'' (cr_ExpiresAt c) ms (\<lambda>x.
     field dec_bool ''enabled'' (cr_Enabled c) ms (\<lambda>e.
       Some \<lparr>cr_ID = a, cr_Email = b, cr_InboundID = i, cr_ExpiresAt = x, cr_Enabled = e\<rparr>)))))"

text \<open>The struct of the PUT handler has no identifier.\<close>

definition client_put_decode :: "client_req decoder" where
  "client_put_decode c ms =
     field dec_str ''email'' (cr_Email c) ms (\<lambda>b.
     field dec_str ''inbound_id'' (cr_InboundID c) ms (\<lambda>i.
     field dec_str ''expires_at'' (cr_ExpiresAt c) ms (\<lambda>x.
     field dec_bool ''enabled'' (cr_Enabled c) ms (\<lambda>e.
       Some \<lparr>cr_ID = cr_ID c, cr_Email = b, cr_InboundID = i, cr_ExpiresAt = x, cr_Enabled = e\<rparr>))))"

definition handleClients :: "penv \<Rightarrow> request \<Rightarrow> PanelServer \<Rightarrow> response \<times> PanelServer" where
  "handleClients env r s =
     (if req_Method r = ''GET'' then (ok_response (BClients (Clients (Snapshot (ps_store s)))), s)
      else if req_Method r = ''POST''
      then (case decode_body client_req_decode zero_client_req r of
        None \<Rightarrow> (http_Error ''bad json'' 400, s)
      | Some req \<Rightarrow>
        if cr_Email req = [] \<or> cr_InboundID req = []
        then (http_Error ''email and inbound_id are required'' 400, s)
        else (case parse_rfc3339 False (cr_ExpiresAt req) of
          None \<Rightarrow> (http_Error ''expires_at must be RFC3339'' 400, s)
        | Some expiresAt \<Rightarrow>
          let cl = \<lparr>cl_ID = cr_ID req, cl_Email = cr_Email req, cl_InboundID = cr_InboundID req,
                    cl_ExpiresAt = UTC (fst expiresAt), cl_Enabled = cr_Enabled req, cl_CreatedAt = UTC (p_now env)\<rparr>;
              cl = (if cl_ID cl = [] then cl\<lparr>cl_ID := newID ''cl'' (p_now env)\<rparr> else cl)
          in after_save (UpsertClient (p_save env) cl (ps_store s)) (BClient cl) s))
      else (method_not_allowed, s))"

definition handleClientByID :: "penv \<Rightarrow> request \<Rightarrow> PanelServer \<Rightarrow> response \<times> PanelServer" where
  "handleClientByID env r s =
     (let i = trim_prefix ''/api/clients/'' (req_Path r) in
      if i = [] then (http_Error ''404 page not found'' 404, s)
      else if req_Method r = ''PUT''
      then (case decode_body client_put_decode zero_client_req r of
        None \<Rightarrow> (http_Error ''bad json'' 400, s)
      | Some req \<Rightarrow>
        (case parse_rfc3339 False (cr_ExpiresAt req) of
          None \<Rightarrow> (http_Error ''expires_at must be RFC3339'' 400, s)
        | Some expiresAt \<Rightarrow>
          let cl = \<lparr>cl_ID = i, cl_Email = cr_Email req, cl_InboundID = cr_InboundID req,
                    cl_ExpiresAt = UTC (fst expiresAt), cl_Enabled = cr_Enabled req, cl_CreatedAt = UTC (p_now env)\<rparr>
          in if cl_Email cl = [] \<or> cl_InboundID cl = []
             then (http_Error ''email and inbound_id are required'' 400, s)
             else after_save (UpsertClient (p_save env) cl (ps_store s)) (BClient cl) s))
      else if req_Method r = ''DELETE''
      then after_save (DeleteClient (p_save env) i (ps_store s)) (BStatus ''deleted'') s
      else (method_not_allowed, s))"

definition handleService :: "penv \<Rightarrow> request \<Rightarrow> PanelServer \<Rightarrow> response \<times> PanelServer" where
  "handleService env r s =
     (if req_Method r \<noteq> ''POST'' then (method_not_allowed, s)
      else if \<not> pc_EnableServiceOp (ps_cfg s) then (http_Error ''service operations disabled'' 403, s)
      else let action = trim_prefix ''/api/service/'' (req_Path r) in
      if action \<in> {''start'', ''stop'', ''restart'', ''status''}
      then (case p_exec env action (pc_ServiceName (ps_cfg s)) of
              (out, err) \<Rightarrow> (ok_response (BService action (pc_ServiceName (ps_cfg s)) out err), s))
      else (http_Error ''unknown action'' 400, s))"

definition tailFile :: "string \<Rightarrow> bytes option \<Rightarrow> nat \<Rightarrow> bytes result" where
  "tailFile path file maxLines =
     (if path = [] then Inl (EMsg ''server_log_path is empty'')
      else (case file of
        None \<Rightarrow> Inl EOs
      | Some b \<Rightarrow>
        let lines = split_at 10 b
        in if length lines \<le> maxLines then Inr b
           else Inr (join_with 10 (drop (length lines - maxLines) lines))))"

definition log_lines :: "string \<Rightarrow> nat" where
  "log_lines q =
     (if q = [] then 200
      else (case parse_int q of
        None \<Rightarrow> 200
      | Some n \<Rightarrow> (if in_int64 n \<and> n > 0 \<and> n \<le> 2000 then nat n else 200)))"

definition handleLogs :: "penv \<Rightarrow> request \<Rightarrow> PanelServer \<Rightarrow> response \<times> PanelServer" where
  "handleLogs env r s =
     (if req_Method r \<noteq> ''GET'' then (method_not_allowed, s)
      else (case tailFile (pc_ServerLogPath (ps_cfg s)) (p_log env) (log_lines (req_Lines r)) of
        Inl e \<Rightarrow> (http_Error ''log error'' 500, s)
      | Inr text' \<Rightarrow> (ok_response (BText (str_of_bytes text')), s)))"

definition handleSettings :: "penv \<Rightarrow> request \<Rightarrow> PanelServer \<Rightarrow> response \<times> PanelServer" where
  "handleSettings env r s =
     (if req_Method r = ''GET'' then (ok_response (BSettings (state_Settings (Snapshot (ps_store s)))), s)
      else if req_Method r = ''PUT''
      then (case decode_body Settings_decode zero_Settings r of
        None \<Rightarrow> (http_Error ''bad json'' 400, s)
      | Some req \<Rightarrow> after_save (UpdateSettings (p_save env) req (ps_store s)) (BSettings req) s)
      else (method_not_allowed, s))"

definition handleSettingsReset :: "penv \<Rightarrow> request \<Rightarrow> PanelServer \<Rightarrow> response \<times> PanelServer" where
  "handleSettingsReset env r s =
     (if req_Method r \<noteq> ''POST'' then (method_not_allowed, s)
      else after_save (UpdateSettings (p_save env) DefaultSettings (ps_store s)) (BSettings DefaultSettings) s)"

text \<open>
  The front end. \<open>ServeFile\<close> rejects a path with a \<open>..\<close> element, answers a path that ends in
  \<open>/index.html\<close> with a redirect to its directory, and serves the file otherwise.
\<close>

definition ServeFile :: "penv \<Rightarrow> request \<Rightarrow> string \<Rightarrow> response" where
  "ServeFile env r name =
     (if containsDotDot (req_Path r) then http_Error ''invalid URL path'' 400
      else if has_suffix ''/index.html'' (req_Path r)
      then \<lparr>status = 301, rbody = BRedirect ''./'', set_cookie = None\<rparr>
      else if p_stat env name = None then http_Error ''404 page not found'' 404
      else ok_response (BFile name))"

definition findFrontendRoot :: "(string \<Rightarrow> bool option) \<Rightarrow> string option" where
  "findFrontendRoot stat =
     List.find (\<lambda>root. stat (path_Join root ''index.html'') = Some False) [''web-ui/dist'', ''web'']"

definition handleSPA :: "penv \<Rightarrow> request \<Rightarrow> PanelServer \<Rightarrow> response \<times> PanelServer" where
  "handleSPA env r s =
     (if take 5 (req_Path r) = ''/api/'' then (http_Error ''404 page not found'' 404, s)
      else (case findFrontendRoot (p_stat env) of
        None \<Rightarrow> (http_Error ''frontend build not found'' 503, s)
      | Some frontendRoot \<Rightarrow>
        let cleaned = path_Clean (trim_prefix ''/'' (req_Path r))
        in if cleaned = ''.'' \<or> cleaned = [] then (ServeFile env r (path_Join frontendRoot ''index.html''), s)
           else let target = path_Join frontendRoot cleaned
                in if p_stat env target = Some False then (ServeFile env r target, s)
                   else (ServeFile env r (path_Join frontendRoot ''index.html''), s)))"

definition authOnly ::
  "(request \<Rightarrow> PanelServer \<Rightarrow> response \<times> PanelServer) \<Rightarrow> penv \<Rightarrow> request \<Rightarrow> PanelServer \<Rightarrow> response \<times> PanelServer" where
  "authOnly h env r s =
     (let token = readSessionToken r
      in if token = [] then (http_Error ''unauthorized'' 401, s)
         else (case Validate (p_now env) token (ps_auth s) of
           (v, a) \<Rightarrow> (if \<not> v then (http_Error ''unauthorized'' 401, s\<lparr>ps_auth := a\<rparr>)
                     else h r (s\<lparr>ps_auth := a\<rparr>))))"

subsection \<open>The routes of Run\<close>

text \<open>
  The multiplexer matches the path as sent, segment by segment and each decoded; it redirects a
  path that is not clean, and the one registered subtree whose root has no handler of its own.
\<close>

definition path_segments :: "string \<Rightarrow> string list" where
  "path_segments p = map path_unescape (tl (split_at CHR ''/'' p))"

definition exact_patterns :: "string list" where
  "exact_patterns = [''/api/session'', ''/api/login'', ''/api/logout'', ''/api/me'', ''/api/stats'', ''/api/inbounds'',
     ''/api/clients'', ''/api/settings'', ''/api/settings/reset'', ''/api/logs'']"

definition subtree_patterns :: "string list" where
  "subtree_patterns = [''/api/inbounds/'', ''/api/clients/'', ''/api/service/'']"

definition mux_match :: "string list \<Rightarrow> string" where
  "mux_match segs =
     (case List.find (\<lambda>p. path_segments p = segs) exact_patterns of
        Some p \<Rightarrow> p
      | None \<Rightarrow>
        (case List.find (\<lambda>p. length (path_segments p) \<le> length segs
                 \<and> take (length (path_segments p) - 1) segs = butlast (path_segments p)) subtree_patterns of
           Some p \<Rightarrow> p
         | None \<Rightarrow> ''/''))"

datatype routed = Redirected string | Matched string

definition mux_handler :: "request \<Rightarrow> routed" where
  "mux_handler r =
     (let path = (if req_Method r = ''CONNECT'' then req_EscapedPath r else cleanPath (req_EscapedPath r)) in
      if path_segments path = [''api'', ''service''] then Redirected (cleanPath (req_Path r) @ ''/'')
      else if path \<noteq> req_EscapedPath r then Redirected path
      else Matched (mux_match (path_segments path)))"

definition dispatch :: "string \<Rightarrow> penv \<Rightarrow> request \<Rightarrow> PanelServer \<Rightarrow> response \<times> PanelServer" where
  "dispatch pattern' env r s =
     (if pattern' = ''/api/session'' then handleSession env r s
      else if pattern' = ''/api/login'' then handleLogin env r s
      else if pattern' = ''/api/logout'' then authOnly (handleLogout env) env r s
      else if pattern' = ''/api/me'' then authOnly handleMe env r s
      else if pattern' = ''/api/stats'' then authOnly (handleStats env) env r s
      else if pattern' = ''/api/inbounds'' then authOnly (handleInbounds env) env r s
      else if pattern' = ''/api/inbounds/'' then authOnly (handleInboundByID env) env r s
      else if pattern' = ''/api/clients'' then authOnly (handleClients env) env r s
      else if pattern' = ''/api/clients/'' then authOnly (handleClientByID env) env r s
      else if pattern' = ''/api/settings'' then authOnly (handleSettings env) env r s
      else if pattern' = ''/api/settings/reset'' then authOnly (handleSettingsReset env) env r s
      else if pattern' = ''/api/service/'' then authOnly (handleService env) env r s
      else if pattern' = ''/api/logs'' then authOnly (handleLogs env) env r s
      else handleSPA env r s)"

definition route :: "penv \<Rightarrow> request \<Rightarrow> PanelServer \<Rightarrow> response \<times> PanelServer" where
  "route env r s =
     (case mux_handler r of
        Redirected loc \<Rightarrow> (\<lparr>status = 301, rbody = BRedirect loc, set_cookie = None\<rparr>, s)
      | Matched pattern' \<Rightarrow> dispatch pattern' env r s)"

definition serve :: "penv \<Rightarrow> request \<Rightarrow> PanelServer \<Rightarrow> response \<times> PanelServer" where
  "serve env r s = route env r (s\<lparr>reqCount := reqCount s + 1\<rparr>)"

subsection \<open>Tokens\<close>

lemma Login_ok_iff:
  "snd (fst (Login d now user password a)) \<longleftrightarrow>
     user = am_user a \<and> hexEncodeToString (sha256 (bytes_of_str password)) = passwordHash a \<and> draw_ok d"
  by (auto simp: Login_def read_full_def Let_def split: sum.splits)

lemma Login_token:
  assumes "Login d now user password a = ((tok, True), a')"
  shows "length tok = 48" "fst (Validate t tok a') \<longleftrightarrow> t \<le> now + day"
proof -
  obtain token where t: "read_full d 24 = Inr token" "tok = hexEncodeToString token"
    "a' = a\<lparr>sessions := (sessions a)(tok \<mapsto> \<lparr>si_User = user, si_ExpiresAt = now + day\<rparr>)\<rparr>"
    using assms by (auto simp: Login_def Let_def split: if_splits sum.splits)
  show "length tok = 48" using read_full_length [OF t(1)] t(2) by (simp add: length_hexEncode)
  show "fst (Validate t tok a') \<longleftrightarrow> t \<le> now + day" by (simp add: Validate_def t(3))
qed

lemma Validate_Logout: "\<not> fst (Validate t tok (Logout tok a))"
  by (simp add: Validate_def Logout_def)

lemma Validate_sel [simp]:
  "am_user (snd (Validate t tok a)) = am_user a" "passwordHash (snd (Validate t tok a)) = passwordHash a"
  by (simp_all add: Validate_def split: option.splits)

lemma Login_sel [simp]:
  "am_user (snd (Login d t u p a)) = am_user a" "passwordHash (snd (Login d t u p a)) = passwordHash a"
  by (simp_all add: Login_def Let_def split: sum.splits)

lemma Validate_dom: "dom (sessions (snd (Validate t tok a))) \<subseteq> dom (sessions a)"
  by (auto simp: Validate_def split: option.splits if_splits)

text \<open>A token stays dead once its time has passed: validating never revives one.\<close>

lemma Validate_dead: "\<not> fst (Validate t tok a) \<Longrightarrow> \<not> fst (Validate t' tok (snd (Validate t tok a)))"
  by (auto simp: Validate_def split: option.splits if_splits)

subsection \<open>What a handler can change\<close>

lemma after_save_sel [simp]:
  "ps_cfg (snd (after_save r b s)) = ps_cfg s" "ps_auth (snd (after_save r b s)) = ps_auth s"
  "ps_store (snd (after_save r b s)) = snd r" "started (snd (after_save r b s)) = started s"
  by (cases r; cases "fst r"; simp add: after_save_def)+

lemmas guarded_defs = handleMe_def handleStats_def handleInbounds_def handleInboundByID_def
  handleClients_def handleClientByID_def handleService_def handleLogs_def handleSettings_def
  handleSettingsReset_def

lemma guarded_auth [simp]:
  "ps_auth (snd (handleMe r s)) = ps_auth s" "ps_auth (snd (handleStats env r s)) = ps_auth s"
  "ps_auth (snd (handleInbounds env r s)) = ps_auth s" "ps_auth (snd (handleInboundByID env r s)) = ps_auth s"
  "ps_auth (snd (handleClients env r s)) = ps_auth s" "ps_auth (snd (handleClientByID env r s)) = ps_auth s"
  "ps_auth (snd (handleService env r s)) = ps_auth s" "ps_auth (snd (handleLogs env r s)) = ps_auth s"
  "ps_auth (snd (handleSettings env r s)) = ps_auth s" "ps_auth (snd (handleSettingsReset env r s)) = ps_auth s"
  by (simp_all add: guarded_defs Let_def split_beta split: option.splits sum.splits)

lemma guarded_cfg [simp]:
  "ps_cfg (snd (handleMe r s)) = ps_cfg s" "ps_cfg (snd (handleStats env r s)) = ps_cfg s"
  "ps_cfg (snd (handleInbounds env r s)) = ps_cfg s" "ps_cfg (snd (handleInboundByID env r s)) = ps_cfg s"
  "ps_cfg (snd (handleClients env r s)) = ps_cfg s" "ps_cfg (snd (handleClientByID env r s)) = ps_cfg s"
  "ps_cfg (snd (handleService env r s)) = ps_cfg s" "ps_cfg (snd (handleLogs env r s)) = ps_cfg s"
  "ps_cfg (snd (handleSettings env r s)) = ps_cfg s" "ps_cfg (snd (handleSettingsReset env r s)) = ps_cfg s"
  by (simp_all add: guarded_defs Let_def split_beta split: option.splits sum.splits)

text \<open>The store after a guarded handler: the same, or the result of one operation.\<close>

definition store_reach :: "Store \<Rightarrow> Store \<Rightarrow> bool" where
  "store_reach st st' \<longleftrightarrow> st' = st \<or> (\<exists>e. st' = store_step e st)"

lemma store_reach_refl [simp]: "store_reach st st"
  by (simp add: store_reach_def)

lemma store_reach_ops [simp]:
  "store_reach st (snd (UpsertInbound ok x st))" "store_reach st (snd (DeleteInbound ok i st))"
  "store_reach st (snd (UpsertClient ok c st))" "store_reach st (snd (DeleteClient ok i st))"
  "store_reach st (snd (UpdateSettings ok z st))"
  by (metis store_reach_def store_step.simps)+

lemma guarded_store [simp]:
  "store_reach (ps_store s) (ps_store (snd (handleMe r s)))"
  "store_reach (ps_store s) (ps_store (snd (handleStats env r s)))"
  "store_reach (ps_store s) (ps_store (snd (handleInbounds env r s)))"
  "store_reach (ps_store s) (ps_store (snd (handleInboundByID env r s)))"
  "store_reach (ps_store s) (ps_store (snd (handleClients env r s)))"
  "store_reach (ps_store s) (ps_store (snd (handleClientByID env r s)))"
  "store_reach (ps_store s) (ps_store (snd (handleService env r s)))"
  "store_reach (ps_store s) (ps_store (snd (handleLogs env r s)))"
  "store_reach (ps_store s) (ps_store (snd (handleSettings env r s)))"
  "store_reach (ps_store s) (ps_store (snd (handleSettingsReset env r s)))"
  by (simp_all add: guarded_defs Let_def split_beta split: option.splits sum.splits)

lemma store_inv_reach: "store_inv st \<Longrightarrow> store_reach st st' \<Longrightarrow> store_inv st'"
  using store_inv_step by (auto simp: store_reach_def)

subsection \<open>Access control\<close>

text \<open>A guarded handler touches neither logins nor configuration, and the store by one operation.\<close>

definition well_behaved :: "(request \<Rightarrow> PanelServer \<Rightarrow> response \<times> PanelServer) \<Rightarrow> bool" where
  "well_behaved h \<longleftrightarrow> (\<forall>r s. ps_cfg (snd (h r s)) = ps_cfg s \<and> am_user (ps_auth (snd (h r s))) = am_user (ps_auth s)
     \<and> passwordHash (ps_auth (snd (h r s))) = passwordHash (ps_auth s)
     \<and> dom (sessions (ps_auth (snd (h r s)))) \<subseteq> dom (sessions (ps_auth s))
     \<and> store_reach (ps_store s) (ps_store (snd (h r s))))"

lemma handleLogout_sel [simp]:
  "ps_cfg (snd (handleLogout env r s)) = ps_cfg s" "ps_store (snd (handleLogout env r s)) = ps_store s"
  "am_user (ps_auth (snd (handleLogout env r s))) = am_user (ps_auth s)"
  "passwordHash (ps_auth (snd (handleLogout env r s))) = passwordHash (ps_auth s)"
  "dom (sessions (ps_auth (snd (handleLogout env r s)))) \<subseteq> dom (sessions (ps_auth s))"
  by (auto simp: handleLogout_def Let_def Logout_def split: if_splits)

lemma well_behaved_handlers [simp]:
  "well_behaved (handleLogout env)" "well_behaved handleMe" "well_behaved (handleStats env)"
  "well_behaved (handleInbounds env)" "well_behaved (handleInboundByID env)" "well_behaved (handleClients env)"
  "well_behaved (handleClientByID env)" "well_behaved (handleService env)" "well_behaved (handleLogs env)"
  "well_behaved (handleSettings env)" "well_behaved (handleSettingsReset env)"
  by (simp_all add: well_behaved_def)

definition authorized :: "penv \<Rightarrow> request \<Rightarrow> PanelServer \<Rightarrow> bool" where
  "authorized env r s \<longleftrightarrow> readSessionToken r \<noteq> [] \<and> fst (Validate (p_now env) (readSessionToken r) (ps_auth s))"

text \<open>The routes outside \<open>authOnly\<close>: session, login, the front end and redirects.\<close>

definition public_request :: "request \<Rightarrow> bool" where
  "public_request r \<longleftrightarrow>
     (case mux_handler r of Redirected _ \<Rightarrow> True | Matched p \<Rightarrow> p \<in> {''/api/session'', ''/api/login'', ''/''})"

lemma authOnly_denied:
  "\<not> authorized env r s \<Longrightarrow> status (fst (authOnly h env r s)) = 401 \<and> ps_store (snd (authOnly h env r s)) = ps_store s"
  by (auto simp: authOnly_def authorized_def Let_def split_beta http_Error_def)

lemma authOnly_state:
  "snd (authOnly h env r s) = s
   \<or> snd (authOnly h env r s) = s\<lparr>ps_auth := snd (Validate (p_now env) (readSessionToken r) (ps_auth s))\<rparr>
   \<or> snd (authOnly h env r s)
       = snd (h r (s\<lparr>ps_auth := snd (Validate (p_now env) (readSessionToken r) (ps_auth s))\<rparr>))"
  by (simp add: authOnly_def Let_def split_beta)

lemma authOnly_effects:
  assumes "well_behaved h"
  shows "ps_cfg (snd (authOnly h env r s)) = ps_cfg s"
    "am_user (ps_auth (snd (authOnly h env r s))) = am_user (ps_auth s)"
    "passwordHash (ps_auth (snd (authOnly h env r s))) = passwordHash (ps_auth s)"
    "dom (sessions (ps_auth (snd (authOnly h env r s)))) \<subseteq> dom (sessions (ps_auth s))"
    "store_reach (ps_store s) (ps_store (snd (authOnly h env r s)))"
proof -
  define t where "t = s\<lparr>ps_auth := snd (Validate (p_now env) (readSessionToken r) (ps_auth s))\<rparr>"
  have t: "ps_cfg t = ps_cfg s" "am_user (ps_auth t) = am_user (ps_auth s)"
    "passwordHash (ps_auth t) = passwordHash (ps_auth s)" "dom (sessions (ps_auth t)) \<subseteq> dom (sessions (ps_auth s))"
    "ps_store t = ps_store s"
    using Validate_dom by (simp_all add: t_def)
  have h: "ps_cfg (snd (h r t)) = ps_cfg t" "am_user (ps_auth (snd (h r t))) = am_user (ps_auth t)"
    "passwordHash (ps_auth (snd (h r t))) = passwordHash (ps_auth t)"
    "dom (sessions (ps_auth (snd (h r t)))) \<subseteq> dom (sessions (ps_auth t))"
    "store_reach (ps_store t) (ps_store (snd (h r t)))"
    using assms unfolding well_behaved_def by blast+
  have dom: "dom (sessions (ps_auth (snd (h r t)))) \<subseteq> dom (sessions (ps_auth s))"
    using h(4) t(4) by (rule subset_trans)
  consider "snd (authOnly h env r s) = s" | "snd (authOnly h env r s) = t" | "snd (authOnly h env r s) = snd (h r t)"
    using authOnly_state [of h env r s, folded t_def] by blast
  note c = this
  show "ps_cfg (snd (authOnly h env r s)) = ps_cfg s" by (rule c) (simp_all add: t h)
  show "am_user (ps_auth (snd (authOnly h env r s))) = am_user (ps_auth s)" by (rule c) (simp_all add: t h)
  show "passwordHash (ps_auth (snd (authOnly h env r s))) = passwordHash (ps_auth s)" by (rule c) (simp_all add: t h)
  show "dom (sessions (ps_auth (snd (authOnly h env r s)))) \<subseteq> dom (sessions (ps_auth s))"
    by (rule c) (simp_all only: t(4) dom subset_refl)
  show "store_reach (ps_store s) (ps_store (snd (authOnly h env r s)))"
    by (rule c) (use h(5) t(5) in simp_all)
qed

subsection \<open>The log tail\<close>

text \<open>The answer is the end of the file, and its lines are the last lines of the file.\<close>

lemma tailFile_lines:
  assumes "tailFile path (Some b) n = Inr t" "0 < n"
  shows "split_at 10 t = drop (length (split_at 10 b) - n) (split_at 10 b)" "\<exists>pre. b = pre @ t"
proof -
  define ls where "ls = split_at 10 b"
  have t: "t = (if length ls \<le> n then b else join_with 10 (drop (length ls - n) ls))"
    using assms(1) by (auto simp: tailFile_def ls_def Let_def split: if_splits)
  have clean: "l \<in> set (drop k ls) \<Longrightarrow> 10 \<notin> set l" for l k
    using split_at_clean [of l 10 b] in_set_dropD by (fastforce simp: ls_def)
  show "split_at 10 t = drop (length (split_at 10 b) - n) (split_at 10 b)"
  proof (cases "length ls \<le> n")
    case False
    then have "drop (length ls - n) ls \<noteq> []" using assms(2) by simp
    from split_join [OF this clean] show ?thesis using t False by (simp add: ls_def)
  qed (use t in \<open>simp add: ls_def\<close>)
  show "\<exists>pre. b = pre @ t"
  proof (cases "length ls \<le> n")
    case False
    then have "length ls - n < length ls" using assms(2) by simp
    from join_with_suffix [OF this, of 10] show ?thesis using t False join_split [of 10 b] by (simp add: ls_def)
  qed (use t in simp)
qed

lemma log_lines_range: "0 < log_lines q \<and> log_lines q \<le> 2000"
  by (auto simp: log_lines_def split: option.splits)

end
