(* ===== verification/PanelRuns.thy ===== *)
theory PanelRuns
  imports PanelServer
begin

text \<open>
  The panel as a whole: any sequence of requests. A guarded route answers nothing but 401 and
  changes nothing without a live token, every live token was handed to a login with the
  configured credentials, and the store keeps its invariant.
\<close>

lemma findSomeD: "List.find P xs = Some x \<Longrightarrow> x \<in> set xs \<and> P x"
  by (auto simp: find_Some_iff)

lemma handleSPA_state: "snd (handleSPA env r s) = s"
  by (simp add: handleSPA_def Let_def split: option.splits)

lemma mux_match_range: "mux_match segs \<in> set (exact_patterns @ subtree_patterns @ [''/''])"
  by (auto simp: mux_match_def split: option.splits dest: findSomeD)

lemma dispatch_guarded:
  assumes "p \<in> set (exact_patterns @ subtree_patterns)" "p \<notin> {''/api/session'', ''/api/login''}"
  shows "\<exists>h. well_behaved h \<and> (\<forall>s. dispatch p env r s = authOnly h env r s)"
proof -
  have "p \<in> {''/api/logout'', ''/api/me'', ''/api/stats'', ''/api/inbounds'', ''/api/inbounds/'', ''/api/clients'',
      ''/api/clients/'', ''/api/settings'', ''/api/settings/reset'', ''/api/service/'', ''/api/logs''}"
    using assms by (auto simp: exact_patterns_def subtree_patterns_def)
  then show ?thesis
    by (elim insertE emptyE; simp add: dispatch_def) (metis well_behaved_handlers)+
qed

lemma route_cases:
  obtains (Session) "mux_handler r = Matched ''/api/session''" "route env r s = handleSession env r s"
  | (Login) "mux_handler r = Matched ''/api/login''" "route env r s = handleLogin env r s"
  | (Rest) resp where "public_request r" "route env r s = (resp, s)"
  | (Guarded) h where "\<not> public_request r" "well_behaved h" "\<And>s. route env r s = authOnly h env r s"
proof (cases "mux_handler r")
  case (Redirected loc)
  then show thesis using Rest by (simp add: route_def public_request_def)
next
  case (Matched p)
  have "p \<in> set (exact_patterns @ subtree_patterns @ [''/''])"
    using Matched mux_match_range by (auto simp: mux_handler_def Let_def split: if_splits)
  then have "p \<in> set (exact_patterns @ subtree_patterns) \<or> p = ''/''" by auto
  then consider "p = ''/api/session''" | "p = ''/api/login''" | "p = ''/''"
    | "p \<in> set (exact_patterns @ subtree_patterns)" "p \<notin> {''/api/session'', ''/api/login'', ''/''}"
    by blast
  then show thesis
  proof cases
    case 1
    then show thesis using Matched Session by (simp add: route_def dispatch_def)
  next
    case 2
    then show thesis using Matched Login by (simp add: route_def dispatch_def)
  next
    case 3
    then have "route env r s = (fst (handleSPA env r s), s)"
      using Matched handleSPA_state [of env r s] by (simp add: route_def dispatch_def prod_eq_iff)
    then show thesis using Rest 3 Matched by (simp add: public_request_def)
  next
    case 4
    then obtain h where h: "well_behaved h" "\<And>s. dispatch p env r s = authOnly h env r s"
      using dispatch_guarded [of p env r] by auto
    show thesis
      by (rule Guarded [OF _ h(1)]) (use 4 Matched h(2) in \<open>simp_all add: public_request_def route_def\<close>)
  qed
qed

definition counted :: "PanelServer \<Rightarrow> PanelServer" where
  "counted s = s\<lparr>reqCount := reqCount s + 1\<rparr>"

lemma counted_sel [simp]:
  "ps_cfg (counted s) = ps_cfg s" "ps_store (counted s) = ps_store s" "ps_auth (counted s) = ps_auth s"
  "authorized env r (counted s) = authorized env r s"
  by (simp_all add: counted_def authorized_def)

lemma serve_counted: "serve env r s = route env r (counted s)"
  by (simp add: serve_def counted_def)

lemma handleSession_sel [simp]:
  "ps_cfg (snd (handleSession env r s)) = ps_cfg s" "ps_store (snd (handleSession env r s)) = ps_store s"
  "am_user (ps_auth (snd (handleSession env r s))) = am_user (ps_auth s)"
  "passwordHash (ps_auth (snd (handleSession env r s))) = passwordHash (ps_auth s)"
  "dom (sessions (ps_auth (snd (handleSession env r s)))) \<subseteq> dom (sessions (ps_auth s))"
proof -
  have a: "ps_auth (snd (handleSession env r s)) = ps_auth s
      \<or> ps_auth (snd (handleSession env r s)) = snd (Validate (p_now env) (readSessionToken r) (ps_auth s))"
    by (simp add: handleSession_def Let_def split_beta)
  then show "am_user (ps_auth (snd (handleSession env r s))) = am_user (ps_auth s)"
    "passwordHash (ps_auth (snd (handleSession env r s))) = passwordHash (ps_auth s)" by auto
  show "dom (sessions (ps_auth (snd (handleSession env r s)))) \<subseteq> dom (sessions (ps_auth s))"
    using a by (elim disjE) (simp_all only: Validate_dom subset_refl)
qed (simp_all add: handleSession_def Let_def split_beta)

text \<open>A request that logs in: the credentials match and the token is set as the cookie.\<close>

definition login_grants :: "penv \<times> request \<Rightarrow> PanelServer \<Rightarrow> string \<Rightarrow> bool" where
  "login_grants e s tok \<longleftrightarrow>
     mux_handler (snd e) = Matched ''/api/login'' \<and> req_Method (snd e) = ''POST'' \<and>
     (\<exists>user password. decode_body (\<lambda>_. str_members [''username'', ''password'']) [] (snd e) = Some [user, password]
        \<and> user = am_user (ps_auth s)
        \<and> hexEncodeToString (sha256 (bytes_of_str password)) = passwordHash (ps_auth s)
        \<and> read_full (p_draw (fst e)) 24 \<noteq> Inl ERand
        \<and> set_cookie (fst (serve (fst e) (snd e) s)) = Some (tok, 86400))"

lemma handleLogin_sel [simp]:
  "ps_cfg (snd (handleLogin env r s)) = ps_cfg s" "ps_store (snd (handleLogin env r s)) = ps_store s"
  "am_user (ps_auth (snd (handleLogin env r s))) = am_user (ps_auth s)"
  "passwordHash (ps_auth (snd (handleLogin env r s))) = passwordHash (ps_auth s)"
  by (simp_all add: handleLogin_def split_beta split: option.splits list.splits)

lemma handleLogin_tokens:
  assumes "tok \<in> dom (sessions (ps_auth (snd (handleLogin env r (counted s)))))" "mux_handler r = Matched ''/api/login''"
  shows "tok \<in> dom (sessions (ps_auth s)) \<or> login_grants (env, r) s tok"
proof (rule ccontr)
  assume n: "\<not> ?thesis"
  then have ne: "sessions (ps_auth (snd (handleLogin env r (counted s)))) \<noteq> sessions (ps_auth s)"
    using assms(1) by auto
  then obtain user password where b: "decode_body (\<lambda>_. str_members [''username'', ''password'']) [] r = Some [user, password]"
    and m: "req_Method r = ''POST''"
    by (auto simp: handleLogin_def split: option.splits list.splits if_splits)
  have s: "serve env r s = handleLogin env r (counted s)"
    by (simp add: serve_counted route_def dispatch_def assms(2))
  from ne b m obtain token where t: "read_full (p_draw env) 24 = Inr token" "user = am_user (ps_auth s)"
    "hexEncodeToString (sha256 (bytes_of_str password)) = passwordHash (ps_auth s)"
    by (auto simp: handleLogin_def Login_def split: if_splits sum.splits)
  have "tok = hexEncodeToString token" "set_cookie (fst (serve env r s)) = Some (hexEncodeToString token, 86400)"
    using assms(1) n b m t by (auto simp: s handleLogin_def Login_def Let_def)
  then show False using n b m t assms(2) by (auto simp: login_grants_def)
qed

definition panel_step :: "penv \<times> request \<Rightarrow> PanelServer \<Rightarrow> PanelServer" where
  "panel_step e s = snd (serve (fst e) (snd e) s)"

definition panel_init :: "PanelServer \<Rightarrow> bool" where
  "panel_init s \<longleftrightarrow> (\<exists>now fl ok c. New_panel now fl ok c = Inr s) \<and> ids_ok (st_state (ps_store s))"

lemma panel_init_no_sessions:
  assumes "panel_init s"
  shows "sessions (ps_auth s) = (\<lambda>_. None)"
proof -
  obtain now fl ok c where "New_panel now fl ok c = Inr s"
    using assms unfolding panel_init_def by blast
  then show ?thesis by (cases "NewStore fl ok") (auto simp: New_panel_def newAuthManager_def)
qed

definition panel_inv :: "PanelServer \<Rightarrow> bool" where
  "panel_inv s \<longleftrightarrow> store_inv (ps_store s) \<and> am_user (ps_auth s) = pc_AdminUser (ps_cfg s)
     \<and> passwordHash (ps_auth s) = hexEncodeToString (sha256 (bytes_of_str (pc_AdminPassword (ps_cfg s))))"

lemma route_effects:
  "ps_cfg (snd (route env r s)) = ps_cfg s" "am_user (ps_auth (snd (route env r s))) = am_user (ps_auth s)"
  "passwordHash (ps_auth (snd (route env r s))) = passwordHash (ps_auth s)"
  "store_reach (ps_store s) (ps_store (snd (route env r s)))"
  by (rule route_cases [where r = r and env = env and s = s]; simp add: authOnly_effects)+

lemma panel_inv_step: "panel_inv s \<Longrightarrow> panel_inv (panel_step e s)"
  using route_effects [where env = "fst e" and r = "snd e" and s = "counted s"]
  by (auto simp: panel_inv_def panel_step_def serve_counted intro: store_inv_reach)

lemma panel_tokens:
  assumes "tok \<in> dom (sessions (ps_auth (panel_step e s)))"
  shows "tok \<in> dom (sessions (ps_auth s)) \<or> login_grants e s tok"
proof (rule route_cases [where r = "snd e" and env = "fst e" and s = "counted s"])
  assume "mux_handler (snd e) = Matched ''/api/session''" "route (fst e) (snd e) (counted s) = handleSession (fst e) (snd e) (counted s)"
  then show ?thesis using assms handleSession_sel(5) [of "fst e" "snd e" "counted s"]
    by (auto simp: panel_step_def serve_counted)
next
  assume "mux_handler (snd e) = Matched ''/api/login''" "route (fst e) (snd e) (counted s) = handleLogin (fst e) (snd e) (counted s)"
  then show ?thesis using assms handleLogin_tokens [of tok "fst e" "snd e" s]
    by (simp add: panel_step_def serve_counted)
next
  fix resp assume "public_request (snd e)" "route (fst e) (snd e) (counted s) = (resp, counted s)"
  then show ?thesis using assms by (simp add: panel_step_def serve_counted)
next
  fix h assume "\<not> public_request (snd e)" "well_behaved h"
    "\<And>s. route (fst e) (snd e) s = authOnly h (fst e) (snd e) s"
  then show ?thesis using assms authOnly_effects(4) [of h "fst e" "snd e" "counted s"]
    by (auto simp: panel_step_def serve_counted)
qed

interpretation panel: sourced_system panel_init panel_step panel_inv "\<lambda>s. dom (sessions (ps_auth s))" login_grants
proof unfold_locales
  show "panel_inv s" if init: "panel_init s" for s
  proof -
    obtain now fl ok c where n: "New_panel now fl ok c = Inr s" and ids: "ids_ok (st_state (ps_store s))"
      using init by (auto simp: panel_init_def)
    then obtain st where "NewStore fl ok = Inr st" "ps_store s = st" "ps_cfg s = c"
      "ps_auth s = newAuthManager (pc_AdminUser c) (pc_AdminPassword c)"
      by (cases "NewStore fl ok") (auto simp: New_panel_def)
    then show ?thesis
      using ids NewStore_settings by (simp add: panel_inv_def store_inv_def newAuthManager_def)
  qed
qed (simp_all add: panel_inv_step panel_tokens)

text \<open>Without a live token a guarded route answers 401 and the store is untouched.\<close>

lemma guarded_denied:
  assumes "\<not> public_request r" "\<not> authorized env r s"
  shows "status (fst (serve env r s)) = 401" "ps_store (snd (serve env r s)) = ps_store s"
proof -
  obtain h where "\<And>s. route env r s = authOnly h env r s"
    using assms(1) by (rule_tac route_cases [where r = r and env = env and s = s]) (auto simp: public_request_def)
  then show "status (fst (serve env r s)) = 401" "ps_store (snd (serve env r s)) = ps_store s"
    using authOnly_denied [of env r "counted s" h] assms(2) by (simp_all add: serve_counted)
qed

lemma store_change_authorized:
  assumes "ps_store (snd (serve env r s)) \<noteq> ps_store s"
  shows "authorized env r s" "readSessionToken r \<in> dom (sessions (ps_auth s))"
proof -
  have "\<not> public_request r"
  proof
    assume "public_request r"
    then have "ps_store (snd (route env r (counted s))) = ps_store s" for s
      by (rule_tac route_cases [where r = r and env = env and s = "counted s"]) simp_all
    then show False using assms by (simp add: serve_counted)
  qed
  then show "authorized env r s" using guarded_denied(2) assms by blast
  then show "readSessionToken r \<in> dom (sessions (ps_auth s))"
    by (auto simp: authorized_def Validate_def split: option.splits)
qed

subsection \<open>The front end\<close>

lemma frontend_roots: "findFrontendRoot stat = Some root \<Longrightarrow> root = ''web-ui/dist'' \<or> root = ''web''"
  by (auto simp: findFrontendRoot_def split: if_splits)

lemma split_at_simple:
  "split_at CHR ''/'' ''web-ui/dist'' = [''web-ui'', ''dist'']" "split_at CHR ''/'' ''web'' = [''web'']"
  "split_at CHR ''/'' ''index.html'' = [''index.html'']"
  by simp_all

lemma frontend_Join:
  assumes "findFrontendRoot stat = Some root" "''..'' \<notin> set (split_at CHR ''/'' p)"
  shows "path_Join root p = join_with CHR ''/'' (root # path_elems p)"
proof -
  have "path_Join ''web-ui/dist'' p = join_with CHR ''/'' ([''web-ui'', ''dist''] @ path_elems p)"
    "path_Join ''web'' p = join_with CHR ''/'' ([''web''] @ path_elems p)"
    by (rule path_Join_below [OF assms(2)]; simp add: path_elems_def proper_def)+
  moreover have "join_with CHR ''/'' (''web-ui'' # ''dist'' # ps) = join_with CHR ''/'' (''web-ui/dist'' # ps)" for ps
    by (cases ps) simp_all
  ultimately show ?thesis using frontend_roots [OF assms(1)] by auto
qed

lemma path_elems_trim: "path_elems (trim_prefix ''/'' p) = path_elems p"
proof (cases "take 1 p = ''/''")
  case True
  then obtain q where "p = CHR ''/'' # q" by (cases p) auto
  then show ?thesis by (simp add: trim_prefix_def path_elems_def proper_def)
qed (simp add: trim_prefix_def)

lemma dotdot_trim: "''..'' \<notin> set (split_at CHR ''/'' p) \<Longrightarrow> ''..'' \<notin> set (split_at CHR ''/'' (trim_prefix ''/'' p))"
  by (cases p) (auto simp: trim_prefix_def)

text \<open>What is served for a path, with \<open>elems\<close> its elements.\<close>

definition frontend_file :: "(string \<Rightarrow> bool option) \<Rightarrow> string \<Rightarrow> string list \<Rightarrow> string" where
  "frontend_file stat root elems =
     (let f = join_with CHR ''/'' (root # elems)
      in if elems \<noteq> [] \<and> stat f = Some False then f else join_with CHR ''/'' [root, ''index.html''])"

theorem handleSPA_serves:
  assumes "findFrontendRoot (p_stat env) = Some root" "take 5 (req_Path r) \<noteq> ''/api/''"
    and "p_stat env root \<noteq> Some False"
  shows "fst (handleSPA env r s) =
    (if containsDotDot (req_Path r) then http_Error ''invalid URL path'' 400
     else ServeFile env r (frontend_file (p_stat env) root (path_elems (req_Path r))))"
proof (cases "containsDotDot (req_Path r)")
  case True
  then show ?thesis using assms by (simp add: handleSPA_def ServeFile_def Let_def)
next
  case False
  let ?u = "trim_prefix ''/'' (req_Path r)"
  have u: "''..'' \<notin> set (split_at CHR ''/'' ?u)" "path_elems ?u = path_elems (req_Path r)"
    using no_dotdot [OF False] dotdot_trim path_elems_trim by blast+
  have index: "path_Join root ''index.html'' = join_with CHR ''/'' [root, ''index.html'']"
    using frontend_Join [OF assms(1), of "''index.html''"] by (simp add: path_elems_def proper_def)
  have target: "path_Join root (path_Clean ?u) = join_with CHR ''/'' (root # path_elems (req_Path r))"
    using frontend_Join [OF assms(1) path_elems_Clean(2) [OF u(1)]] path_elems_Clean(1) [OF u(1)] u(2) by simp
  show ?thesis
  proof (cases "path_elems (req_Path r) = []")
    case True
    then have e: "path_elems (path_Clean ?u) = []" using path_elems_Clean(1) [OF u(1)] u(2) by simp
    then have "path_Join root (path_Clean ?u) = root" using target True by simp
    have "path_Clean ?u = ''.'' \<or> path_Clean ?u = ''/''"
      using path_Clean_elems [OF u(1)] u(2) True by simp
    then show ?thesis
      using assms False True index target by (auto simp: handleSPA_def frontend_file_def Let_def)
  next
    case ne: False
    then have "path_Clean ?u \<noteq> ''.''" "path_Clean ?u \<noteq> []"
      using path_elems_Clean(1) [OF u(1)] u(2) by (auto simp: path_elems_def proper_def)
    then show ?thesis
      using assms False ne index target by (simp add: handleSPA_def frontend_file_def Let_def)
  qed
qed

subsection \<open>A client the store cannot write\<close>

lemma post_unprintable:
  assumes "req_Method r = ''POST''" "decode_body client_req_decode zero_client_req r = Some req"
    and "cr_Email req \<noteq> []" "cr_InboundID req \<noteq> []"
    and "parse_rfc3339 False (cr_ExpiresAt req) = Some x" "enc_time (UTC (fst x)) = None"
  shows "status (fst (handleClients env r s)) = 500
    \<and> (\<exists>c. unprintable_client (ps_store (snd (handleClients env r s))) c \<and> cl_Email c = cr_Email req)
    \<and> st_saved (ps_store (snd (handleClients env r s))) = st_saved (ps_store s)"
proof -
  define c where "c = \<lparr>cl_ID = (if cr_ID req = [] then newID ''cl'' (p_now env) else cr_ID req), cl_Email = cr_Email req,
    cl_InboundID = cr_InboundID req, cl_ExpiresAt = UTC (fst x), cl_Enabled = cr_Enabled req, cl_CreatedAt = UTC (p_now env)\<rparr>"
  define st where "st = snd (UpsertClient (p_save env) c (ps_store s))"
  have h: "handleClients env r s = after_save (UpsertClient (p_save env) c (ps_store s)) (BClient c) s"
    using assms by (simp add: handleClients_def Let_def c_def)
  have u: "unprintable_client st c"
    using clients.look_put [where x = c and ok = "p_save env" and s = "ps_store s" and k = "cl_ID c"] assms(6) by (simp add: unprintable_client_def st_def c_def)
  obtain st0 where st0: "UpsertClient (p_save env) c (ps_store s) = saveLocked (p_save env) st0" "st_state st0 = st_state st"
      "st_saved st0 = st_saved (ps_store s)"
    by (simp add: UpsertClient_def st_def)
  then have "UpsertClient (p_save env) c (ps_store s) = (Inl EJson, st0)"
    using unprintable_marshal [OF u] by (simp add: saveLocked_def)
  then have "status (fst (handleClients env r s)) = 500" "ps_store (snd (handleClients env r s)) = st0" "st = st0"
    by (simp_all add: h after_save_def http_Error_def st_def)
  moreover have "cl_Email c = cr_Email req" by (simp add: c_def)
  ultimately show ?thesis using u st0(3) by blast
qed

end
