(* ===== verification/TunnelSetup.thy ===== *)
theory TunnelSetup
  imports WinClient
begin

text \<open>
  \<open>server/tunnel_linux.go\<close> and \<open>winclient/tunnel_device.go\<close>: the commands the two sides run to set
  up their tunnel interfaces. What a command does to the machine, and whether it succeeds, is
  the parameter \<open>os\<close>; a \<open>machine\<close> is the log of the commands run so far and the rest of the
  world. A failed command carries the text the source puts into its error, because
  \<open>configureLinuxTunnel\<close> searches it. Shown: the firewall rules are installed once each whatever
  the number of runs, in safe mode no default route is ever added, in full mode the host route
  to the server is in place before the default route moves, a failed start is not cleaned up, and
  which masks are accepted.
\<close>

subsection \<open>Commands\<close>

type_synonym 'w os = "string list \<Rightarrow> 'w \<Rightarrow> (string option \<times> string) \<times> 'w"

record 'w machine =
  cmds :: "string list list"
  world :: 'w

fun joined :: "string \<Rightarrow> string list \<Rightarrow> string" where
  "joined sep [] = []"
| "joined sep [x] = x"
| "joined sep (x # y # xs) = x @ sep @ joined sep (y # xs)"

definition CombinedOutput :: "'w os \<Rightarrow> string \<Rightarrow> string list \<Rightarrow> 'w machine \<Rightarrow> (string option \<times> string) \<times> 'w machine" where
  "CombinedOutput os bin args m =
     (case os (bin # args) (world m) of
        (r, w) \<Rightarrow> (r, \<lparr>cmds = cmds m @ [bin # args], world = w\<rparr>))"

definition command_error :: "string \<Rightarrow> string list \<Rightarrow> string \<Rightarrow> string \<Rightarrow> go_error" where
  "command_error bin args err out =
     EMsg (bin @ '' ['' @ joined '' '' args @ ''] failed: '' @ err @ '' ('' @ out @ '')'')"

definition runCmdOut :: "'w os \<Rightarrow> string \<Rightarrow> string list \<Rightarrow> 'w machine \<Rightarrow> string result \<times> 'w machine" where
  "runCmdOut os bin args m =
     (case CombinedOutput os bin args m of
        ((Some err, out), m) \<Rightarrow> (Inl (command_error bin args err out), m)
      | ((None, out), m) \<Rightarrow> (Inr out, m))"

definition runCmd :: "'w os \<Rightarrow> string \<Rightarrow> string list \<Rightarrow> 'w machine \<Rightarrow> unit result \<times> 'w machine" where
  "runCmd os bin args m =
     (case CombinedOutput os bin args m of
        ((Some err, out), m) \<Rightarrow> (Inl (command_error bin args err out), m)
      | ((None, out), m) \<Rightarrow> (Inr (), m))"

definition after_cmd :: "'w os \<Rightarrow> string list \<Rightarrow> 'w machine \<Rightarrow> 'w machine" where
  "after_cmd os c m = \<lparr>cmds = cmds m @ [c], world = snd (os c (world m))\<rparr>"

definition succeeds :: "'w os \<Rightarrow> string list \<Rightarrow> 'w machine \<Rightarrow> bool" where
  "succeeds os c m \<longleftrightarrow> fst (fst (os c (world m))) = None"

lemma after_cmd_sel [simp]: "cmds (after_cmd os c m) = cmds m @ [c]" "world (after_cmd os c m) = snd (os c (world m))"
  by (simp_all add: after_cmd_def)

lemma runCmd_ran: "snd (runCmd os bin args m) = after_cmd os (bin # args) m"
    "is_ok (fst (runCmd os bin args m)) \<longleftrightarrow> succeeds os (bin # args) m"
  by (auto simp: runCmd_def CombinedOutput_def after_cmd_def succeeds_def split: prod.splits option.splits)

lemma runCmdOut_ran: "snd (runCmdOut os bin args m) = after_cmd os (bin # args) m"
    "is_ok (fst (runCmdOut os bin args m)) \<longleftrightarrow> succeeds os (bin # args) m"
  by (auto simp: runCmdOut_def CombinedOutput_def after_cmd_def succeeds_def split: prod.splits option.splits)

lemmas run_simps = runCmd_ran runCmdOut_ran

subsection \<open>tunnel\_linux.go\<close>

definition contains :: "string \<Rightarrow> string \<Rightarrow> bool" where
  "contains s sub \<longleftrightarrow> (\<exists>i \<in> {0..length s}. take (length sub) (drop i s) = sub)"

definition error_contains :: "go_error \<Rightarrow> string \<Rightarrow> bool" where
  "error_contains e sub = (case e of EMsg s \<Rightarrow> contains s sub | _ \<Rightarrow> False)"

text \<open>\<open>strings.Fields\<close> for the ASCII text \<open>ip\<close> prints.\<close>

definition field_space :: "char \<Rightarrow> bool" where
  "field_space c \<longleftrightarrow> c = CHR '' '' \<or> (9 \<le> (of_char c :: nat) \<and> (of_char c :: nat) \<le> 13)"

function Fields :: "string \<Rightarrow> string list" where
  "Fields s =
     (let t = dropWhile field_space s
      in if t = [] then []
         else takeWhile (\<lambda>c. \<not> field_space c) t # Fields (dropWhile (\<lambda>c. \<not> field_space c) t))"
  by pat_completeness auto
termination
proof (relation "measure length")
  fix s :: string and t assume t: "t = dropWhile field_space s" "t \<noteq> []"
  then have "\<not> field_space (hd t)" by (metis hd_dropWhile)
  with t(2) have "length (dropWhile (\<lambda>c. \<not> field_space c) t) \<le> length (tl t)"
    by (cases t) (simp_all add: length_dropWhile_le)
  moreover have "length t \<le> length s" using t(1) by (simp add: length_dropWhile_le)
  moreover have "length (tl t) < length t" using t(2) by simp
  ultimately have "length (dropWhile (\<lambda>c. \<not> field_space c) t) < length s" by linarith
  then show "(dropWhile (\<lambda>c. \<not> field_space c) t, s) \<in> measure length" by simp
qed simp

declare Fields.simps [simp del]

fun after_dev :: "string list \<Rightarrow> string option" where
  "after_dev (a # b # rest) = (if a = ''dev'' then Some b else after_dev (b # rest))"
| "after_dev _ = None"

definition detectDefaultLinuxUpstream :: "'w os \<Rightarrow> 'w machine \<Rightarrow> string result \<times> 'w machine" where
  "detectDefaultLinuxUpstream os m =
     (case runCmdOut os ''ip'' [''route'', ''show'', ''default''] m of
        (Inl e, m) \<Rightarrow> (Inl e, m)
      | (Inr out, m) \<Rightarrow>
          ((case after_dev (Fields out) of
              None \<Rightarrow> Inl (EMsg ''default route interface not found'')
            | Some d \<Rightarrow> Inr d), m))"

definition linuxInterfaceExists :: "'w os \<Rightarrow> string \<Rightarrow> 'w machine \<Rightarrow> bool \<times> 'w machine" where
  "linuxInterfaceExists os name m =
     (if name = [] then (False, m)
      else case runCmdOut os ''ip'' [''link'', ''show'', ''dev'', name] m of (r, m) \<Rightarrow> (is_ok r, m))"

definition detectIPTablesBin :: "'w os \<Rightarrow> 'w machine \<Rightarrow> string \<times> 'w machine" where
  "detectIPTablesBin os m =
     (case runCmdOut os ''iptables-legacy'' [''-S''] m of
        (r, m) \<Rightarrow> (if is_ok r then ''iptables-legacy'' else ''iptables'', m))"

definition ensureIPTablesRule :: "'w os \<Rightarrow> string \<Rightarrow> string list \<Rightarrow> string list \<Rightarrow> 'w machine \<Rightarrow> 'w machine" where
  "ensureIPTablesRule os bin addArgs checkArgs m =
     (if bin = [] then m
      else case runCmdOut os bin checkArgs m of
        (r, m) \<Rightarrow> (if is_ok r then m else snd (runCmd os bin addArgs m)))"

text \<open>The four rules, with the action \<open>a\<close> (append or check) left open.\<close>

definition rule_in :: "string \<Rightarrow> string \<Rightarrow> string list" where
  "rule_in name a = [a, ''FORWARD'', ''-i'', name, ''-j'', ''ACCEPT'']"

definition rule_out :: "string \<Rightarrow> string \<Rightarrow> string list" where
  "rule_out name a = [a, ''FORWARD'', ''-o'', name, ''-m'', ''state'', ''--state'', ''RELATED,ESTABLISHED'',
     ''-j'', ''ACCEPT'']"

definition rule_nat :: "string \<Rightarrow> string \<Rightarrow> string \<Rightarrow> string list" where
  "rule_nat subnet upstream a = [''-t'', ''nat'', a, ''POSTROUTING'', ''-s'', subnet, ''-o'', upstream,
     ''-j'', ''MASQUERADE'']"

definition rule_mss :: "string \<Rightarrow> string list" where
  "rule_mss a = [''-t'', ''mangle'', a, ''FORWARD'', ''-p'', ''tcp'', ''--tcp-flags'', ''SYN,RST'', ''SYN'',
     ''-j'', ''TCPMSS'', ''--clamp-mss-to-pmtu'']"

definition ensure_rule :: "'w os \<Rightarrow> string \<Rightarrow> (string \<Rightarrow> string list) \<Rightarrow> 'w machine \<Rightarrow> 'w machine" where
  "ensure_rule os ipt r m = ensureIPTablesRule os ipt (r ''-A'') (r ''-C'') m"

definition upstream_of :: "'w os \<Rightarrow> ServerConfig \<Rightarrow> 'w machine \<Rightarrow> string \<times> 'w machine" where
  "upstream_of os cfg m =
     (let up = sc_UpstreamInterface cfg
      in case (if up = [] then (False, m) else linuxInterfaceExists os up m) of
           (True, m) \<Rightarrow> (up, m)
         | (False, m) \<Rightarrow>
           (case detectDefaultLinuxUpstream os m of
              (Inl e, m) \<Rightarrow> (up, m)
            | (Inr detected, m) \<Rightarrow> (if detected \<noteq> [] then detected else up, m)))"

definition install_rules :: "'w os \<Rightarrow> string \<Rightarrow> string \<Rightarrow> string \<Rightarrow> string \<Rightarrow> 'w machine \<Rightarrow> 'w machine" where
  "install_rules os ipt name subnet upstream m =
     ensure_rule os ipt rule_mss
      (ensure_rule os ipt (rule_nat subnet upstream)
        (ensure_rule os ipt (rule_out name)
          (ensure_rule os ipt (rule_in name) m)))"

definition configureLinuxTunnel :: "'w os \<Rightarrow> ServerConfig \<Rightarrow> string \<Rightarrow> 'w machine \<Rightarrow> unit result \<times> 'w machine" where
  "configureLinuxTunnel os cfg name m =
     (case runCmd os ''ip'' [''addr'', ''add'', sc_TunnelServerCIDR cfg, ''dev'', name] m of
        (r, m) \<Rightarrow>
        if (case r of Inl e \<Rightarrow> \<not> error_contains e ''File exists'' | Inr _ \<Rightarrow> False) then (r, m)
        else (case runCmd os ''ip'' [''link'', ''set'', ''dev'', name, ''up''] m of
          (Inl e, m) \<Rightarrow> (Inl e, m)
        | (Inr _, m) \<Rightarrow>
        (case runCmd os ''sysctl'' [''-w'', ''net.ipv4.ip_forward=1''] m of (_, m) \<Rightarrow>
        (case upstream_of os cfg m of (upstream, m) \<Rightarrow>
          if upstream = [] then (Inl (EMsg ''cannot detect upstream interface''), m)
          else (case detectIPTablesBin os m of (ipt, m) \<Rightarrow>
            (Inr (), install_rules os ipt name (sc_TunnelSubnet cfg) upstream m))))))"

text \<open>\<open>iface\<close> is the outcome of \<open>water.New\<close>; the last component is whether the interface is left open.\<close>

definition newTunnelDevice ::
  "'w os \<Rightarrow> string result \<Rightarrow> ServerConfig \<Rightarrow> 'w machine \<Rightarrow> string result \<times> 'w machine \<times> bool" where
  "newTunnelDevice os iface cfg m =
     (case iface of
        Inl e \<Rightarrow> (Inl e, m, False)
      | Inr name \<Rightarrow>
        (case configureLinuxTunnel os cfg name m of
           (Inl e, m) \<Rightarrow> (Inl e, m, False)
         | (Inr _, m) \<Rightarrow> (Inr name, m, True)))"

subsection \<open>Rules are installed once\<close>

definition is_rule :: "(string \<Rightarrow> string list) \<Rightarrow> bool" where
  "is_rule r \<longleftrightarrow> (\<exists>n. r = rule_in n) \<or> (\<exists>n. r = rule_out n) \<or> (\<exists>s u. r = rule_nat s u) \<or> r = rule_mss"

text \<open>
  The documented behaviour of \<open>iptables\<close> the code relies on, for \<open>n w bin x\<close> the number of copies
  of the rule with check arguments \<open>x\<close>: a check succeeds when there is one and changes nothing,
  an append adds one copy, the other commands of the setup leave the rules alone.
\<close>

definition iptables_bins :: "string set" where
  "iptables_bins = {''iptables'', ''iptables-legacy''}"

definition iptables_laws :: "'w os \<Rightarrow> ('w \<Rightarrow> string \<Rightarrow> string list \<Rightarrow> nat) \<Rightarrow> bool" where
  "iptables_laws os n \<longleftrightarrow>
     (\<forall>bin r w. bin \<in> iptables_bins \<longrightarrow> is_rule r \<longrightarrow>
        (fst (fst (os (bin # r ''-C'') w)) = None \<longleftrightarrow> 0 < n w bin (r ''-C''))
        \<and> n (snd (os (bin # r ''-C'') w)) = n w
        \<and> fst (fst (os (bin # r ''-A'') w)) = None
        \<and> n (snd (os (bin # r ''-A'') w)) = (n w)(bin := (n w bin)(r ''-C'' := n w bin (r ''-C'') + 1)))
     \<and> (\<forall>args w. n (snd (os (''ip'' # args) w)) = n w \<and> n (snd (os (''sysctl'' # args) w)) = n w
          \<and> n (snd (os [''iptables-legacy'', ''-S''] w)) = n w)"

lemma is_rule_intros [simp]: "is_rule (rule_in n)" "is_rule (rule_out n)" "is_rule (rule_nat s u)" "is_rule rule_mss"
  by (auto simp: is_rule_def)

definition once :: "string \<Rightarrow> string list \<Rightarrow> (string \<Rightarrow> string list \<Rightarrow> nat) \<Rightarrow> string \<Rightarrow> string list \<Rightarrow> nat" where
  "once bin x f = f(bin := (f bin)(x := max 1 (f bin x)))"

lemma once_apply: "once bin x f b y = (if b = bin \<and> y = x then max 1 (f b y) else f b y)"
  by (simp add: once_def)

definition once_all :: "string \<Rightarrow> string list set \<Rightarrow> (string \<Rightarrow> string list \<Rightarrow> nat) \<Rightarrow> string \<Rightarrow> string list \<Rightarrow> nat" where
  "once_all bin S f = (\<lambda>b y. if b = bin \<and> y \<in> S then max 1 (f b y) else f b y)"

lemma once_once_all: "once bin x (once_all bin S f) = once_all bin (insert x S) f"
  by (auto simp: once_apply once_all_def fun_eq_iff)

lemma once_four: "once b x (once b y (once b z (once b w f))) = once_all b {x, y, z, w} f"
proof -
  have "once_all b {} f = f" by (simp add: once_all_def)
  then show ?thesis using once_once_all [of b w "{}" f] by (simp add: once_once_all)
qed

lemma ensure_rule_count:
  assumes "iptables_laws os n" "is_rule r" "bin \<in> iptables_bins"
  shows "n (world (ensure_rule os bin r m)) = once bin (r ''-C'') (n (world m))"
proof -
  note laws = assms(1) [unfolded iptables_laws_def, THEN conjunct1, rule_format, OF assms(3,2)]
  obtain q m1 where c: "runCmdOut os bin (r ''-C'') m = (q, m1)" by (cases "runCmdOut os bin (r ''-C'') m")
  then have m1: "m1 = after_cmd os (bin # r ''-C'') m" "is_ok q \<longleftrightarrow> 0 < n (world m) bin (r ''-C'')"
    using runCmdOut_ran [of os bin "r ''-C''" m] laws [of "world m"] by (simp_all add: succeeds_def)
  have "bin \<noteq> []" using assms(3) by (auto simp: iptables_bins_def)
  then show ?thesis
    using c m1 laws [of "world m"] laws [of "world m1"]
    by (auto simp: ensure_rule_def ensureIPTablesRule_def run_simps once_def max_def fun_eq_iff)
qed

lemma install_rules_count:
  assumes "iptables_laws os n" "ipt \<in> iptables_bins"
  shows "n (world (install_rules os ipt name subnet upstream m)) bin x =
    (if bin = ipt \<and> x \<in> {rule_in name ''-C'', rule_out name ''-C'', rule_nat subnet upstream ''-C'', rule_mss ''-C''}
     then max 1 (n (world m) bin x) else n (world m) bin x)"
  by (simp add: install_rules_def ensure_rule_count [OF assms(1) _ assms(2)] once_four)
    (auto simp: once_all_def)

lemma upstream_of_count:
  assumes "iptables_laws os n" "upstream_of os cfg m = (up, m')"
  shows "n (world m') = n (world m)"
proof -
  have ip: "n (snd (os (''ip'' # args) w)) = n w" for args w using assms(1) by (simp add: iptables_laws_def)
  have e: "n (world m2) = n (world m1)" if "linuxInterfaceExists os i m1 = (b, m2)" for i b m1 m2
    using that ip runCmdOut_ran(1) [of os "''ip''" "[''link'', ''show'', ''dev'', i]" m1]
    by (auto simp: linuxInterfaceExists_def split: if_splits prod.splits)
  have d: "n (world m2) = n (world m1)" if "detectDefaultLinuxUpstream os m1 = (r, m2)" for r m1 m2
    using that ip runCmdOut_ran(1) [of os "''ip''" "[''route'', ''show'', ''default'']" m1]
    by (auto simp: detectDefaultLinuxUpstream_def split: if_splits prod.splits sum.splits)
  show ?thesis
    using assms(2) by (auto simp: upstream_of_def Let_def dest!: e d split: prod.splits bool.splits sum.splits if_splits)
qed

lemma configureLinuxTunnel_rules:
  assumes "iptables_laws os n" "configureLinuxTunnel os cfg name m = (Inr (), m')"
  shows "\<exists>ipt upstream. ipt \<in> iptables_bins \<and> upstream \<noteq> [] \<and>
    (\<forall>bin x. n (world m') bin x =
      (if bin = ipt \<and> x \<in> {rule_in name ''-C'', rule_out name ''-C'',
            rule_nat (sc_TunnelSubnet cfg) upstream ''-C'', rule_mss ''-C''}
       then max 1 (n (world m) bin x) else n (world m) bin x))"
proof -
  have same: "n (snd (os (''ip'' # args) w)) = n w" "n (snd (os (''sysctl'' # args) w)) = n w"
    "n (snd (os [''iptables-legacy'', ''-S''] w)) = n w" for args w
    using assms(1) by (simp_all add: iptables_laws_def)
  have cmd: "n (world m2) = n (world m1)" if "runCmd os bin args m1 = (r, m2)" "bin \<in> {''ip'', ''sysctl''}" for bin args r m1 m2
    using that same runCmd_ran(1) [of os bin args m1] by auto
  obtain r1 m1 where 1: "runCmd os ''ip'' [''addr'', ''add'', sc_TunnelServerCIDR cfg, ''dev'', name] m = (r1, m1)"
    by (metis prod.exhaust)
  obtain r2 m2 where 2: "runCmd os ''ip'' [''link'', ''set'', ''dev'', name, ''up''] m1 = (r2, m2)" by (metis prod.exhaust)
  obtain r3 m3 where 3: "runCmd os ''sysctl'' [''-w'', ''net.ipv4.ip_forward=1''] m2 = (r3, m3)" by (metis prod.exhaust)
  obtain up m4 where 4: "upstream_of os cfg m3 = (up, m4)" by (metis prod.exhaust)
  obtain ipt m5 where 5: "detectIPTablesBin os m4 = (ipt, m5)" by (metis prod.exhaust)
  have m5: "n (world m5) = n (world m4)" "ipt \<in> iptables_bins"
    using 5 same(3) runCmdOut_ran(1) [of os "''iptables-legacy''" "[''-S'']" m4]
    by (auto simp: detectIPTablesBin_def iptables_bins_def split: prod.splits)
  have eq: "n (world m5) = n (world m)"
    using cmd [OF 1] cmd [OF 2] cmd [OF 3] upstream_of_count [OF assms(1) 4] m5 by simp
  have "up \<noteq> []" "m' = install_rules os ipt name (sc_TunnelSubnet cfg) up m5"
    using assms(2) 1 2 3 4 5 by (auto simp: configureLinuxTunnel_def split: if_splits sum.splits)
  then show ?thesis
    using m5(2) by (intro exI [of _ ipt] exI [of _ up])
      (auto simp: install_rules_count [OF assms(1) m5(2)] eq)
qed

subsection \<open>tunnel\_device.go: masks and endpoints\<close>

definition cidrToMask :: "string \<Rightarrow> (string \<times> string) result" where
  "cidrToMask cidr =
     (case split_at CHR ''/'' cidr of
        [ip, len] \<Rightarrow>
          (if len = ''24'' then Inr (ip, ''255.255.255.0'')
           else if len = ''16'' then Inr (ip, ''255.255.0.0'')
           else Inl (EMsg ''unsupported mask''))
      | _ \<Rightarrow> Inl (EMsg ''invalid cidr''))"

lemma cidrToMask_iff:
  "cidrToMask cidr = Inr (ip, msk) \<longleftrightarrow> CHR ''/'' \<notin> set ip \<and>
     ((cidr = ip @ ''/24'' \<and> msk = ''255.255.255.0'') \<or> (cidr = ip @ ''/16'' \<and> msk = ''255.255.0.0''))"
proof
  assume "cidrToMask cidr = Inr (ip, msk)"
  then obtain len where s: "split_at CHR ''/'' cidr = [ip, len]"
    and m: "len = ''24'' \<and> msk = ''255.255.255.0'' \<or> len = ''16'' \<and> msk = ''255.255.0.0''"
    by (auto simp: cidrToMask_def split: list.splits if_splits)
  then show "CHR ''/'' \<notin> set ip \<and>
     ((cidr = ip @ ''/24'' \<and> msk = ''255.255.255.0'') \<or> (cidr = ip @ ''/16'' \<and> msk = ''255.255.0.0''))"
    using split_at_two [OF s] by auto
next
  assume a: "CHR ''/'' \<notin> set ip \<and>
     ((cidr = ip @ ''/24'' \<and> msk = ''255.255.255.0'') \<or> (cidr = ip @ ''/16'' \<and> msk = ''255.255.0.0''))"
  then have "split_at CHR ''/'' (ip @ CHR ''/'' # l) = ip # split_at CHR ''/'' l" for l
    by (simp add: split_at_append)
  then have "split_at CHR ''/'' (ip @ ''/24'') = [ip, ''24'']" "split_at CHR ''/'' (ip @ ''/16'') = [ip, ''16'']"
    by simp_all
  then show "cidrToMask cidr = Inr (ip, msk)" using a by (auto simp: cidrToMask_def)
qed

text \<open>\<open>net.SplitHostPort\<close>, the host only.\<close>

definition SplitHostPort :: "string \<Rightarrow> string option" where
  "SplitHostPort s =
     (if CHR '':'' \<notin> set s then None
      else let port_part = takeWhile (\<lambda>c. c \<noteq> CHR '':'') (rev s);
               before = take (length s - length port_part - 1) s
      in if hd s = CHR ''['' then
           (let host = takeWhile (\<lambda>c. c \<noteq> CHR '']'') (tl s)
            in if before = CHR ''['' # host @ '']'' \<and> CHR ''['' \<notin> set (tl s)
                  \<and> CHR '']'' \<notin> set port_part then Some host else None)
         else if CHR '':'' \<in> set before \<or> CHR ''['' \<in> set s \<or> CHR '']'' \<in> set s then None
         else Some before)"

text \<open>\<open>net.ParseIP\<close> on a text whose first separator is a dot, with Go's ban on leading zeros.\<close>

definition octet_ok :: "string \<Rightarrow> bool" where
  "octet_ok f \<longleftrightarrow> f \<noteq> [] \<and> length f \<le> 3 \<and> list_all is_digit f \<and> (hd f = CHR ''0'' \<longrightarrow> length f = 1)
     \<and> (case parse_digits f of Some n \<Rightarrow> n \<le> 255 | None \<Rightarrow> False)"

definition parse_ipv4 :: "string \<Rightarrow> bool" where
  "parse_ipv4 s \<longleftrightarrow> length (split_at CHR ''.'' s) = 4 \<and> list_all octet_ok (split_at CHR ''.'' s)"

text \<open>
  What stays with the \<open>net\<close> package: reading an address written with colons (\<open>None\<close>: no
  address; \<open>Some v\<close>: an address, \<open>v\<close> its dotted form if \<open>To4\<close> has one), and name resolution.
\<close>

record resolver =
  parse_ipv6 :: "string \<Rightarrow> string option option"
  lookup_ip :: "string \<Rightarrow> string option list result"

fun first_some :: "'a option list \<Rightarrow> 'a option" where
  "first_some [] = None"
| "first_some (Some x # _) = Some x"
| "first_some (None # xs) = first_some xs"

definition ParseIP :: "resolver \<Rightarrow> string \<Rightarrow> string option option" where
  "ParseIP rs s =
     (case dropWhile (\<lambda>c. c \<noteq> CHR ''.'' \<and> c \<noteq> CHR '':'') s of
        [] \<Rightarrow> None
      | c # _ \<Rightarrow> if c = CHR ''.'' then (if parse_ipv4 s then Some (Some s) else None) else parse_ipv6 rs s)"

definition resolveEndpointToIPv4 :: "resolver \<Rightarrow> string \<Rightarrow> string result" where
  "resolveEndpointToIPv4 rs endpoint =
     (if endpoint = [] then Inl (EMsg ''empty endpoint'')
      else let host = (case SplitHostPort endpoint of Some h \<Rightarrow> h | None \<Rightarrow> endpoint)
      in case ParseIP rs host of
           Some (Some v4) \<Rightarrow> Inr v4
         | Some None \<Rightarrow> Inl (EMsg ''non-ipv4 endpoint'')
         | None \<Rightarrow>
           (case lookup_ip rs host of
              Inl e \<Rightarrow> Inl e
            | Inr ips \<Rightarrow>
              (case first_some ips of
                 Some v4 \<Rightarrow> Inr v4
               | None \<Rightarrow> Inl (EMsg ''ipv4 address not found for endpoint''))))"

subsection \<open>tunnel\_device.go: the interface\<close>

text \<open>\<open>windows\<close> is whether \<open>runtime.GOOS\<close> is \<open>''windows''\<close>.\<close>

definition runNetsh :: "'w os \<Rightarrow> string list \<Rightarrow> 'w machine \<Rightarrow> unit result \<times> 'w machine" where
  "runNetsh os args m = runCmd os ''netsh'' args m"

definition runRoute :: "'w os \<Rightarrow> string list \<Rightarrow> 'w machine \<Rightarrow> unit result \<times> 'w machine" where
  "runRoute os args m = runCmd os ''route'' args m"

record defaultRouteInfo =
  NextHop :: string
  IfIndex :: int

definition powershell_query :: string where
  "powershell_query = ''$r=Get-NetRoute -AddressFamily IPv4 -DestinationPrefix '' @ CHR 0x27 # ''0.0.0.0/0''
     @ CHR 0x27 # '' | Sort-Object -Property RouteMetric | Select-Object -First 1 NextHop,ifIndex; $r | ConvertTo-Json -Compress''"

definition getPrimaryDefaultRoute :: "'w os \<Rightarrow> 'w machine \<Rightarrow> defaultRouteInfo result \<times> 'w machine" where
  "getPrimaryDefaultRoute os m =
     (case CombinedOutput os ''powershell'' [''-NoProfile'', ''-Command'', powershell_query] m of
        ((Some err, out), m) \<Rightarrow> (Inl EOs, m)
      | ((None, out), m) \<Rightarrow>
        ((case obj_members (bytes_of_str out) of Inl e \<Rightarrow> Inl e | Inr ms \<Rightarrow>
           with_field (str_field ''NextHop'' ms) (\<lambda>a.
           with_field (int_field ''ifIndex'' ms) (\<lambda>b.
             Inr \<lparr>NextHop = a, IfIndex = b\<rparr>))), m))"

definition route_delete :: "string \<Rightarrow> string list" where
  "route_delete ip = [''DELETE'', ip, ''MASK'', ''255.255.255.255'']"

definition route_add :: "string \<Rightarrow> defaultRouteInfo \<Rightarrow> string list" where
  "route_add ip r = [''ADD'', ip, ''MASK'', ''255.255.255.255'', NextHop r, ''METRIC'', ''3'', ''IF'', int_text (IfIndex r)]"

text \<open>\<open>ensureServerBypassRoute\<close> and its inverse always return nil, so only the machine is left.\<close>

definition ensureServerBypassRoute :: "'w os \<Rightarrow> resolver \<Rightarrow> string \<Rightarrow> 'w machine \<Rightarrow> 'w machine" where
  "ensureServerBypassRoute os rs serverEndpoint m =
     (case resolveEndpointToIPv4 rs serverEndpoint of
        Inl e \<Rightarrow> m
      | Inr serverIP \<Rightarrow>
      (case getPrimaryDefaultRoute os m of
        (Inl e, m) \<Rightarrow> m
      | (Inr defRoute, m) \<Rightarrow>
        if NextHop defRoute = [] \<or> IfIndex defRoute \<le> 0 then m
        else snd (runRoute os (route_add serverIP defRoute) (snd (runRoute os (route_delete serverIP) m)))))"

definition removeServerBypassRoute :: "'w os \<Rightarrow> resolver \<Rightarrow> string \<Rightarrow> 'w machine \<Rightarrow> 'w machine" where
  "removeServerBypassRoute os rs serverEndpoint m =
     (case resolveEndpointToIPv4 rs serverEndpoint of
        Inl e \<Rightarrow> m
      | Inr serverIP \<Rightarrow> snd (runRoute os (route_delete serverIP) m))"

definition set_address :: "string \<Rightarrow> string \<Rightarrow> string \<Rightarrow> string \<Rightarrow> string list" where
  "set_address name ip msk gw = [''interface'', ''ip'', ''set'', ''address'', ''name='' @ name, ''static'', ip, msk, gw]"

definition set_mtu :: "string \<Rightarrow> string list" where
  "set_mtu name = [''interface'', ''ipv4'', ''set'', ''subinterface'', name, ''mtu=1380'', ''store=active'']"

definition delete_default :: "string \<Rightarrow> string list" where
  "delete_default name = [''interface'', ''ipv4'', ''delete'', ''route'', ''0.0.0.0/0'', ''interface='' @ name]"

definition delete_default_via :: "string \<Rightarrow> string \<Rightarrow> string list" where
  "delete_default_via name gateway =
     [''interface'', ''ipv4'', ''delete'', ''route'', ''0.0.0.0/0'', ''interface='' @ name, ''nexthop='' @ gateway]"

definition add_default :: "string \<Rightarrow> string \<Rightarrow> string list" where
  "add_default name gateway =
     [''interface'', ''ipv4'', ''add'', ''route'', ''0.0.0.0/0'', ''interface='' @ name, ''nexthop='' @ gateway,
      ''metric=5'', ''store=active'']"

definition set_dns :: "string \<Rightarrow> string list \<Rightarrow> string list" where
  "set_dns name how = [''interface'', ''ip'', ''set'', ''dns'', ''name='' @ name] @ how"

definition configureTunnelInterface ::
  "'w os \<Rightarrow> resolver \<Rightarrow> bool \<Rightarrow> string \<Rightarrow> string \<Rightarrow> string \<Rightarrow> bool \<Rightarrow> string \<Rightarrow> 'w machine \<Rightarrow> unit result \<times> 'w machine" where
  "configureTunnelInterface os rs windows name cidr gateway setDefaultRoute serverEndpoint m =
     (if \<not> windows then (Inr (), m)
      else case cidrToMask cidr of
        Inl e \<Rightarrow> (Inl e, m)
      | Inr (ip, msk) \<Rightarrow>
        (let gw = (if setDefaultRoute then gateway else ''none'')
         in case runNetsh os (set_address name ip msk gw) m of
              (Inl e, m) \<Rightarrow> (Inl e, m)
            | (Inr _, m) \<Rightarrow>
              (let m = snd (runNetsh os (set_mtu name) m)
               in if setDefaultRoute then
                    (let m = ensureServerBypassRoute os rs serverEndpoint m;
                         m = snd (runNetsh os (delete_default name) m)
                     in case runNetsh os (add_default name gateway) m of
                          (Inl e, m) \<Rightarrow> (Inl e, m)
                        | (Inr _, m) \<Rightarrow> (Inr (), snd (runNetsh os (set_dns name [''static'', ''1.1.1.1'']) m)))
                  else
                    (let m = snd (runNetsh os (delete_default name) m);
                         m = snd (runNetsh os (delete_default_via name gateway) m);
                         m = snd (runNetsh os (set_dns name [''dhcp'']) m)
                     in (Inr (), m)))))"

definition cleanupTunnelInterface ::
  "'w os \<Rightarrow> resolver \<Rightarrow> bool \<Rightarrow> string \<Rightarrow> string \<Rightarrow> bool \<Rightarrow> string \<Rightarrow> 'w machine \<Rightarrow> 'w machine" where
  "cleanupTunnelInterface os rs windows name gateway setDefaultRoute serverEndpoint m =
     (if \<not> windows \<or> \<not> setDefaultRoute then m
      else let m = snd (runNetsh os (delete_default name) m);
               m = snd (runNetsh os (delete_default_via name gateway) m);
               m = snd (runNetsh os (set_dns name [''dhcp'']) m)
           in removeServerBypassRoute os rs serverEndpoint m)"

text \<open>
  The start of \<open>runTunnelSession\<close>: \<open>opened\<close> is the outcome of opening the device and asking for its
  name. The clean-up is deferred only after the configuration succeeded.
\<close>

definition startTunnel :: "'w os \<Rightarrow> resolver \<Rightarrow> bool \<Rightarrow> string result \<Rightarrow> WinConfig \<Rightarrow> 'w machine \<Rightarrow> string result \<times> 'w machine" where
  "startTunnel os rs windows opened cfg m =
     (case opened of
        Inl e \<Rightarrow> (Inl e, m)
      | Inr name \<Rightarrow>
      (case configureTunnelInterface os rs windows name (wc_TunCIDR cfg) (wc_TunGateway cfg)
              (wc_TunSetDefaultRoute cfg) (wc_ServerTCP cfg) m of
        (Inl e, m) \<Rightarrow> (Inl e, m)
      | (Inr _, m) \<Rightarrow> (Inr name, m)))"

definition endTunnel :: "'w os \<Rightarrow> resolver \<Rightarrow> bool \<Rightarrow> string \<Rightarrow> WinConfig \<Rightarrow> 'w machine \<Rightarrow> 'w machine" where
  "endTunnel os rs windows name cfg m =
     cleanupTunnelInterface os rs windows name (wc_TunGateway cfg) (wc_TunSetDefaultRoute cfg) (wc_ServerTCP cfg) m"

subsection \<open>Which routes change, and in which order\<close>

lemma runNetsh_eq: "runNetsh os args m = (r, m') \<Longrightarrow> m' = after_cmd os (''netsh'' # args) m"
  using runCmd_ran(1) [of os "''netsh''" args m] by (simp add: runNetsh_def)

lemma snd_runNetsh [simp]: "snd (runNetsh os args m) = after_cmd os (''netsh'' # args) m"
  by (simp add: runNetsh_def runCmd_ran)

lemma snd_runRoute [simp]: "snd (runRoute os args m) = after_cmd os (''route'' # args) m"
  by (simp add: runRoute_def runCmd_ran)

lemma getPrimaryDefaultRoute_ran:
  "snd (getPrimaryDefaultRoute os m) = after_cmd os [''powershell'', ''-NoProfile'', ''-Command'', powershell_query] m"
  by (auto simp: getPrimaryDefaultRoute_def CombinedOutput_def after_cmd_def split: prod.splits option.splits)

definition adds_route :: "string list \<Rightarrow> bool" where
  "adds_route c \<longleftrightarrow> take 4 c = [''netsh'', ''interface'', ''ipv4'', ''add''] \<or> take 2 c = [''route'', ''ADD'']"

text \<open>In safe mode no command adds a route, and the address is set without a gateway.\<close>

lemma safe_mode_commands:
  assumes "configureTunnelInterface os rs windows name cidr gateway False serverEndpoint m = (r, m')"
  shows "\<exists>new. cmds m' = cmds m @ new \<and> list_all (\<lambda>c. \<not> adds_route c) new
    \<and> list_all (\<lambda>c. take 5 c = [''netsh'', ''interface'', ''ip'', ''set'', ''address''] \<longrightarrow> last c = ''none'') new"
proof (cases "windows \<and> is_ok (cidrToMask cidr)")
  case True
  then obtain ip msk where c: "windows" "cidrToMask cidr = Inr (ip, msk)"
    by (cases "cidrToMask cidr") auto
  obtain q m1 where a: "runNetsh os (set_address name ip msk ''none'') m = (q, m1)" by (metis prod.exhaust)
  note m1 = runNetsh_eq [OF a]
  show ?thesis
  proof (cases q)
    case (Inl e)
    with assms a c m1 have "cmds m' = cmds m @ [''netsh'' # set_address name ip msk ''none'']"
      by (auto simp: configureTunnelInterface_def)
    then show ?thesis by (simp add: adds_route_def set_address_def)
  next
    case (Inr u)
    with assms a c m1 have "cmds m' = cmds m @ [''netsh'' # set_address name ip msk ''none'', ''netsh'' # set_mtu name,
        ''netsh'' # delete_default name, ''netsh'' # delete_default_via name gateway, ''netsh'' # set_dns name [''dhcp'']]"
      by (auto simp: configureTunnelInterface_def Let_def)
    then show ?thesis
      by (simp add: adds_route_def set_address_def set_mtu_def delete_default_def delete_default_via_def set_dns_def)
  qed
qed (use assms in \<open>auto simp: configureTunnelInterface_def split: sum.splits if_splits\<close>)

text \<open>
  In full mode, when the server's address and the present default route are known, the host route
  to the server is added before the default route moves into the tunnel; whether the last step
  succeeds or not, what was done before stays done.
\<close>

lemma full_mode_commands:
  assumes "cidrToMask cidr = Inr (ip, msk)" "succeeds os (''netsh'' # set_address name ip msk gateway) m"
    and "resolveEndpointToIPv4 rs serverEndpoint = Inr serverIP"
    and "fst (getPrimaryDefaultRoute os (after_cmd os (''netsh'' # set_mtu name)
           (after_cmd os (''netsh'' # set_address name ip msk gateway) m))) = Inr defRoute"
    and "NextHop defRoute \<noteq> []" "0 < IfIndex defRoute"
    and "configureTunnelInterface os rs True name cidr gateway True serverEndpoint m = (r, m')"
  shows "cmds m' = cmds m @ [''netsh'' # set_address name ip msk gateway, ''netsh'' # set_mtu name,
      [''powershell'', ''-NoProfile'', ''-Command'', powershell_query],
      ''route'' # route_delete serverIP, ''route'' # route_add serverIP defRoute,
      ''netsh'' # delete_default name, ''netsh'' # add_default name gateway]
    @ (if is_ok r then [''netsh'' # set_dns name [''static'', ''1.1.1.1'']] else [])"
proof -
  obtain q m1 where a: "runNetsh os (set_address name ip msk gateway) m = (q, m1)" by (metis prod.exhaust)
  have q: "q = Inr ()"
    using a assms(2) runCmd_ran(2) [of os "''netsh''" "set_address name ip msk gateway" m]
    by (cases q) (auto simp: runNetsh_def)
  note m1 = runNetsh_eq [OF a]
  define m2 where "m2 = after_cmd os (''netsh'' # set_mtu name) m1"
  obtain m3 where p: "getPrimaryDefaultRoute os m2 = (Inr defRoute, m3)"
    using assms(4) m1 by (cases "getPrimaryDefaultRoute os m2") (simp add: m2_def)
  have m3: "cmds m3 = cmds m2 @ [[''powershell'', ''-NoProfile'', ''-Command'', powershell_query]]"
    using getPrimaryDefaultRoute_ran [of os m2] p by simp
  define m4 where "m4 = ensureServerBypassRoute os rs serverEndpoint m2"
  have m4: "cmds m4 = cmds m3 @ [''route'' # route_delete serverIP, ''route'' # route_add serverIP defRoute]"
    using assms(3,5,6) p by (simp add: m4_def ensureServerBypassRoute_def)
  obtain q5 m5 where 5: "runNetsh os (add_default name gateway) (after_cmd os (''netsh'' # delete_default name) m4) = (q5, m5)"
    by (metis prod.exhaust)
  note m5 = runNetsh_eq [OF 5]
  have "(r, m') = (case q5 of Inl e \<Rightarrow> (Inl e, m5) | Inr _ \<Rightarrow> (Inr (), after_cmd os (''netsh'' # set_dns name [''static'', ''1.1.1.1'']) m5))"
    using assms(1,7) a q 5 unfolding m4_def m2_def
    by (auto simp: configureTunnelInterface_def Let_def split: sum.splits)
  then show ?thesis
    using m5 m4 m3 m1 by (cases q5) (simp_all add: m2_def)
qed

text \<open>When the default route cannot be added, the session ends without the clean-up.\<close>

lemma failed_start_keeps_bypass:
  assumes "cidrToMask (wc_TunCIDR cfg) = Inr (ip, msk)" "wc_TunSetDefaultRoute cfg"
    and "succeeds os (''netsh'' # set_address name ip msk (wc_TunGateway cfg)) m"
    and "resolveEndpointToIPv4 rs (wc_ServerTCP cfg) = Inr serverIP"
    and "fst (getPrimaryDefaultRoute os (after_cmd os (''netsh'' # set_mtu name)
           (after_cmd os (''netsh'' # set_address name ip msk (wc_TunGateway cfg)) m))) = Inr defRoute"
    and "NextHop defRoute \<noteq> []" "0 < IfIndex defRoute"
    and "startTunnel os rs True (Inr name) cfg m = (Inl e, m')"
  shows "\<exists>before. cmds m' = cmds m @ before @ [''route'' # route_add serverIP defRoute,
    ''netsh'' # delete_default name, ''netsh'' # add_default name (wc_TunGateway cfg)]"
proof -
  obtain r m1 where c: "configureTunnelInterface os rs True name (wc_TunCIDR cfg) (wc_TunGateway cfg) True
      (wc_ServerTCP cfg) m = (r, m1)" by (metis prod.exhaust)
  then have "r = Inl e" "m1 = m'" using assms(2,8) by (auto simp: startTunnel_def split: sum.splits)
  then show ?thesis
    using full_mode_commands [OF assms(1,3-7) c] by simp
qed

end
