(* ===== verification/Mux.thy ===== *)
theory Mux
  imports Prelude
begin

text \<open>
  \<open>mux/mux.go\<close>: stream multiplexing over Go channels. A session's map holds references to
  channels, so channels live in a store; a channel has a buffer of 32 payloads and may be
  closed. First the four operations as the code runs them without interference, with the
  panics Go raises (send on a closed channel, close of a closed channel); then the small-step
  system in which the locked and the unlocked parts of concurrent calls interleave.
\<close>

subsection \<open>Channels\<close>

type_synonym chan_ref = nat

record chan =
  chan_buf :: "bytes list"
  chan_closed :: bool

definition chan_capacity :: nat where
  "chan_capacity = 32"

datatype send_result = Sent chan | Full | SendPanic

text \<open>\<open>select { case ch <- v: default: }\<close>\<close>

definition try_send :: "chan \<Rightarrow> bytes \<Rightarrow> send_result" where
  "try_send c v =
     (if chan_closed c then SendPanic
      else if length (chan_buf c) < chan_capacity then Sent (c\<lparr>chan_buf := chan_buf c @ [v]\<rparr>)
      else Full)"

subsection \<open>The session\<close>

record Session =
  nextStreamID :: "32 word"
  streams :: "32 word \<rightharpoonup> chan_ref"
  chans :: "chan_ref \<Rightarrow> chan"
  next_chan :: nat

record Frame =
  frame_StreamID :: "32 word"
  frame_Payload :: bytes

definition fresh_chan :: chan where
  "fresh_chan = \<lparr>chan_buf = [], chan_closed = False\<rparr>"

definition NewSession :: Session where
  "NewSession = \<lparr>nextStreamID = 1, streams = Map.empty, chans = (\<lambda>_. fresh_chan), next_chan = 0\<rparr>"

definition alloc_id :: "Session \<Rightarrow> (32 word \<times> chan_ref) \<times> Session" where
  "alloc_id s = ((nextStreamID s + 1, next_chan s),
     s\<lparr>nextStreamID := nextStreamID s + 1, chans := (chans s)(next_chan s := fresh_chan),
       next_chan := Suc (next_chan s)\<rparr>)"

definition insert_stream :: "32 word \<Rightarrow> chan_ref \<Rightarrow> Session \<Rightarrow> Session" where
  "insert_stream sid ch s = s\<lparr>streams := (streams s)(sid \<mapsto> ch)\<rparr>"

definition NewStream :: "Session \<Rightarrow> (32 word \<times> chan_ref) \<times> Session" where
  "NewStream s = (case alloc_id s of ((sid, ch), s') \<Rightarrow> ((sid, ch), insert_stream sid ch s'))"

definition set_chan :: "chan_ref \<Rightarrow> chan \<Rightarrow> Session \<Rightarrow> Session" where
  "set_chan ch c s = s\<lparr>chans := (chans s)(ch := c)\<rparr>"

text \<open>\<open>None\<close> is a panic.\<close>

definition Push :: "Frame \<Rightarrow> Session \<Rightarrow> Session option" where
  "Push frame s = (case streams s (frame_StreamID frame) of
     None \<Rightarrow> Some s
   | Some ch \<Rightarrow> (case try_send (chans s ch) (frame_Payload frame) of
       Sent c \<Rightarrow> Some (set_chan ch c s)
     | Full \<Rightarrow> Some s
     | SendPanic \<Rightarrow> None))"

definition close_chan :: "chan \<Rightarrow> chan option" where
  "close_chan c = (if chan_closed c then None else Some (c\<lparr>chan_closed := True\<rparr>))"

definition delete_stream :: "32 word \<Rightarrow> Session \<Rightarrow> Session" where
  "delete_stream sid s = s\<lparr>streams := (streams s)(sid := None)\<rparr>"

definition CloseStream :: "32 word \<Rightarrow> Session \<Rightarrow> Session option" where
  "CloseStream sid s = (let s' = delete_stream sid s in
     case streams s sid of
       None \<Rightarrow> Some s'
     | Some ch \<Rightarrow> (case close_chan (chans s ch) of
         None \<Rightarrow> None
       | Some c \<Rightarrow> Some (set_chan ch c s')))"

text \<open>The reader's side of a channel: the oldest payload, if there is one.\<close>

definition Receive :: "chan_ref \<Rightarrow> Session \<Rightarrow> bytes option \<times> Session" where
  "Receive ch s = (case chan_buf (chans s ch) of
     [] \<Rightarrow> (None, s)
   | v # vs \<Rightarrow> (Some v, set_chan ch ((chans s ch)\<lparr>chan_buf := vs\<rparr>) s))"

subsection \<open>Invariant without interference\<close>

definition mux_inv :: "Session \<Rightarrow> bool" where
  "mux_inv s \<longleftrightarrow>
     (\<forall>sid ch. streams s sid = Some ch \<longrightarrow> ch < next_chan s \<and> \<not> chan_closed (chans s ch)) \<and>
     (\<forall>i j ch. streams s i = Some ch \<longrightarrow> streams s j = Some ch \<longrightarrow> i = j) \<and>
     (\<forall>ch. length (chan_buf (chans s ch)) \<le> chan_capacity)"

lemma mux_inv_New: "mux_inv NewSession"
  by (simp add: mux_inv_def NewSession_def fresh_chan_def)

lemma mux_inv_NewStream:
  assumes inv: "mux_inv s" and new: "NewStream s = (r, s')"
  shows "mux_inv s'"
proof -
  have s': "streams s' = (streams s)(nextStreamID s + 1 \<mapsto> next_chan s)"
      "chans s' = (chans s)(next_chan s := fresh_chan)" "next_chan s' = Suc (next_chan s)"
    using new by (auto simp: NewStream_def alloc_id_def insert_stream_def)
  have old: "ch < next_chan s \<and> \<not> chan_closed (chans s ch)" if "streams s i = Some ch" for i ch
    using inv that by (simp add: mux_inv_def)
  have inj: "i = j" if "streams s i = Some ch" "streams s j = Some ch" for i ch j
    using inv that unfolding mux_inv_def by blast
  have "ch < next_chan s' \<and> \<not> chan_closed (chans s' ch)" if "streams s' i = Some ch" for i ch
    using that old [of i ch] by (simp add: s' fresh_chan_def split: if_splits)
  moreover have "i = j" if i: "streams s' i = Some ch" and j: "streams s' j = Some ch" for i j ch
  proof -
    have cases: "k = nextStreamID s + 1 \<and> ch = next_chan s \<or> streams s k = Some ch"
      if "streams s' k = Some ch" for k
      using that s'(1) by (simp add: fun_upd_apply split: if_splits)
    have no: "streams s k \<noteq> Some (next_chan s)" for k
      using old [of k "next_chan s"] by blast
    show ?thesis using cases [OF i] cases [OF j] no inj by metis
  qed
  moreover have "length (chan_buf (chans s' ch)) \<le> chan_capacity" for ch
    using inv by (simp add: s' mux_inv_def fresh_chan_def)
  ultimately show ?thesis unfolding mux_inv_def by blast
qed

lemma mux_inv_Push:
  assumes "mux_inv s"
  shows "\<exists>s'. Push f s = Some s' \<and> mux_inv s'"
  using assms
  by (auto simp: Push_def try_send_def mux_inv_def set_chan_def split: option.splits)

lemma mux_inv_CloseStream:
  assumes "mux_inv s"
  shows "\<exists>s'. CloseStream sid s = Some s' \<and> mux_inv s'"
  using assms
  by (auto simp: CloseStream_def close_chan_def mux_inv_def set_chan_def delete_stream_def Let_def
      split: option.splits)

lemma mux_inv_Receive:
  assumes "mux_inv s" "Receive ch s = (r, s')"
  shows "mux_inv s'"
proof (cases "chan_buf (chans s ch)")
  case Nil
  with assms show ?thesis by (simp add: Receive_def)
next
  case (Cons v vs)
  then have "length vs \<le> chan_capacity"
    using assms(1) by (auto simp: mux_inv_def dest!: spec [of _ ch])
  moreover have "s' = set_chan ch ((chans s ch)\<lparr>chan_buf := vs\<rparr>) s"
    using assms(2) Cons by (simp add: Receive_def)
  ultimately show ?thesis
    using assms(1) by (simp add: mux_inv_def set_chan_def)
qed

datatype mux_op = OpNew | OpPush Frame | OpClose "32 word" | OpReceive chan_ref

fun mux_exec :: "mux_op \<Rightarrow> Session \<Rightarrow> Session option" where
  "mux_exec OpNew s = Some (snd (NewStream s))"
| "mux_exec (OpPush f) s = Push f s"
| "mux_exec (OpClose sid) s = CloseStream sid s"
| "mux_exec (OpReceive ch) s = Some (snd (Receive ch s))"

fun mux_run :: "mux_op list \<Rightarrow> Session \<Rightarrow> Session option" where
  "mux_run [] s = Some s"
| "mux_run (x # xs) s = (case mux_exec x s of None \<Rightarrow> None | Some s' \<Rightarrow> mux_run xs s')"

lemma mux_run_inv: "mux_inv s \<Longrightarrow> \<exists>s'. mux_run ops s = Some s' \<and> mux_inv s'"
proof (induction ops arbitrary: s)
  case (Cons x xs)
  have "\<exists>s1. mux_exec x s = Some s1 \<and> mux_inv s1"
  proof (cases x)
    case OpNew
    then show ?thesis using mux_inv_NewStream [OF Cons.prems, of "fst (NewStream s)"] by simp
  next
    case (OpReceive ch)
    then show ?thesis using mux_inv_Receive [OF Cons.prems, of ch "fst (Receive ch s)"] by simp
  qed (use Cons.prems mux_inv_Push mux_inv_CloseStream in auto)
  with Cons.IH show ?case by auto
qed simp

text \<open>What a stream delivers: payloads in the order they were accepted.\<close>

lemma Push_delivers:
  assumes "streams s (frame_StreamID f) = Some ch" "\<not> chan_closed (chans s ch)"
    "length (chan_buf (chans s ch)) < chan_capacity"
  shows "\<exists>s'. Push f s = Some s' \<and> chan_buf (chans s' ch) = chan_buf (chans s ch) @ [frame_Payload f]
    \<and> streams s' = streams s \<and> (\<forall>c. c \<noteq> ch \<longrightarrow> chans s' c = chans s c)"
  using assms by (simp add: Push_def try_send_def set_chan_def)

lemma Push_drops:
  assumes "streams s (frame_StreamID f) = Some ch" "\<not> chan_closed (chans s ch)"
    "chan_capacity \<le> length (chan_buf (chans s ch))"
  shows "Push f s = Some s"
  using assms by (simp add: Push_def try_send_def)

subsection \<open>Stream identifiers\<close>

fun new_streams :: "nat \<Rightarrow> Session \<Rightarrow> 32 word list" where
  "new_streams 0 s = []"
| "new_streams (Suc n) s = (case NewStream s of ((sid, ch), s') \<Rightarrow> sid # new_streams n s')"

lemma NewStream_id: "NewStream s = ((sid, ch), s') \<Longrightarrow>
    sid = nextStreamID s + 1 \<and> nextStreamID s' = nextStreamID s + 1"
  by (auto simp: NewStream_def alloc_id_def insert_stream_def)

lemma new_streams_eq: "new_streams n s = map (\<lambda>i. nextStreamID s + word_of_nat (Suc i)) [0..<n]"
proof (induction n arbitrary: s)
  case (Suc n)
  obtain sid ch s' where ns: "NewStream s = ((sid, ch), s')" by (metis surj_pair)
  note i = NewStream_id [OF ns]
  have "map (\<lambda>i. nextStreamID s + word_of_nat (Suc i)) [0..<Suc n]
      = (nextStreamID s + 1) # map (\<lambda>i. nextStreamID s + word_of_nat (Suc (Suc i))) [0..<n]"
    by (simp add: upt_conv_Cons map_Suc_upt [symmetric] o_def del: upt_Suc)
  with ns i Suc show ?case by (simp add: add.assoc)
qed simp

lemma new_streams_distinct:
  assumes "n \<le> 2 ^ 32"
  shows "distinct (new_streams n s)"
proof -
  have "inj_on (\<lambda>i. nextStreamID s + word_of_nat (Suc i)) {0..<n}"
  proof (rule inj_onI)
    fix i j assume ij: "i \<in> {0..<n}" "j \<in> {0..<n}"
      and "nextStreamID s + word_of_nat (Suc i) = nextStreamID s + word_of_nat (Suc j)"
    then have "(word_of_nat i :: 32 word) = word_of_nat j" by simp
    then have "unat (word_of_nat i :: 32 word) = unat (word_of_nat j :: 32 word)" by simp
    with ij assms show "i = j" by (simp add: unat_of_nat)
  qed
  then show ?thesis by (simp add: new_streams_eq distinct_map)
qed

subsection \<open>Concurrent calls\<close>

text \<open>
  A call that has released the lock and still has to act on its channel is a pending task:
  \<open>NewStream\<close> between taking the identifier and entering the map, \<open>Push\<close> between the lookup
  and the send, \<open>CloseStream\<close> between the delete and the close.
\<close>

datatype task = TInsert "32 word" chan_ref | TSend chan_ref bytes | TClose chan_ref

record mux_sys =
  sys_session :: Session
  sys_tasks :: "task list"
  sys_panic :: bool

definition mux_init :: mux_sys where
  "mux_init = \<lparr>sys_session = NewSession, sys_tasks = [], sys_panic = False\<rparr>"

inductive mux_step :: "mux_sys \<Rightarrow> mux_sys \<Rightarrow> bool" where
  new_alloc: "alloc_id s = ((sid, ch), s') \<Longrightarrow>
    mux_step \<lparr>sys_session = s, sys_tasks = ts, sys_panic = False\<rparr>
             \<lparr>sys_session = s', sys_tasks = TInsert sid ch # ts, sys_panic = False\<rparr>"
| new_insert:
    "mux_step \<lparr>sys_session = s, sys_tasks = as @ TInsert sid ch # bs, sys_panic = False\<rparr>
              \<lparr>sys_session = insert_stream sid ch s, sys_tasks = as @ bs, sys_panic = False\<rparr>"
| push_lookup: "streams s sid = Some ch \<Longrightarrow>
    mux_step \<lparr>sys_session = s, sys_tasks = ts, sys_panic = False\<rparr>
             \<lparr>sys_session = s, sys_tasks = TSend ch v # ts, sys_panic = False\<rparr>"
| push_sent: "try_send (chans s ch) v = Sent c \<Longrightarrow>
    mux_step \<lparr>sys_session = s, sys_tasks = as @ TSend ch v # bs, sys_panic = False\<rparr>
             \<lparr>sys_session = set_chan ch c s, sys_tasks = as @ bs, sys_panic = False\<rparr>"
| push_full: "try_send (chans s ch) v = Full \<Longrightarrow>
    mux_step \<lparr>sys_session = s, sys_tasks = as @ TSend ch v # bs, sys_panic = False\<rparr>
             \<lparr>sys_session = s, sys_tasks = as @ bs, sys_panic = False\<rparr>"
| push_panic: "try_send (chans s ch) v = SendPanic \<Longrightarrow>
    mux_step \<lparr>sys_session = s, sys_tasks = as @ TSend ch v # bs, sys_panic = False\<rparr>
             \<lparr>sys_session = s, sys_tasks = as @ bs, sys_panic = True\<rparr>"
| close_delete: "streams s sid = Some ch \<Longrightarrow>
    mux_step \<lparr>sys_session = s, sys_tasks = ts, sys_panic = False\<rparr>
             \<lparr>sys_session = delete_stream sid s, sys_tasks = TClose ch # ts, sys_panic = False\<rparr>"
| close_done: "close_chan (chans s ch) = Some c \<Longrightarrow>
    mux_step \<lparr>sys_session = s, sys_tasks = as @ TClose ch # bs, sys_panic = False\<rparr>
             \<lparr>sys_session = set_chan ch c s, sys_tasks = as @ bs, sys_panic = False\<rparr>"
| close_panic: "close_chan (chans s ch) = None \<Longrightarrow>
    mux_step \<lparr>sys_session = s, sys_tasks = as @ TClose ch # bs, sys_panic = False\<rparr>
             \<lparr>sys_session = s, sys_tasks = as @ bs, sys_panic = True\<rparr>"
| receive: "Receive ch s = (r, s') \<Longrightarrow>
    mux_step \<lparr>sys_session = s, sys_tasks = ts, sys_panic = False\<rparr>
             \<lparr>sys_session = s', sys_tasks = ts, sys_panic = False\<rparr>"

inductive mux_reachable :: "mux_sys \<Rightarrow> bool" where
  init: "mux_reachable mux_init"
| step: "mux_reachable x \<Longrightarrow> mux_step x y \<Longrightarrow> mux_reachable y"

text \<open>The channels some call may still insert or close, with repetitions.\<close>

fun task_owns :: "task \<Rightarrow> chan_ref list" where
  "task_owns (TInsert sid ch) = [ch]"
| "task_owns (TSend ch v) = []"
| "task_owns (TClose ch) = [ch]"

definition owned :: "task list \<Rightarrow> chan_ref list" where
  "owned ts = concat (map task_owns ts)"

lemma owned_simps [simp]: "owned [] = []" "owned (t # ts) = task_owns t @ owned ts"
    "owned (as @ bs) = owned as @ owned bs"
  by (simp_all add: owned_def)

text \<open>
  Ownership: every channel is entered in the map once or owned by one pending task, and such a
  channel is open. A channel is closed only by its owner, so no close meets a closed channel;
  a pending send owns nothing, which is why its channel may be closed under it.
\<close>

definition live :: "Session \<Rightarrow> chan_ref \<Rightarrow> bool" where
  "live s ch \<longleftrightarrow> ch < next_chan s \<and> \<not> chan_closed (chans s ch)"

definition own_inv :: "Session \<Rightarrow> task list \<Rightarrow> bool" where
  "own_inv s ts \<longleftrightarrow> distinct (owned ts) \<and> set (owned ts) \<inter> ran (streams s) = {} \<and>
     inj_on (streams s) (dom (streams s)) \<and>
     (\<forall>ch \<in> set (owned ts) \<union> ran (streams s). live s ch)"

lemma own_invD:
  assumes "own_inv s ts"
  shows "distinct (owned ts)" "set (owned ts) \<inter> ran (streams s) = {}"
    "inj_on (streams s) (dom (streams s))" "ch \<in> set (owned ts) \<Longrightarrow> live s ch"
    "ch \<in> ran (streams s) \<Longrightarrow> live s ch"
  using assms by (auto simp: own_inv_def)

text \<open>A change of the session that keeps the map and the owned channels open keeps ownership.\<close>

lemma own_inv_frame:
  assumes "own_inv s ts" "streams s' = streams s" "owned ts' = owned ts"
    "\<And>ch. live s ch \<Longrightarrow> live s' ch"
  shows "own_inv s' ts'"
  using assms by (auto simp: own_inv_def)

lemma live_set_chan: "live s c \<Longrightarrow> chan_closed d = chan_closed (chans s ch) \<Longrightarrow> live (set_chan ch d s) c"
  by (auto simp: live_def set_chan_def)

lemma own_inv_alloc:
  assumes "own_inv s ts" "alloc_id s = ((sid, ch), s')"
  shows "own_inv s' (TInsert sid ch # ts)"
proof -
  have s': "streams s' = streams s" "ch = next_chan s" "live s' ch"
    and mono: "\<And>c. live s c \<Longrightarrow> live s' c \<and> c \<noteq> ch"
    using assms(2) by (auto simp: alloc_id_def live_def fresh_chan_def)
  then show ?thesis using assms(1) by (auto simp: own_inv_def)
qed

lemma own_inv_insert:
  assumes "own_inv s (as @ TInsert sid ch # bs)"
  shows "own_inv (insert_stream sid ch s) (as @ bs)"
proof -
  let ?s = "insert_stream sid ch s"
  have st: "streams ?s = (streams s)(sid \<mapsto> ch)" and live: "live ?s = live s"
    by (auto simp: insert_stream_def live_def fun_eq_iff)
  have "ran (streams ?s) \<subseteq> insert ch (ran (streams s))"
    by (auto simp: st ran_def split: if_splits)
  moreover have "inj_on (streams ?s) (dom (streams ?s))"
    using assms by (auto simp: own_inv_def st inj_on_def ran_def split: if_splits)
  ultimately show ?thesis using assms by (auto simp: own_inv_def live)
qed

lemma own_inv_delete:
  assumes "own_inv s ts" "streams s sid = Some ch"
  shows "own_inv (delete_stream sid s) (TClose ch # ts)"
proof -
  let ?s = "delete_stream sid s"
  have st: "streams ?s = (streams s)(sid := None)" and live: "live ?s = live s"
    by (auto simp: delete_stream_def live_def fun_eq_iff)
  have "ch \<in> ran (streams s)" using assms(2) by (auto simp: ran_def)
  moreover have "streams s k \<noteq> Some ch" if "k \<noteq> sid" for k
    using inj_onD [OF own_invD(3) [OF assms(1)], of k sid] assms(2) that by auto
  then have "ran (streams ?s) \<subseteq> ran (streams s) - {ch}"
    by (auto simp: st ran_def split: if_splits)
  moreover have "inj_on (streams ?s) (dom (streams ?s))"
    using own_invD(3) [OF assms(1)] by (auto simp: st inj_on_def split: if_splits)
  ultimately show ?thesis using assms(1) by (auto simp: own_inv_def live)
qed

lemma own_inv_close:
  assumes "own_inv s (as @ TClose ch # bs)" "close_chan (chans s ch) = Some c"
  shows "own_inv (set_chan ch c s) (as @ bs)"
proof -
  have "live (set_chan ch c s) d" if "live s d" "d \<noteq> ch" for d
    using that by (simp add: live_def set_chan_def)
  moreover have "streams (set_chan ch c s) = streams s" by (simp add: set_chan_def)
  ultimately show ?thesis using assms(1) by (auto simp: own_inv_def)
qed

lemma mux_step_own:
  "mux_step x y \<Longrightarrow> own_inv (sys_session x) (sys_tasks x) \<Longrightarrow> own_inv (sys_session y) (sys_tasks y)"
proof (induction rule: mux_step.induct)
  case (push_sent s ch v c as bs)
  then have "chan_closed c = chan_closed (chans s ch)"
    by (auto simp: try_send_def split: if_splits)
  then have "own_inv (set_chan ch c s) (as @ bs)"
    by (intro own_inv_frame [OF push_sent.prems] live_set_chan) (simp_all add: set_chan_def)
  then show ?case by simp
next
  case (receive ch s r s' ts)
  have "own_inv s' ts"
  proof (cases "chan_buf (chans s ch)")
    case Nil
    with receive show ?thesis by (simp add: Receive_def)
  next
    case (Cons v vs)
    with receive.hyps have s': "s' = set_chan ch ((chans s ch)\<lparr>chan_buf := vs\<rparr>) s"
      by (simp add: Receive_def)
    have "own_inv s ts" using receive.prems by simp
    then show ?thesis unfolding s'
    proof (rule own_inv_frame)
      show "live s c \<Longrightarrow> live (set_chan ch ((chans s ch)\<lparr>chan_buf := vs\<rparr>) s) c" for c
        by (erule live_set_chan) simp
    qed (simp_all add: set_chan_def)
  qed
  then show ?case by simp
next
  case (close_panic s ch as bs)
  then show ?case by (auto simp: own_inv_def)
qed (auto intro: own_inv_alloc own_inv_insert own_inv_delete own_inv_close own_inv_frame)

lemma own_inv_init: "own_inv NewSession []"
  by (simp add: own_inv_def NewSession_def)

lemma mux_reachable_own: "mux_reachable x \<Longrightarrow> own_inv (sys_session x) (sys_tasks x)"
proof (induction rule: mux_reachable.induct)
  case init
  then show ?case by (simp add: mux_init_def own_inv_init)
qed (rule mux_step_own)

text \<open>So a close never panics, in any interleaving.\<close>

lemma mux_close_safe:
  assumes "mux_reachable x" "sys_tasks x = as @ TClose ch # bs"
  shows "close_chan (chans (sys_session x) ch) \<noteq> None"
proof -
  have "live (sys_session x) ch"
    using mux_reachable_own [OF assms(1)] assms(2) by (auto simp: own_inv_def)
  then show ?thesis by (simp add: live_def close_chan_def)
qed

text \<open>
  A send can: the stream is closed between \<open>Push\<close>'s lookup and its send. The run opens stream 2,
  looks it up for a push, closes it, and then sends.
\<close>

lemma mux_race_reaches_panic:
  "\<exists>x. mux_reachable x \<and> sys_panic x"
proof -
  let ?st = "\<lambda>s ts p. \<lparr>sys_session = s, sys_tasks = ts, sys_panic = p\<rparr>"
  obtain s1 where a: "alloc_id NewSession = ((2, 0), s1)"
    by (simp add: alloc_id_def NewSession_def)
  then have s1: "streams s1 = Map.empty" "chans s1 0 = fresh_chan"
    by (auto simp: alloc_id_def NewSession_def)
  let ?s2 = "insert_stream 2 0 s1"
  have s2: "streams ?s2 2 = Some 0" "chans ?s2 0 = fresh_chan"
    by (simp_all add: insert_stream_def s1)
  let ?s3 = "delete_stream 2 ?s2"
  have s3: "chans ?s3 0 = fresh_chan" by (simp add: delete_stream_def s2)
  let ?closed = "fresh_chan\<lparr>chan_closed := True\<rparr>"
  have cl: "close_chan (chans ?s3 0) = Some ?closed"
    by (simp add: s3 close_chan_def fresh_chan_def)
  let ?s4 = "set_chan 0 ?closed ?s3"
  have snd: "try_send (chans ?s4 0) [1] = SendPanic"
    by (simp add: set_chan_def try_send_def)
  have "mux_reachable (?st NewSession [] False)"
    using mux_reachable.init by (simp add: mux_init_def)
  then have "mux_reachable (?st s1 [TInsert 2 0] False)"
    by (rule mux_reachable.step) (rule mux_step.new_alloc [OF a])
  then have "mux_reachable (?st ?s2 [] False)"
    by (rule mux_reachable.step) (use mux_step.new_insert [of s1 "[]" 2 0 "[]"] in simp)
  then have "mux_reachable (?st ?s2 [TSend 0 [1]] False)"
    by (rule mux_reachable.step) (rule mux_step.push_lookup [OF s2(1)])
  then have "mux_reachable (?st ?s3 [TClose 0, TSend 0 [1]] False)"
    by (rule mux_reachable.step) (rule mux_step.close_delete [OF s2(1)])
  then have "mux_reachable (?st ?s4 [TSend 0 [1]] False)"
    by (rule mux_reachable.step) (use mux_step.close_done [OF cl, of "[]" "[TSend 0 [1]]"] in simp)
  then have "mux_reachable (?st ?s4 [] True)"
    by (rule mux_reachable.step) (use mux_step.push_panic [OF snd, of "[]" "[]"] in simp)
  then show ?thesis by (intro exI [of _ "?st ?s4 [] True"]) simp
qed

end
