(* ===== verification/Connections.thy ===== *)
theory Connections
  imports ServerRuns
begin

text \<open>
  The goroutine \<open>tcp.Server.Serve\<close> starts for a connection, with its buffering reader and the
  server's handler. Shown: it handles a prefix of the frames of the stream, all of them unless
  the connection is closed, so it is a run of the server; and what the reader still has in its
  buffer when the server closes the connection is handled without effect.
\<close>

subsection \<open>The loop\<close>

lemma bufio_readFrame_shorter:
  assumes "bufio_readFrame fin buf conn = ((Inr p, buf'), conn')"
  shows "length buf' + length (concat conn') < length buf + length (concat conn)"
proof -
  obtain s' where "readFrame fin (buf @ concat conn) = (Inr p, s')" "buf' @ concat conn' = s'"
    using bufio_readFrame_spec [OF assms] by (cases "readFrame fin (buf @ concat conn)") auto
  then show ?thesis using readFrame_shorter by (metis length_append)
qed

text \<open>
  \<open>buf\<close> is what the reader holds, \<open>conn\<close> the chunks still to be read. After the handler has closed
  the connection a read fails, but what is in the buffer is still served.
\<close>

function serve_loop ::
  "go_error \<Rightarrow> (nat \<Rightarrow> bytes \<Rightarrow> 's \<Rightarrow> 's) \<Rightarrow> ('s \<Rightarrow> bool) \<Rightarrow> nat \<Rightarrow> bytes \<Rightarrow> bytes list \<Rightarrow> 's \<Rightarrow> 's" where
  "serve_loop fin handler closed k buf conn s =
     (case bufio_readFrame fin buf conn of
        ((Inl e, buf'), conn') \<Rightarrow> s
      | ((Inr payload, buf'), conn') \<Rightarrow>
          (let s' = handler k payload s
           in serve_loop fin handler closed (Suc k) buf' (if closed s' then [] else conn') s'))"
  by pat_completeness auto
termination
  by (relation "measure (\<lambda>(fin, handler, closed, k, buf, conn, s). length buf + length (concat conn))")
    (auto dest!: sym [of _ "bufio_readFrame _ _ _"] bufio_readFrame_shorter simp del: length_concat)

declare serve_loop.simps [simp del]

fun handle_frames :: "(nat \<Rightarrow> bytes \<Rightarrow> 's \<Rightarrow> 's) \<Rightarrow> nat \<Rightarrow> bytes list \<Rightarrow> 's \<Rightarrow> 's" where
  "handle_frames handler k [] s = s"
| "handle_frames handler k (p # ps) s = handle_frames handler (Suc k) ps (handler k p s)"

lemma readFrame_append: "readFrame fin a = (Inr p, a') \<Longrightarrow> readFrame fin (a @ b) = (Inr p, a' @ b)"
  by (auto simp: readFrame_def read_exact_def Let_def nth_append split: if_splits)

lemma serve_frames_prefix: "\<exists>more. serve_frames fin (a @ b) = serve_frames fin a @ more"
proof (induction fin a rule: serve_frames.induct)
  case (1 fin a)
  obtain r a' where f: "readFrame fin a = (r, a')" by (metis prod.exhaust)
  show ?case
  proof (cases r)
    case (Inl e)
    with f show ?thesis by (subst (2) serve_frames.simps) simp
  next
    case (Inr p)
    with 1 [OF f [symmetric] Inr] f readFrame_append [of fin a p a' b] show ?thesis
      by (subst serve_frames.simps, subst (2) serve_frames.simps) auto
  qed
qed

text \<open>The loop handles the frames of the stream in order, all of them unless it closes the connection.\<close>

lemma serve_loop_prefix:
  "\<exists>handled rest. serve_frames fin (buf @ concat conn) = handled @ rest
     \<and> serve_loop fin handler closed k buf conn s = handle_frames handler k handled s
     \<and> (rest = [] \<or> (\<exists>n. 0 < n \<and> n \<le> length handled \<and> closed (handle_frames handler k (take n handled) s)))"
    (is "?P k buf conn s")
proof (induction fin handler closed k buf conn s rule: serve_loop.induct)
  case (1 fin handler closed k buf conn s)
  let ?P = "\<lambda>k buf conn s. \<exists>handled rest. serve_frames fin (buf @ concat conn) = handled @ rest
     \<and> serve_loop fin handler closed k buf conn s = handle_frames handler k handled s
     \<and> (rest = [] \<or> (\<exists>n. 0 < n \<and> n \<le> length handled \<and> closed (handle_frames handler k (take n handled) s)))"
  obtain r buf' conn' where b: "bufio_readFrame fin buf conn = ((r, buf'), conn')" by (metis prod.exhaust)
  show ?case
  proof (cases r)
    case (Inl e)
    then have "serve_frames fin (buf @ concat conn) = []"
      using bufio_readFrame_spec(1) [OF b] by (subst serve_frames.simps) (auto split: prod.splits)
    then show ?thesis using b Inl by (subst serve_loop.simps) simp
  next
    case (Inr p)
    have fr: "serve_frames fin (buf @ concat conn) = p # serve_frames fin (buf' @ concat conn')"
      using bufio_readFrame_spec [OF b] Inr by (subst serve_frames.simps) (auto split: prod.splits)
    define s' where "s' = handler k p s"
    define left where "left = (if closed s' then [] else conn')"
    have loop: "serve_loop fin handler closed k buf conn s = serve_loop fin handler closed (Suc k) buf' left s'"
      using b Inr by (subst serve_loop.simps) (simp add: s'_def left_def Let_def)
    obtain handled rest where h: "serve_frames fin (buf' @ concat left) = handled @ rest"
      "serve_loop fin handler closed (Suc k) buf' left s' = handle_frames handler (Suc k) handled s'"
      "rest = [] \<or> (\<exists>n. 0 < n \<and> n \<le> length handled \<and> closed (handle_frames handler (Suc k) (take n handled) s'))"
      using 1 [OF b [symmetric] refl Inr s'_def] unfolding left_def by blast
    obtain more where m: "serve_frames fin (buf' @ concat conn') = serve_frames fin (buf' @ concat left) @ more"
      using serve_frames_prefix [of fin buf' "concat conn'"] by (cases "closed s'") (auto simp: left_def)
    have "more = [] \<or> closed s'" using m by (auto simp: left_def)
    then consider "closed s'" | "rest @ more = []"
      | n where "0 < n" "n \<le> length handled" "closed (handle_frames handler (Suc k) (take n handled) s')"
      using h(3) by auto
    then have "rest @ more = [] \<or> (\<exists>n. 0 < n \<and> n \<le> length (p # handled)
        \<and> closed (handle_frames handler k (take n (p # handled)) s))"
    proof cases
      case 1
      then show ?thesis by (intro disjI2 exI [of _ 1]) (simp add: s'_def)
    next
      case (3 n)
      then show ?thesis by (intro disjI2 exI [of _ "Suc n"]) (simp add: s'_def)
    qed simp
    then show ?thesis
      using fr m h(1,2) loop by (intro exI [of _ "p # handled"] exI [of _ "rest @ more"]) (simp add: s'_def)
  qed
qed

subsection \<open>A connection of the server\<close>

definition closed_by :: "conn \<Rightarrow> Server \<Rightarrow> bool" where
  "closed_by c s \<longleftrightarrow> TCPClose c \<in> set (effects s)"

definition serve_connection :: "go_error \<Rightarrow> conn \<Rightarrow> (nat \<Rightarrow> env) \<Rightarrow> bytes list \<Rightarrow> Server \<Rightarrow> Server" where
  "serve_connection fin c envs conn s =
     serve_loop fin (\<lambda>k. handleTCPPayload (envs k) c) (closed_by c) 0 [] conn s"

lemma handle_frames_run:
  "\<exists>evs. handle_frames (\<lambda>k. handleTCPPayload (envs k) c) k ps s = fold server_step evs s \<and> length evs = length ps"
proof (induction ps arbitrary: k s)
  case (Cons p ps)
  then obtain evs where "handle_frames (\<lambda>k. handleTCPPayload (envs k) c) (Suc k) ps (handleTCPPayload (envs k) c p s)
      = fold server_step evs (handleTCPPayload (envs k) c p s)" "length evs = length ps" by blast
  then show ?case by (intro exI [of _ "EvTCP (envs k) c p # evs"]) simp
qed simp

lemma serve_connection_run: "\<exists>evs. serve_connection fin c envs conn s = fold server_step evs s"
  using serve_loop_prefix handle_frames_run unfolding serve_connection_def by metis

subsection \<open>After the close\<close>

text \<open>The part of the state that frames on a dead connection must not change.\<close>

definition same_sessions :: "Server \<Rightarrow> Server \<Rightarrow> bool" where
  "same_sessions s t \<longleftrightarrow> cfg t = cfg s \<and> conns t = conns s \<and> bySID t = bySID s \<and> tunnel_log t = tunnel_log s
     \<and> next_ptr s \<le> next_ptr t \<and> (\<forall>p < next_ptr s. heap t p = heap s p)"

lemma same_sessions_refl [simp]: "same_sessions s s"
  by (simp add: same_sessions_def)

lemma same_sessions_trans: "same_sessions s t \<Longrightarrow> same_sessions t u \<Longrightarrow> same_sessions s u"
  by (auto simp: same_sessions_def)

text \<open>
  A connection without a state gets a fresh one, and every outcome of the frame (a refusal, or an
  answer that cannot be written) takes it away again.
\<close>

lemma dead_write: "\<not> conn_ok env c \<Longrightarrow> tcp_WriteFrame env (Some c) w s = (False, s)"
  by (simp add: tcp_WriteFrame_def split: sum.splits)

lemma dead_fresh:
  assumes "conns s c = None" "\<not> conn_ok env c"
  defines "p \<equiv> next_ptr s" and "s1 \<equiv> snd (getConnState env c s)"
  assumes "cfg t = cfg s" "conns t = conns s1" "bySID t = bySID s" "tunnel_log t = tunnel_log s"
    "next_ptr t = Suc p" "\<And>q. q < p \<Longrightarrow> heap t q = heap s q" "sessionID (heap t p) = []"
  shows "same_sessions s (removeConnState c t)"
proof -
  have "conns t c = Some p" using assms(1,6) by (simp add: s1_def p_def getConnState_def Let_def)
  moreover have "(conns t)(c := None) = conns s"
    using assms(1,6) by (auto simp: s1_def p_def getConnState_def Let_def fun_eq_iff)
  ultimately show ?thesis
    using assms(5,7-11) by (simp add: same_sessions_def removeConnState_def p_def Let_def tunnel_log_def)
qed

lemma dead_frame:
  assumes "conns s c = None" "\<not> conn_ok env c"
  shows "same_sessions s (handleTCPPayload env c payload s)"
proof -
  have "same_sessions s (failConn env c m s)" for m
    using assms by (auto simp: failConn_def dead_write emit_def removeConnState_def same_sessions_def
        tunnel_log_def map_filter_def fun_eq_iff)
  moreover have "same_sessions s (let (p, s) = getConnState env c s in handleTCPState env c payload p s)"
  proof -
    define p where "p = next_ptr s"
    define s1 where "s1 = snd (getConnState env c s)"
    have g: "getConnState env c s = (p, s1)" and h: "heap s1 p = zero_connState\<lparr>lastSeen := clock env 0, st_conn := Some c\<rparr>"
      using assms(1) by (simp_all add: s1_def p_def getConnState_def Let_def)
    define s2 where "s2 = upd p (\<lambda>st. st\<lparr>lastSeen := clock env 1\<rparr>) s1"
    have e: "handleTCPState env c payload p s1 = handleHelloFrame env c payload p s2"
      by (simp add: handleTCPState_def handlePreSecureFrame_def s2_def upd_def h zero_connState_def Let_def)
    have sid: "sessionID (heap s2 p) = []" by (simp add: s2_def upd_def h zero_connState_def)
    have dead: "same_sessions s (removeConnState c t)"
      if "cfg t = cfg s" "conns t = conns s1" "bySID t = bySID s" "tunnel_log t = tunnel_log s"
        "next_ptr t = Suc p" "\<And>q. q < p \<Longrightarrow> heap t q = heap s q" "sessionID (heap t p) = []" for t
      by (rule dead_fresh [OF assms]) (use that in \<open>simp_all add: p_def s1_def\<close>)
    have s2: "cfg s2 = cfg s" "conns s2 = conns s1" "bySID s2 = bySID s" "tunnel_log s2 = tunnel_log s"
        "next_ptr s2 = Suc p" "q < p \<Longrightarrow> heap s2 q = heap s q" for q
      using assms(1) by (auto simp: s2_def upd_def s1_def p_def getConnState_def Let_def tunnel_log_def)
    have fail: "same_sessions s (failConn env c m s2)" for m
    proof -
      have "tunnel_log (s2\<lparr>effects := effects s2 @ [TCPClose c]\<rparr>) = tunnel_log s"
        using tunnel_log_emit [of "TCPClose c" s2] s2(4) by (simp add: emit_def)
      then have "same_sessions s (removeConnState c (s2\<lparr>effects := effects s2 @ [TCPClose c]\<rparr>))"
        by (intro dead) (simp_all add: s2 sid)
      then show ?thesis by (simp add: failConn_def dead_write [OF assms(2)] emit_def Let_def)
    qed
    have upds: "same_sessions s (removeConnState c (upd p f (upd p g s2)))"
      if "sessionID (f (g (heap s2 p))) = []" for f g
      by (rule dead) (use that s2 in \<open>simp_all add: upd_def tunnel_log_def\<close>)
    have "same_sessions s (handleHelloFrame env c payload p s2)"
      using sid by (auto simp: handleHelloFrame_def remove_on_error_def dead_write [OF assms(2)] Let_def
          intro!: fail upds split: sum.splits)
    then show ?thesis by (simp add: g e)
  qed
  ultimately show ?thesis
    using assms(2) by (simp add: handleTCPPayload_def dead_write)
qed

lemma dead_frames:
  assumes "conns s c = None" "\<And>k. \<not> conn_ok (envs k) c"
  shows "same_sessions s (handle_frames (\<lambda>k. handleTCPPayload (envs k) c) k ps s)"
  using assms(1)
proof (induction ps arbitrary: k s)
  case (Cons p ps)
  have "same_sessions s (handleTCPPayload (envs k) c p s)" by (rule dead_frame [OF Cons.prems assms(2)])
  moreover from this have "conns (handleTCPPayload (envs k) c p s) c = None"
    using Cons.prems by (simp add: same_sessions_def)
  ultimately show ?case using same_sessions_trans Cons.IH [of "handleTCPPayload (envs k) c p s" "Suc k"] by simp
qed simp

lemma dead_connection:
  assumes "conns s c = None" "\<And>k. \<not> conn_ok (envs k) c"
  shows "same_sessions s (serve_loop fin (\<lambda>k. handleTCPPayload (envs k) c) closed k buf conn s)"
proof -
  obtain ps where "serve_loop fin (\<lambda>k. handleTCPPayload (envs k) c) closed k buf conn s
      = handle_frames (\<lambda>k. handleTCPPayload (envs k) c) k ps s"
    using serve_loop_prefix [of fin buf conn "\<lambda>k. handleTCPPayload (envs k) c" closed k s] by (elim exE conjE) blast
  then show ?thesis using dead_frames [OF assms] by simp
qed

end
