(* ===== verification/Wintun.thy ===== *)
theory Wintun
  imports Prelude
begin

text \<open>
  \<open>winclient/tunnel_device_windows.go\<close>: the tunnel device of the Windows client, over the wintun
  adapter. The adapter and its session are outside the program: what their calls answer is an
  argument, which calls are made is recorded. Shown: a device is closed at most once, a read
  returns only for a packet, an error or a closed device, and never with an empty packet.
\<close>

subsection \<open>Opening and closing\<close>

datatype wintun_call = OpenAdapter string | CreateAdapter string | StartSession | CloseAdapter | EndSession
  | SendPacket bytes

record wireguardTunDevice =
  iface :: string
  dev_closed :: bool
  calls :: "wintun_call list"

text \<open>\<open>opened\<close>, \<open>created\<close> and \<open>started\<close> are whether the three calls of the package succeed.\<close>

definition openTunnelDevice ::
  "bool \<Rightarrow> bool \<Rightarrow> bool \<Rightarrow> string \<Rightarrow> wireguardTunDevice result \<times> wintun_call list" where
  "openTunnelDevice opened created started name =
     (let cs = (if opened then [OpenAdapter name] else [OpenAdapter name, CreateAdapter name])
      in if \<not> opened \<and> \<not> created then (Inl EOs, cs)
         else if \<not> started then (Inl EOs, cs @ [StartSession, CloseAdapter])
         else (Inr \<lparr>iface = name, dev_closed = False, calls = cs @ [StartSession]\<rparr>, cs @ [StartSession]))"

definition dev_Close :: "wireguardTunDevice \<Rightarrow> wireguardTunDevice" where
  "dev_Close w = (if dev_closed w then w
     else w\<lparr>dev_closed := True, calls := calls w @ [EndSession, CloseAdapter]\<rparr>)"

definition dev_Name :: "wireguardTunDevice \<Rightarrow> string result" where
  "dev_Name w = Inr (iface w)"

text \<open>\<open>room\<close> is the outcome of \<open>AllocateSendPacket\<close>.\<close>

definition wintun_WritePacket :: "unit result \<Rightarrow> bytes \<Rightarrow> wireguardTunDevice \<Rightarrow> unit result \<times> wireguardTunDevice" where
  "wintun_WritePacket room packet w =
     (if dev_closed w then (Inl (EMsg ''tunnel closed''), w)
      else case room of
        Inl e \<Rightarrow> (Inl e, w)
      | Inr _ \<Rightarrow> (Inr (), w\<lparr>calls := calls w @ [SendPacket packet]\<rparr>))"

subsection \<open>Reading\<close>

text \<open>
  What one pass of the loop of \<open>ReadPacket\<close> sees: the closed flag at its head, the answer of
  \<open>ReceivePacket\<close>, and when there was no packet the answer of the wait and the flag after it.
\<close>

datatype received = Packet bytes | NoMoreItems | ReceiveError go_error

record read_pass =
  closed_before :: bool
  received_as :: received
  wait_error :: "go_error option"
  closed_after :: bool

text \<open>\<open>None\<close>: the loop is still waiting after these passes.\<close>

fun wintun_ReadPacket :: "read_pass list \<Rightarrow> bytes result option" where
  "wintun_ReadPacket [] = None"
| "wintun_ReadPacket (p # ps) =
     (if closed_before p then Some (Inl (EMsg ''tunnel closed''))
      else case received_as p of
        ReceiveError e \<Rightarrow> Some (Inl e)
      | NoMoreItems \<Rightarrow>
        (case wait_error p of
           Some e \<Rightarrow> Some (Inl e)
         | None \<Rightarrow> if closed_after p then Some (Inl (EMsg ''tunnel closed'')) else wintun_ReadPacket ps)
      | Packet out \<Rightarrow> if length out = 0 then wintun_ReadPacket ps else Some (Inr out))"

definition quiet_pass :: "read_pass \<Rightarrow> bool" where
  "quiet_pass p \<longleftrightarrow> \<not> closed_before p \<and>
     (received_as p = Packet [] \<or> received_as p = NoMoreItems \<and> wait_error p = None \<and> \<not> closed_after p)"

lemma wintun_ReadPacket_waits: "wintun_ReadPacket ps = None \<longleftrightarrow> list_all quiet_pass ps"
  by (induction ps) (auto simp: quiet_pass_def split: received.splits option.splits)

text \<open>The first pass that is not quiet decides the read.\<close>

lemma wintun_ReadPacket_first:
  "wintun_ReadPacket ps = (case dropWhile quiet_pass ps of [] \<Rightarrow> None | p # _ \<Rightarrow>
     Some (if closed_before p then Inl (EMsg ''tunnel closed'')
       else case received_as p of Packet out \<Rightarrow> Inr out | ReceiveError e \<Rightarrow> Inl e
       | NoMoreItems \<Rightarrow> (case wait_error p of Some e \<Rightarrow> Inl e | None \<Rightarrow> Inl (EMsg ''tunnel closed''))))"
  by (induction ps) (auto simp: quiet_pass_def split: received.splits option.splits)

lemma wintun_ReadPacket_nonempty: "wintun_ReadPacket ps = Some (Inr out) \<Longrightarrow> out \<noteq> []"
  by (induction ps) (auto split: if_splits received.splits option.splits)

lemma dev_Close_twice [simp]: "dev_Close (dev_Close w) = dev_Close w"
  by (simp add: dev_Close_def)

lemma write_after_close: "fst (wintun_WritePacket room packet (dev_Close w)) = Inl (EMsg ''tunnel closed'')"
  by (simp add: wintun_WritePacket_def dev_Close_def)

text \<open>An adapter that was obtained is released again when no device comes of it.\<close>

lemma openTunnelDevice_releases:
  assumes "openTunnelDevice opened created started name = (Inl e, cs)" "opened \<or> created"
  shows "last cs = CloseAdapter"
  using assms by (auto simp: openTunnelDevice_def Let_def split: if_splits)

end
