(* ===== verification/Goroutines.thy ===== *)
theory Goroutines
  imports Main
begin

text \<open>
  Goroutines that loop: a program counter, the test of a context at the head of the loop, and the
  count of those that have not returned. The client's tunnel session and the server's \<open>Run\<close> are
  built of them.
\<close>

text \<open>A goroutine is at the head of its loop, inside the call it blocks in, or has returned.\<close>

datatype pc = AtHead | InCall | Gone

definition loop_head :: "bool \<Rightarrow> pc \<Rightarrow> pc" where
  "loop_head done p = (if p = AtHead then (if done then Gone else InCall) else p)"

definition running :: "pc \<Rightarrow> nat" where
  "running p = (if p = Gone then 0 else 1)"

lemma running_simps [simp]: "running Gone = 0" "running AtHead = 1" "running InCall = 1"
  by (simp_all add: running_def)

lemma running_head: "running (loop_head d p) \<le> running p" "\<not> d \<Longrightarrow> running (loop_head d p) = running p"
    "p = Gone \<Longrightarrow> loop_head d p = Gone"
  by (auto simp: loop_head_def)

lemma loop_head_simps: "loop_head d InCall = InCall" "loop_head True AtHead = Gone" "loop_head False AtHead = InCall"
    "loop_head d Gone = Gone"
  by (simp_all add: loop_head_def)

end
