(* ===== verification/TunnelSession.thy ===== *)
theory TunnelSession
  imports WinClient Systems Wintun Goroutines
begin

text \<open>
  The concurrent part of \<open>runTunnelSession\<close> in \<open>winclient/secure_client.go\<close>: three goroutines, the
  channel they report to, and the function itself, which waits for an interrupt or an error, then
  cancels and waits for all three. An event lets one of them take one step. Shown: the channel never
  blocks a sender, what reaches the device was decrypted with the session key, a cancelled session
  ends once the calls in progress return, and it does not end while the device stays quiet.
\<close>

subsection \<open>Steps\<close>

text \<open>The function selects, waits for the goroutines, or has returned; \<open>None\<close> is a nil error.\<close>

datatype main_pc = Selecting | Joining "go_error option" | Returned "go_error option"

record tunnel_session =
  ts_c :: SecureTCPClient
  ts_n :: net
  up_pc :: pc
  down_pc :: pc
  dgram_pc :: pc
  errCh :: "go_error list"
  interrupted :: bool
  cancelled :: bool
  main :: main_pc

text \<open>
  \<open>Up\<close>, \<open>Down\<close> and \<open>Dgram\<close> are the tests of \<open>sessionCtx\<close> at the loop heads, the events with \<open>Got\<close> the
  rest of a round, once the call returns. The last three are the world: bytes arrive on the
  connection, the user interrupts, writes start or stop to succeed.
\<close>

datatype ts_event =
    Up | UpGot rng "bytes result" | Down | DownGot | Dgram | DgramGot "bytes result"
  | PickInterrupt | PickError | Join
  | Arrive bytes | Interrupt | World go_error "nat \<Rightarrow> bool" "bytes \<Rightarrow> bool" "bytes \<Rightarrow> bool"

definition round_pc :: "round \<Rightarrow> pc" where
  "round_pc r = (case r of Continue \<Rightarrow> AtHead | Quit \<Rightarrow> Gone | Failed e \<Rightarrow> Gone)"

definition round_errs :: "round \<Rightarrow> go_error list" where
  "round_errs r = (case r of Failed e \<Rightarrow> [e] | _ \<Rightarrow> [])"

fun ts_step :: "bytes \<Rightarrow> ts_event \<Rightarrow> tunnel_session \<Rightarrow> tunnel_session" where
  "ts_step key Up s = s\<lparr>up_pc := loop_head (cancelled s) (up_pc s)\<rparr>"
| "ts_step key (UpGot rng read) s =
     (if up_pc s \<noteq> InCall then s
      else case uplinkRound rng (cancelled s) read key (ts_c s) (ts_n s) of
        (r, c, n) \<Rightarrow> s\<lparr>ts_c := c, ts_n := n, up_pc := round_pc r, errCh := errCh s @ round_errs r\<rparr>)"
| "ts_step key Down s = s\<lparr>down_pc := loop_head (cancelled s) (down_pc s)\<rparr>"
| "ts_step key DownGot s =
     (if down_pc s \<noteq> InCall then s
      else case downlinkRound (cancelled s) key (ts_c s) (ts_n s) of
        (r, n) \<Rightarrow> s\<lparr>ts_n := n, down_pc := round_pc r, errCh := errCh s @ round_errs r\<rparr>)"
| "ts_step key Dgram s = s\<lparr>dgram_pc := loop_head (cancelled s) (dgram_pc s)\<rparr>"
| "ts_step key (DgramGot recv) s =
     (if dgram_pc s \<noteq> InCall then s
      else case datagramRound (cancelled s) recv key (ts_c s) (ts_n s) of
        (r, n) \<Rightarrow> s\<lparr>ts_n := n, dgram_pc := round_pc r, errCh := errCh s @ round_errs r\<rparr>)"
| "ts_step key PickInterrupt s =
     (if main s = Selecting \<and> interrupted s then s\<lparr>cancelled := True, main := Joining None\<rparr> else s)"
| "ts_step key PickError s =
     (case errCh s of e # es \<Rightarrow>
        if main s = Selecting then s\<lparr>cancelled := True, errCh := es, main := Joining (Some e)\<rparr> else s
      | [] \<Rightarrow> s)"
| "ts_step key Join s =
     (case main s of Joining r \<Rightarrow>
        if up_pc s = Gone \<and> down_pc s = Gone \<and> dgram_pc s = Gone then s\<lparr>main := Returned r\<rparr> else s
      | _ \<Rightarrow> s)"
| "ts_step key (Arrive bs) s = s\<lparr>ts_n := (ts_n s)\<lparr>rx := rx (ts_n s) @ bs\<rparr>\<rparr>"
| "ts_step key Interrupt s = s\<lparr>interrupted := True, cancelled := True\<rparr>"
| "ts_step key (World fin wr dg dv) s =
     s\<lparr>ts_n := (ts_n s)\<lparr>rx_end := fin, write_ok := wr, dgram_ok := dg, dev_ok := dv\<rparr>\<rparr>"

definition ts_start :: "SecureTCPClient \<Rightarrow> net \<Rightarrow> tunnel_session" where
  "ts_start c n = \<lparr>ts_c = c, ts_n = n, up_pc = AtHead, down_pc = AtHead, dgram_pc = AtHead, errCh = [],
     interrupted = False, cancelled = False, main = Selecting\<rparr>"

definition ts_init :: "tunnel_session \<Rightarrow> bool" where
  "ts_init s \<longleftrightarrow> (\<exists>c n. s = ts_start c n)"

subsection \<open>The invariant\<close>

text \<open>
  Every goroutine sends at most once, so the three places of the channel suffice; before the
  session is cancelled a goroutine only ends by reporting an error, so the function never waits in vain.
\<close>

definition ts_inv :: "tunnel_session \<Rightarrow> bool" where
  "ts_inv s \<longleftrightarrow>
     length (errCh s) + running (up_pc s) + running (down_pc s) + running (dgram_pc s) \<le> 3
     \<and> (\<not> cancelled s \<longrightarrow> length (errCh s) + running (up_pc s) + running (down_pc s) + running (dgram_pc s) = 3)
     \<and> (main s = Selecting \<longrightarrow> cancelled s \<longrightarrow> interrupted s)
     \<and> (main s \<noteq> Selecting \<longrightarrow> cancelled s)
     \<and> (interrupted s \<longrightarrow> cancelled s)
     \<and> (main s \<in> {Joining None, Returned None} \<longrightarrow> interrupted s)
     \<and> (\<forall>r. main s = Returned r \<longrightarrow> up_pc s = Gone \<and> down_pc s = Gone \<and> dgram_pc s = Gone)"

lemma ts_init_inv: "ts_init s \<Longrightarrow> ts_inv s"
  by (auto simp: ts_init_def ts_start_def ts_inv_def running_def)

lemma uplink_quit: "uplinkRound rng b rd key c n = (Quit, c', n') \<Longrightarrow> b"
  by (auto simp: uplinkRound_def fail_round_def split: sum.splits if_splits prod.splits)

lemma downlink_quit: "downlinkRound b key c n = (Quit, n') \<Longrightarrow> b"
  by (auto simp: downlinkRound_def fail_round_def split: sum.splits if_splits prod.splits)

lemma datagram_quit: "datagramRound b rv key c n = (Quit, n') \<Longrightarrow> b"
  by (auto simp: datagramRound_def fail_round_def split: sum.splits if_splits prod.splits)

text \<open>A round of a goroutine that was in its call moves one unit from it to the channel, or drops it.\<close>

lemma round_running:
  "length (round_errs r) + running (round_pc r) \<le> 1"
  "r \<noteq> Quit \<Longrightarrow> length (round_errs r) + running (round_pc r) = 1"
  by (cases r; simp add: round_errs_def round_pc_def)+

lemma ts_inv_step:
  assumes inv: "ts_inv s"
  shows "ts_inv (ts_step key e s)"
proof (cases e)
  case (UpGot rng rd)
  obtain r c n where u: "uplinkRound rng (cancelled s) rd key (ts_c s) (ts_n s) = (r, c, n)" by (metis prod_cases3)
  have "cancelled s \<or> r \<noteq> Quit" using uplink_quit u by blast
  then show ?thesis using inv round_running [of r] UpGot u by (cases "up_pc s") (auto simp: ts_inv_def)
next
  case DownGot
  obtain r n where u: "downlinkRound (cancelled s) key (ts_c s) (ts_n s) = (r, n)" by (metis prod.exhaust)
  have "cancelled s \<or> r \<noteq> Quit" using downlink_quit u by blast
  then show ?thesis using inv round_running [of r] DownGot u by (cases "down_pc s") (auto simp: ts_inv_def)
next
  case (DgramGot rv)
  obtain r n where u: "datagramRound (cancelled s) rv key (ts_c s) (ts_n s) = (r, n)" by (metis prod.exhaust)
  have "cancelled s \<or> r \<noteq> Quit" using datagram_quit u by blast
  then show ?thesis using inv round_running [of r] DgramGot u by (cases "dgram_pc s") (auto simp: ts_inv_def)
next
  case Up
  then show ?thesis using inv running_head [where d = "cancelled s" and p = "up_pc s"] by (auto simp: ts_inv_def)
next
  case Down
  then show ?thesis using inv running_head [where d = "cancelled s" and p = "down_pc s"] by (auto simp: ts_inv_def)
next
  case Dgram
  then show ?thesis using inv running_head [where d = "cancelled s" and p = "dgram_pc s"] by (auto simp: ts_inv_def)
next
  case PickError
  then show ?thesis using inv by (cases "errCh s"; cases "main s") (simp_all add: ts_inv_def)
next
  case Join
  then show ?thesis using inv by (cases "main s") (simp_all add: ts_inv_def)
qed (use inv in \<open>simp_all add: ts_inv_def\<close>)

subsection \<open>What reaches the device\<close>

fun ts_justified :: "bytes \<Rightarrow> ts_event \<Rightarrow> tunnel_session \<Rightarrow> bytes \<Rightarrow> bool" where
  "ts_justified key DownGot s w \<longleftrightarrow> w \<noteq> [] \<and> (\<exists>n'. readEncryptedPayload key (ts_c s) (ts_n s) = (Inr w, n'))"
| "ts_justified key (DgramGot recv) s w \<longleftrightarrow> w \<noteq> [] \<and> (\<exists>raw frame. recv = Inr raw
     \<and> ParseDatagramFrameV2 key (udp_receive raw) = Inr (frame, w)
     \<and> dg_SessionID frame = cl_sessionID (ts_c s) \<and> dg_Channel frame = 1)"
| "ts_justified key _ s w \<longleftrightarrow> False"

lemma send_primitives_dev [simp]: "dev_out (snd (conn_write p n)) = dev_out n" "dev_out (snd (udp_Send d n)) = dev_out n"
  by (simp_all add: conn_write_def udp_Send_def split: sum.splits)

lemma send_dev: "sendEncryptedPayload rng key p ch c n = (r, c', n') \<Longrightarrow> dev_out n' = dev_out n"
  by (auto simp: sendEncryptedPayload_def Let_def split_beta split: if_splits sum.splits prod.splits bool.splits)

lemma read_dev: "readEncryptedPayload key c n = (r, n') \<Longrightarrow> dev_out n' = dev_out n"
  by (auto simp: readEncryptedPayload_def conn_read_def split: if_splits sum.splits prod.splits)

lemma uplink_dev: "uplinkRound rng b rd key c n = (r, c', n') \<Longrightarrow> dev_out n' = dev_out n"
  by (auto simp: uplinkRound_def dest: send_dev split: if_splits sum.splits prod.splits)

lemma downlink_dev:
  assumes "downlinkRound b key c n = (r, n')"
  shows "\<exists>new. dev_out n' = dev_out n @ new \<and> (\<forall>w \<in> set new. w \<noteq> [] \<and> (\<exists>n1. readEncryptedPayload key c n = (Inr w, n1)))"
proof -
  obtain q n1 where q: "readEncryptedPayload key c n = (q, n1)" by (metis prod.exhaust)
  show ?thesis using assms q read_dev [OF q]
    by (cases q) (auto simp: downlinkRound_def dev_WritePacket_def split: if_splits prod.splits)
qed

lemma datagram_dev:
  assumes "datagramRound b recv key c n = (r, n')"
  shows "\<exists>new. dev_out n' = dev_out n @ new \<and> (\<forall>w \<in> set new. w \<noteq> [] \<and> (\<exists>raw frame. recv = Inr raw
     \<and> ParseDatagramFrameV2 key (udp_receive raw) = Inr (frame, w)
     \<and> dg_SessionID frame = cl_sessionID c \<and> dg_Channel frame = 1))"
  using assms by (auto simp: datagramRound_def dev_WritePacket_def split: if_splits prod.splits sum.splits)

interpretation tunnel_session: audited_system ts_init "ts_step key" ts_inv "\<lambda>s. dev_out (ts_n s)" "ts_justified key" for key
proof unfold_locales
  fix s e
  show "\<exists>new. dev_out (ts_n (ts_step key e s)) = dev_out (ts_n s) @ new \<and> (\<forall>w \<in> set new. ts_justified key e s w)"
  proof (cases e)
    case (UpGot rng rd)
    then show ?thesis using uplink_dev [of rng "cancelled s" rd key "ts_c s" "ts_n s"] by (auto split: prod.splits)
  next
    case DownGot
    obtain r n' where d: "downlinkRound (cancelled s) key (ts_c s) (ts_n s) = (r, n')" by (metis prod.exhaust)
    show ?thesis using downlink_dev [OF d] d DownGot by (cases "down_pc s = InCall") auto
  next
    case (DgramGot recv)
    obtain r n' where d: "datagramRound (cancelled s) recv key (ts_c s) (ts_n s) = (r, n')" by (metis prod.exhaust)
    show ?thesis using datagram_dev [OF d] d DgramGot by (cases "dgram_pc s = InCall") auto
  qed (auto split: list.splits main_pc.splits)
qed (simp_all add: ts_init_inv ts_inv_step)

subsection \<open>How a session ends\<close>

text \<open>
  The wait for the goroutines comes before the deferred \<open>Close\<close> of the device. A goroutine blocked
  in \<open>ReadPacket\<close> stays there until a packet arrives, so the function cannot return before.
\<close>

lemma up_pc_blocked: "up_pc s = InCall \<Longrightarrow> (\<forall>rng rd. e \<noteq> UpGot rng rd) \<Longrightarrow> up_pc (ts_step key e s) = InCall"
  by (cases e) (auto simp: loop_head_def split_beta split: list.splits main_pc.splits)

lemma blocked_run:
  assumes "up_pc s = InCall" "\<forall>e \<in> set evs. \<forall>rng rd. e \<noteq> UpGot rng rd"
  shows "up_pc (fold (ts_step key) evs s) = InCall"
  using assms by (induction evs arbitrary: s) (simp_all add: up_pc_blocked)

text \<open>Once the calls in progress have returned, the loop heads end the goroutines and the function returns.\<close>

definition returns :: "rng \<Rightarrow> bytes result \<Rightarrow> bytes result \<Rightarrow> ts_event list" where
  "returns rng rd recv = [UpGot rng rd, DownGot, DgramGot recv, Up, Down, Dgram, Join]"

lemma ts_step_ctl:
  "cancelled (ts_step key (UpGot rng rd) s) = cancelled s" "main (ts_step key (UpGot rng rd) s) = main s"
  "down_pc (ts_step key (UpGot rng rd) s) = down_pc s" "dgram_pc (ts_step key (UpGot rng rd) s) = dgram_pc s"
  "cancelled (ts_step key DownGot s) = cancelled s" "main (ts_step key DownGot s) = main s"
  "up_pc (ts_step key DownGot s) = up_pc s" "dgram_pc (ts_step key DownGot s) = dgram_pc s"
  "cancelled (ts_step key (DgramGot recv) s) = cancelled s" "main (ts_step key (DgramGot recv) s) = main s"
  "up_pc (ts_step key (DgramGot recv) s) = up_pc s" "down_pc (ts_step key (DgramGot recv) s) = down_pc s"
  by (simp_all split: prod.splits)

lemma got_not_in_call:
  "up_pc (ts_step key (UpGot rng rd) s) \<noteq> InCall" "down_pc (ts_step key DownGot s) \<noteq> InCall"
  "dgram_pc (ts_step key (DgramGot recv) s) \<noteq> InCall"
  by (simp_all add: round_pc_def split: prod.splits round.splits)

lemma returns_ends:
  assumes "cancelled s" "main s = Joining r"
  shows "main (fold (ts_step key) (returns rng rd recv) s) = Returned r"
proof -
  define s1 where "s1 = ts_step key (UpGot rng rd) s"
  define s2 where "s2 = ts_step key DownGot s1"
  define s3 where "s3 = ts_step key (DgramGot recv) s2"
  have "up_pc s3 \<noteq> InCall" "down_pc s3 \<noteq> InCall" "dgram_pc s3 \<noteq> InCall"
    using got_not_in_call by (simp_all add: s3_def s2_def s1_def ts_step_ctl del: ts_step.simps)
  then have "loop_head True (up_pc s3) = Gone" "loop_head True (down_pc s3) = Gone" "loop_head True (dgram_pc s3) = Gone"
    by (metis loop_head_def pc.exhaust)+
  moreover have "cancelled s3" "main s3 = Joining r"
    using assms by (simp_all add: s3_def s2_def s1_def ts_step_ctl del: ts_step.simps)
  ultimately have "main (fold (ts_step key) [Up, Down, Dgram, Join] s3) = Returned r" by simp
  then show ?thesis by (simp add: returns_def s3_def s2_def s1_def del: ts_step.simps)
qed

end
