(* ===== verification/ServerMain.thy ===== *)
theory ServerMain
  imports ServerRuns Goroutines
begin

text \<open>
  \<open>Server.Run\<close> with the loops of \<open>udp.Server.Serve\<close> and \<open>tcp.Server.Serve\<close>: the goroutines of the
  server, the channel for the errors of the listeners, and the function that waits for the
  context or an error. An event lets one goroutine take one step. Shown: whatever the
  interleaving, what happens to the server is a run of its handlers; the listeners never wait for
  the channel; \<open>Run\<close> returns nil only when it was stopped and every goroutine but those of the open
  connections has returned; and that takes a packet from the tunnel.
\<close>

text \<open>What a socket's blocking call with a deadline of one second comes to.\<close>

datatype 'a socket_read = NoDeadline go_error | TimedOut | ReadFailed go_error | Arrived 'a

datatype run_main = RunSelecting | RunWaiting | RunReturned "unit result"

text \<open>
  A listener is \<open>AtHead\<close> until it listens, \<open>InCall\<close> while it serves. \<open>serving\<close> are the connections
  whose goroutine runs, \<open>closed_conns\<close> those it has closed.
\<close>

text \<open>\<open>linuxTunnelDevice.ReadPacket\<close>: what the read of the device delivers, as far as the buffer holds it.\<close>

definition tunnel_ReadPacket :: "bytes result \<Rightarrow> bytes result" where
  "tunnel_ReadPacket read = map_sum id (take 65535) read"

record server_run =
  sr_srv :: Server
  stopped :: bool
  reap_pc :: pc
  relay_pc :: pc
  udp_pc :: pc
  tcp_pc :: pc
  run_errs :: "go_error list"
  serving :: "conn list"
  closed_conns :: "conn list"
  run_main :: run_main

datatype run_event =
    Stop
  | Reap "(env \<times> conn list) option"
  | RelayHead | RelayRead env "conn list" "bytes result"
  | UdpListen "unit result" "unit result" | UdpRead env "(UDPAddr \<times> bytes) socket_read"
  | TcpListen "unit result" | TcpAccept "conn socket_read"
  | ConnPayload env conn bytes | ConnEnd conn
  | PickStop | PickErr | Finish

definition run_start :: "Server \<Rightarrow> server_run" where
  "run_start s = \<lparr>sr_srv = s, stopped = False, reap_pc = InCall,
     relay_pc = (if tunnel s then AtHead else Gone),
     udp_pc = (if sc_EnableUDP (cfg s) then AtHead else Gone),
     tcp_pc = (if sc_EnableTCP (cfg s) then AtHead else Gone),
     run_errs = [], serving = [], closed_conns = [], run_main = RunSelecting\<rparr>"

text \<open>One pass of the loop of \<open>reapIdleSessions\<close>: what its select picked, a tick or the context.\<close>

definition reapIdleSessions_pass :: "(env \<times> conn list) option \<Rightarrow> bool \<Rightarrow> Server \<Rightarrow> pc \<times> Server" where
  "reapIdleSessions_pass tick done s =
     (case tick of
        None \<Rightarrow> (if done then Gone else InCall, s)
      | Some (env, order) \<Rightarrow> (InCall, dropIdleConnStates env order s))"

text \<open>\<open>udp.Listen\<close>, from the outcomes of resolving the address and of binding the socket.\<close>

definition udp_Listen :: "unit result \<Rightarrow> unit result \<Rightarrow> unit result" where
  "udp_Listen resolved bound = (case resolved of Inl e \<Rightarrow> Inl e | Inr _ \<Rightarrow> bound)"

text \<open>One pass of the loop of \<open>udp.Server.Serve\<close>: the result, once it returns, and the server.\<close>

definition udp_Serve_pass ::
  "env \<Rightarrow> bool \<Rightarrow> (UDPAddr \<times> bytes) socket_read \<Rightarrow> Server \<Rightarrow> unit result option \<times> Server" where
  "udp_Serve_pass env done read s =
     (case read of
        NoDeadline e \<Rightarrow> (Some (Inl e), s)
      | TimedOut \<Rightarrow> (if done then Some (Inr ()) else None, s)
      | ReadFailed e \<Rightarrow> (Some (Inl e), s)
      | Arrived (addr, datagram) \<Rightarrow> (None, handleUDPPayload env addr (udp_receive datagram) s))"

text \<open>
  One pass of the loop of \<open>tcp.Server.Serve\<close>: the result, once it returns, and the connection that
  gets a goroutine. An error of \<open>SetDeadline\<close> is ignored.
\<close>

definition tcp_Serve_pass :: "bool \<Rightarrow> conn socket_read \<Rightarrow> unit result option \<times> conn option" where
  "tcp_Serve_pass done read =
     (case read of
        NoDeadline e \<Rightarrow> (None, None)
      | TimedOut \<Rightarrow> (if done then Some (Inr ()) else None, None)
      | ReadFailed e \<Rightarrow> (Some (Inl e), None)
      | Arrived c \<Rightarrow> (None, Some c))"

text \<open>\<open>err = Serve(\<dots>); if err != nil { errCh <- err }\<close>\<close>

definition serve_pc :: "unit result option \<Rightarrow> pc" where
  "serve_pc r = (if r = None then InCall else Gone)"

definition serve_errs :: "unit result option \<Rightarrow> go_error list" where
  "serve_errs r = (case r of Some (Inl e) \<Rightarrow> [e] | _ \<Rightarrow> [])"

fun run_step :: "run_event \<Rightarrow> server_run \<Rightarrow> server_run" where
  "run_step Stop s = s\<lparr>stopped := True\<rparr>"
| "run_step (Reap tick) s =
     (if reap_pc s = Gone then s
      else case reapIdleSessions_pass tick (stopped s) (sr_srv s) of (p, srv) \<Rightarrow> s\<lparr>sr_srv := srv, reap_pc := p\<rparr>)"
| "run_step RelayHead s = s\<lparr>relay_pc := loop_head (stopped s) (relay_pc s)\<rparr>"
| "run_step (RelayRead env order read) s =
     (if relay_pc s = InCall
      then s\<lparr>sr_srv := relayTunnelToClient env order (tunnel_ReadPacket read) (sr_srv s), relay_pc := AtHead\<rparr> else s)"
| "run_step (UdpListen resolved bound) s =
     (if udp_pc s \<noteq> AtHead then s
      else case udp_Listen resolved bound of
        Inl e \<Rightarrow> s\<lparr>udp_pc := Gone, run_errs := run_errs s @ [e]\<rparr>
      | Inr _ \<Rightarrow> s\<lparr>udp_pc := InCall, sr_srv := setUDPSrv (sr_srv s)\<rparr>)"
| "run_step (UdpRead env read) s =
     (if udp_pc s \<noteq> InCall then s
      else case udp_Serve_pass env (stopped s) read (sr_srv s) of
        (r, srv) \<Rightarrow> s\<lparr>sr_srv := srv, udp_pc := serve_pc r, run_errs := run_errs s @ serve_errs r\<rparr>)"
| "run_step (TcpListen r) s =
     (if tcp_pc s \<noteq> AtHead then s
      else case r of
        Inl e \<Rightarrow> s\<lparr>tcp_pc := Gone, run_errs := run_errs s @ [e]\<rparr>
      | Inr _ \<Rightarrow> s\<lparr>tcp_pc := InCall\<rparr>)"
| "run_step (TcpAccept read) s =
     (if tcp_pc s \<noteq> InCall then s
      else case tcp_Serve_pass (stopped s) read of
        (r, c) \<Rightarrow> s\<lparr>tcp_pc := serve_pc r, run_errs := run_errs s @ serve_errs r,
                    serving := (case c of None \<Rightarrow> serving s | Some c \<Rightarrow> c # serving s)\<rparr>)"
| "run_step (ConnPayload env c payload) s =
     (if c \<in> set (serving s) then s\<lparr>sr_srv := handleTCPPayload env c payload (sr_srv s)\<rparr> else s)"
| "run_step (ConnEnd c) s =
     (if c \<in> set (serving s)
      then s\<lparr>serving := remove1 c (serving s), closed_conns := closed_conns s @ [c]\<rparr> else s)"
| "run_step PickStop s =
     (if run_main s = RunSelecting \<and> stopped s then s\<lparr>run_main := RunWaiting\<rparr> else s)"
| "run_step PickErr s =
     (case run_errs s of
        e # es \<Rightarrow> if run_main s = RunSelecting then s\<lparr>run_errs := es, run_main := RunReturned (Inl e)\<rparr> else s
      | [] \<Rightarrow> s)"
| "run_step Finish s =
     (if run_main s = RunWaiting \<and> reap_pc s = Gone \<and> relay_pc s = Gone \<and> udp_pc s = Gone \<and> tcp_pc s = Gone
      then s\<lparr>run_main := RunReturned (Inr ())\<rparr> else s)"

subsection \<open>The server's part of a run\<close>

text \<open>The handler an event runs, in the state it meets.\<close>

definition handler_of :: "server_run \<Rightarrow> run_event \<Rightarrow> server_event list" where
  "handler_of s e = (case e of
     Reap (Some (env, order)) \<Rightarrow> if reap_pc s \<noteq> Gone then [EvReap env order] else []
   | RelayRead env order read \<Rightarrow> if relay_pc s = InCall then [EvRelay env order (tunnel_ReadPacket read)] else []
   | UdpListen resolved bound \<Rightarrow> if udp_pc s = AtHead \<and> is_ok (udp_Listen resolved bound) then [EvListenUDP] else []
   | UdpRead env (Arrived (addr, datagram)) \<Rightarrow> if udp_pc s = InCall then [EvUDP env addr (udp_receive datagram)] else []
   | ConnPayload env c payload \<Rightarrow> if c \<in> set (serving s) then [EvTCP env c payload] else []
   | _ \<Rightarrow> [])"

lemma step_handlers: "sr_srv (run_step e s) = fold server_step (handler_of s e) (sr_srv s)"
proof (cases e)
  case (Reap tick)
  then show ?thesis
    by (cases tick) (auto simp: handler_of_def reapIdleSessions_pass_def)
next
  case (UdpRead env rd)
  then show ?thesis
    by (cases rd) (auto simp: handler_of_def udp_Serve_pass_def split: prod.splits)
next
  case (UdpListen a b)
  then show ?thesis by (cases "udp_Listen a b") (simp_all add: handler_of_def)
next
  case (TcpListen r)
  then show ?thesis by (cases r) (simp_all add: handler_of_def)
next
  case (TcpAccept rd)
  then show ?thesis by (simp add: handler_of_def split_beta)
next
  case PickErr
  then show ?thesis by (cases "run_errs s") (simp_all add: handler_of_def)
qed (simp_all add: handler_of_def)

interpretation server_run: implements run_step server_step sr_srv handler_of
  by unfold_locales (rule step_handlers)

text \<open>The handlers a list of events runs, in order.\<close>

primrec handled :: "run_event list \<Rightarrow> server_run \<Rightarrow> server_event list" where
  "handled [] s = []"
| "handled (e # evs) s = handler_of s e @ handled evs (run_step e s)"

lemma handled_run: "sr_srv (fold run_step evs s) = fold server_step (handled evs s) (sr_srv s)"
proof -
  have "handled evs s = server_run.run_events evs s" for s by (induction evs arbitrary: s) simp_all
  then show ?thesis using server_run.run_simulates by simp
qed

subsection \<open>The invariant\<close>

text \<open>The control of the goroutines, without the server.\<close>

definition run_ctl :: "server_run \<Rightarrow> bool" where
  "run_ctl s \<longleftrightarrow> length (run_errs s) + running (udp_pc s) + running (tcp_pc s) \<le> 2
     \<and> (run_main s \<in> {RunWaiting, RunReturned (Inr ())} \<longrightarrow> stopped s)
     \<and> (run_main s = RunReturned (Inr ()) \<longrightarrow> reap_pc s = Gone \<and> relay_pc s = Gone \<and> udp_pc s = Gone \<and> tcp_pc s = Gone)"

definition run_inv :: "server_run \<Rightarrow> bool" where
  "run_inv s \<longleftrightarrow> server_inv (sr_srv s) \<and> run_ctl s"

definition run_init :: "server_run \<Rightarrow> bool" where
  "run_init s \<longleftrightarrow> (\<exists>srv. server_init srv \<and> s = run_start srv)"

lemma serve_running: "length (serve_errs r) + running (serve_pc r) \<le> 1"
  by (auto simp: serve_errs_def serve_pc_def split: option.splits sum.splits)

lemma run_inv_srv: "run_inv s \<Longrightarrow> server_inv (sr_srv (run_step e s))"
  unfolding step_handlers by (simp add: run_inv_def server.run_inv)

lemma run_ctl_step:
  assumes "run_ctl s"
  shows "run_ctl (run_step e s)"
proof (cases e)
  case (UdpRead env rd)
  obtain r srv where u: "udp_Serve_pass env (stopped s) rd (sr_srv s) = (r, srv)" by (metis prod.exhaust)
  show ?thesis using assms serve_running [of r] by (cases "udp_pc s") (auto simp: UdpRead u run_ctl_def)
next
  case (TcpAccept rd)
  obtain r c where u: "tcp_Serve_pass (stopped s) rd = (r, c)" by (metis prod.exhaust)
  show ?thesis using assms serve_running [of r] by (cases "tcp_pc s") (auto simp: TcpAccept u run_ctl_def)
next
  case (UdpListen a b)
  then show ?thesis using assms by (cases "udp_Listen a b") (auto simp: run_ctl_def)
next
  case (TcpListen r)
  then show ?thesis using assms by (cases r) (auto simp: run_ctl_def)
next
  case PickErr
  then show ?thesis using assms by (cases "run_errs s") (auto simp: run_ctl_def)
next
  case (Reap tick)
  then show ?thesis using assms by (auto simp: run_ctl_def split: prod.splits)
qed (use assms in \<open>auto simp: run_ctl_def loop_head_def\<close>)

lemma run_inv_step: "run_inv s \<Longrightarrow> run_inv (run_step e s)"
  using run_inv_srv run_ctl_step by (simp add: run_inv_def)

lemma run_start_inv: "run_init s \<Longrightarrow> run_inv s"
  using server.init_inv by (auto simp: run_init_def run_start_def run_inv_def run_ctl_def running_def)

interpretation server_main: transition_system run_init run_step run_inv
  by unfold_locales (simp_all add: run_start_inv run_inv_step)

subsection \<open>What no handler changes\<close>

text \<open>The configuration and the device: fixed when the server is made.\<close>

definition setting :: "Server \<Rightarrow> ServerConfig \<times> ObfsConfig \<times> bool" where
  "setting s = (cfg s, obfsCfg s, tunnel s)"

lemma setting_other [simp]:
  "setting (emit e s) = setting s" "setting (upd p f s) = setting s" "setting (removeConnState c s) = setting s"
  "setting (bindSessionID sid p s) = setting s" "setting (setUDPSrv s) = setting s"
  by (simp_all add: setting_def setUDPSrv_def)

lemma setting_writes [simp]: "setting (snd (tcp_WriteFrame env c w s)) = setting s"
    "setting (snd (udp_WriteTo env a w s)) = setting s" "setting (snd (tunnel_WritePacket env w s)) = setting s"
  by (auto simp: tcp_WriteFrame_def udp_WriteTo_def tunnel_WritePacket_def split: sum.splits option.splits)

lemma setting_fail [simp]: "setting (failConn env c m s) = setting s"
    "setting (remove_on_error c r) = setting (snd r)"
  by (cases r; simp add: failConn_def remove_on_error_def split_beta Let_def)+

lemma setting_send [simp]:
  "setting (snd (sendSecurePayload env r p w s)) = setting s"
  "setting (snd (sendSecurePayloadV2 env r p ch seq mode w s)) = setting s"
  by (simp_all add: sendSecurePayload_def sendSecurePayloadV2_def split: sum.splits)

lemma setting_getConnState [simp]: "setting (snd (getConnState env c s)) = setting s"
  by (simp add: getConnState_def Let_def setting_def split: option.splits)

lemma setting_handshake [simp]: "setting (handlePreSecureFrame env c payload p s) = setting s"
  by (simp add: handlePreSecureFrame_def handleHelloFrame_def handleAuthV2Frame_def Let_def
      split: sum.splits prod.splits)

lemma setting_data [simp]: "setting (handleDataFrame env c payload p s) = setting s"
  by (auto simp: handleDataFrame_def handleDataFrameV1_def handleDataFrameV2_def Let_def split_beta split: sum.splits)

lemma setting_TCPState [simp]: "setting (handleTCPState env c payload p s) = setting s"
  by (simp add: handleTCPState_touch)

lemma setting_collect: "collectIdle limit order s = (cl, sids, s') \<Longrightarrow> setting s' = setting s"
  by (induction order arbitrary: s cl sids s') (auto simp: Let_def setting_def split: option.splits if_splits prod.splits)

lemma setting_dropIdle [simp]: "setting (dropIdleConnStates env order s) = setting s"
proof -
  have "setting (fold unbindSessionID sids t) = setting t" for sids t
    by (induction sids arbitrary: t) (simp_all add: setting_def)
  moreover have "setting (fold (\<lambda>c. emit (TCPClose c)) cs t) = setting t" for cs t
    by (induction cs arbitrary: t) simp_all
  ultimately show ?thesis using setting_collect by (auto simp: dropIdleConnStates_def split: prod.splits)
qed

lemma setting_step [simp]: "setting (server_step e s) = setting s"
proof (cases e)
  case (EvTCP env c payload)
  then show ?thesis by (simp add: handleTCPPayload_def split_beta)
next
  case (EvUDP env a payload)
  then show ?thesis by (simp add: handleUDPPayload_def Let_def split_beta split: sum.splits option.splits)
next
  case (EvRelay env order packet)
  then show ?thesis by (simp add: relayTunnelToClient_def Let_def split_beta split: sum.splits option.splits bool.splits)
qed simp_all

lemma setting_run: "setting (sr_srv (fold run_step evs s)) = setting (sr_srv s)"
  by (rule server_run.run_invariant [where I = "\<lambda>t. setting t = setting (sr_srv s)"]) simp_all

subsection \<open>Stopping\<close>

text \<open>
  The relay tests the context only between two packets. While its read of the tunnel has not
  returned, it has not returned.
\<close>

lemma relay_blocked: "relay_pc s = InCall \<Longrightarrow> (\<forall>env order packet. e \<noteq> RelayRead env order packet) \<Longrightarrow> relay_pc (run_step e s) = InCall"
  by (cases "(e, s)" rule: run_step.cases) (auto simp: loop_head_def split: sum.splits list.splits prod.splits)

lemma waiting_stays: "relay_pc s = InCall \<Longrightarrow> run_main s = RunWaiting \<Longrightarrow> run_main (run_step e s) = RunWaiting"
  by (cases "(e, s)" rule: run_step.cases) (auto split: sum.splits list.splits prod.splits)

lemma blocked_run_waits:
  "relay_pc s = InCall \<Longrightarrow> run_main s = RunWaiting \<Longrightarrow>
     (\<And>env order packet. RelayRead env order packet \<notin> set evs) \<Longrightarrow>
     relay_pc (fold run_step evs s) = InCall \<and> run_main (fold run_step evs s) = RunWaiting"
proof (induction evs arbitrary: s)
  case (Cons e evs)
  from Cons.prems(3) have "\<forall>env order packet. e \<noteq> RelayRead env order packet" by auto
  with Cons.prems(1) have "relay_pc (run_step e s) = InCall" by (rule relay_blocked)
  moreover have "run_main (run_step e s) = RunWaiting" using Cons.prems(1,2) by (rule waiting_stays)
  ultimately show ?case using Cons.IH Cons.prems(3) by simp
qed simp

lemma stopped_stays: "stopped s \<Longrightarrow> stopped (fold run_step evs s)"
proof (induction evs arbitrary: s)
  case (Cons e evs)
  have "stopped (run_step e s)"
    using Cons.prems by (cases "(e, s)" rule: run_step.cases) (auto split: sum.splits list.splits prod.splits)
  with Cons.IH show ?case by simp
qed simp

text \<open>
  Once stopped, and once the calls in progress have returned, the goroutines go: the listeners at
  their next deadline, the reaper at once, the relay after one packet.
\<close>

definition shutdown :: "env \<Rightarrow> conn list \<Rightarrow> bytes result \<Rightarrow> unit result \<Rightarrow> unit result \<Rightarrow> unit result \<Rightarrow> run_event list" where
  "shutdown env order packet a u t =
     [Reap None, RelayRead env order packet, RelayHead, UdpListen a u, UdpRead env TimedOut, TcpListen t, TcpAccept TimedOut, Finish]"

lemma shutdown_returns:
  assumes "stopped s" "run_main s = RunWaiting"
  shows "run_main (fold run_step (shutdown env order packet a u t) s) = RunReturned (Inr ())"
  using assms
  by (cases "reap_pc s"; cases "relay_pc s"; cases "udp_pc s"; cases "tcp_pc s"; cases "udp_Listen a u"; cases t)
    (simp_all add: shutdown_def udp_Serve_pass_def tcp_Serve_pass_def serve_pc_def loop_head_def
      reapIdleSessions_pass_def)

end
