(* ===== verification/ClientRuns.thy ===== *)
theory ClientRuns
  imports CliSession TunnelSession TunnelSetup
begin

text \<open>
  The outer loops of the two clients, \<open>client/client.go\<close> and \<open>winclient/secure_client.go\<close>: a session,
  a pause, the next session, until the context is done. What the world does to a session is a
  record. Shown: what a run of the command-line client does to its engine, and that a session of
  the Windows client that has ended has released what it opened.
\<close>

subsection \<open>client.go\<close>

text \<open>\<open>udp.Dial\<close>, from the outcomes of resolving the address and of making the socket.\<close>

definition udp_Dial :: "unit result \<Rightarrow> unit result \<Rightarrow> unit result" where
  "udp_Dial resolved dialled = (case resolved of Inl e \<Rightarrow> Inl e | Inr _ \<Rightarrow> dialled)"

record cli_world =
  cw_draw :: draw
  cw_rng :: rng
  cw_now :: int
  cw_tcp :: "unit result"
  cw_resolved :: "unit result"
  cw_dialled :: "unit result"
  cw_net :: cnet
  cw_ticks :: "tick list"
  cw_done :: bool

definition runSession :: "x25519_fun \<Rightarrow> cli_world \<Rightarrow> CliClient \<Rightarrow> unit result \<times> CliClient \<times> cnet" where
  "runSession x25519 w c =
     (case openClientSession x25519 (cw_draw w) (cw_rng w) (cw_now w) (cw_tcp w) (udp_Dial (cw_resolved w) (cw_dialled w)) c (cw_net w) of
        (Inl e, c, n) \<Rightarrow> (Inl e, c, n)
      | (Inr (sessionKey, uc), c, n) \<Rightarrow> sessionTicks uc sessionKey (cw_ticks w) c n)"

text \<open>
  \<open>Run\<close> over the worlds of its sessions; \<open>cw_done\<close> is whether the context is done before the
  pause after a failed session is over. No result: the run goes on.
\<close>

fun Client_Run :: "x25519_fun \<Rightarrow> cli_world list \<Rightarrow> CliClient \<Rightarrow> unit result option \<times> CliClient" where
  "Client_Run x25519 [] c = (None, c)"
| "Client_Run x25519 (w # ws) c =
     (case runSession x25519 w c of
        (r, c, n) \<Rightarrow> if is_ok r \<or> cw_done w then (Some (Inr ()), c) else Client_Run x25519 ws c)"

text \<open>The engine goes through observations only, the configuration stays.\<close>

definition observed :: "CliClient \<Rightarrow> CliClient \<Rightarrow> bool" where
  "observed c c' \<longleftrightarrow> c_cfg c' = c_cfg c \<and>
     (\<exists>evs. c_policy c' = engine_run evs (c_policy c) \<and> (\<forall>e \<in> set evs. \<exists>ok rtt. snd (snd e) = EvObserve ok rtt))"

lemma observed_same: "c_cfg c' = c_cfg c \<Longrightarrow> c_policy c' = c_policy c \<Longrightarrow> observed c c'"
  unfolding observed_def by (intro conjI exI [of _ "[]"]) simp_all

lemma observed_once: "c_cfg c' = c_cfg c \<Longrightarrow> c_policy c' = Observe t t' ok rtt (c_policy c) \<Longrightarrow> observed c c'"
  unfolding observed_def by (intro conjI exI [of _ "[(t, t', EvObserve ok rtt)]"]) simp_all

lemma observed_trans:
  assumes "observed a b" "observed b c"
  shows "observed a c"
proof -
  obtain xs ys where x: "c_policy b = engine_run xs (c_policy a)" "\<forall>e \<in> set xs. \<exists>ok rtt. snd (snd e) = EvObserve ok rtt"
    and y: "c_policy c = engine_run ys (c_policy b)" "\<forall>e \<in> set ys. \<exists>ok rtt. snd (snd e) = EvObserve ok rtt"
    using assms unfolding observed_def by blast
  have "c_policy c = engine_run (xs @ ys) (c_policy a)" using x(1) y(1) by (simp add: engine_run_def)
  with x(2) y(2) assms show ?thesis unfolding observed_def by (intro conjI exI [of _ "xs @ ys"]) auto
qed

lemma handshake_client_keeps: "doHandshake_client x25519 d now c n = (r, c', n') \<Longrightarrow> c_cfg c' = c_cfg c \<and> c_policy c' = c_policy c"
  by (auto simp: doHandshake_client_def Let_def split: sum.splits prod.splits if_splits)

lemma bind_keeps: "bindUDPPlane rng k c n = (r, c', n') \<Longrightarrow> c_cfg c' = c_cfg c \<and> c_policy c' = c_policy c"
  by (auto simp: bindUDPPlane_def Let_def split: sum.splits prod.splits bool.splits)

lemma open_observed: "openClientSession x25519 d rng now dial udpDial c n = (r, c', n') \<Longrightarrow> observed c c'"
  by (rule observed_same)
    (auto simp: openClientSession_def dest!: handshake_client_keeps bind_keeps split: sum.splits prod.splits if_splits)

lemma request_observed:
  assumes "request rng t t' uc k plain c n = (r, c', n')"
  shows "observed c c'"
proof -
  have "c_cfg c' = c_cfg c"
    using assms by (auto simp: request_def Let_def split: if_splits prod.splits option.splits sum.splits)
  with request_policy [OF assms] observed_same observed_once show ?thesis by metis
qed

lemma tick_observed:
  assumes "sessionTick rng now ts us rtt uc k c n = (r, c', n')"
  shows "observed c c'"
proof -
  obtain q c1 n1 where q: "request rng (fst ts) (snd ts) uc k (probe_message now) c n = (q, c1, n1)"
    by (metis prod_cases3)
  have "observed c1 c'"
    using assms q by (auto simp: sessionTick_def intro: observed_once split: sum.splits)
  with request_observed [OF q] show ?thesis by (rule observed_trans)
qed

lemma ticks_observed: "sessionTicks uc k tks c n = (r, c', n') \<Longrightarrow> observed c c'"
proof (induction uc k tks c n rule: sessionTicks.induct)
  case (2 uc k rng now ts us rtt rest c n)
  obtain q c1 n1 where t: "sessionTick rng now ts us rtt uc k c n = (q, c1, n1)" by (metis prod_cases3)
  show ?case
  proof (cases q)
    case (Inl e)
    then show ?thesis using 2(2) t tick_observed [OF t] by simp
  next
    case (Inr x)
    with 2 t have "observed c1 c'" by simp
    with tick_observed [OF t] show ?thesis by (rule observed_trans)
  qed
qed (simp add: observed_same)

lemma session_observed:
  assumes "runSession x25519 w c = (r, c', n')"
  shows "observed c c'"
proof -
  obtain q c1 n1 where o: "openClientSession x25519 (cw_draw w) (cw_rng w) (cw_now w) (cw_tcp w) (udp_Dial (cw_resolved w) (cw_dialled w)) c (cw_net w)
      = (q, c1, n1)" by (metis prod_cases3)
  have "c' = c1 \<or> (\<exists>uc k. sessionTicks uc k (cw_ticks w) c1 n1 = (r, c', n'))"
    using assms o by (auto simp: runSession_def split: sum.splits prod.splits)
  then show ?thesis using open_observed [OF o] ticks_observed observed_trans by blast
qed

lemma run_observed: "Client_Run x25519 ws c = (r, c') \<Longrightarrow> observed c c' \<and> (r = None \<or> r = Some (Inr ()))"
proof (induction x25519 ws c rule: Client_Run.induct)
  case (2 x25519 w ws c)
  obtain q c1 n1 where s: "runSession x25519 w c = (q, c1, n1)" by (metis prod_cases3)
  show ?case using 2 s session_observed [OF s] observed_trans by (auto split: if_splits)
qed (simp add: observed_same)

lemma observed_engine_inv: "observed c c' \<Longrightarrow> engine_inv (c_policy c) \<Longrightarrow> engine_inv (c_policy c')"
  using engine_inv_run by (auto simp: observed_def)

lemma New_client_inv: "engine_inv (c_policy (New_client now cfg))"
  by (simp add: New_client_def engine_inv_New)

text \<open>A probe that fails on both planes counts two faults, so the next session starts on TCP.\<close>

lemma failed_tick:
  assumes "sessionTick rng now ts us rtt True k c n = (Inl e, c', n')"
    and "cc_ProtocolVersion (c_cfg c) = ''v2''" "current (c_policy c) = ModeUDP" "c_sessionID c \<noteq> []"
  shows "c_policy c' = Observe (fst us) (snd us) False 0 (Observe (fst ts) (snd ts) False 0 (c_policy c))"
  using assms by (auto simp: sessionTick_def request_def Let_def split: sum.splits prod.splits option.splits)

subsection \<open>secure\_client.go\<close>

text \<open>
  The world of one session: \<open>ww_adapter\<close> is whether the calls of \<open>openTunnelDevice\<close> succeed,
  \<open>ww_pings\<close> the ticks, \<open>ww_events\<close> the steps of the three goroutines.
\<close>

record win_world =
  ww_draw :: draw
  ww_rng :: rng
  ww_now :: int
  ww_tcp :: "unit result"
  ww_resolved :: "unit result"
  ww_dialled :: "unit result"
  ww_net :: net
  ww_adapter :: "bool \<times> bool \<times> bool"
  ww_pings :: "(rng \<times> int) list"
  ww_events :: "ts_event list"
  ww_done :: bool

text \<open>The ticks of a loop that pings: up to the first that fails, or all of them, then the context is done.\<close>

fun pings :: "string \<Rightarrow> bytes \<Rightarrow> (rng \<times> int) list \<Rightarrow> SecureTCPClient \<Rightarrow> net \<Rightarrow> unit result \<times> SecureTCPClient \<times> net" where
  "pings prefix key [] c n = (Inr (), c, n)"
| "pings prefix key ((rng, now) # rest) c n =
     (case pingTick rng prefix now key c n of
        (Inl e, c, n) \<Rightarrow> (Inl e, c, n)
      | (Inr _, c, n) \<Rightarrow> pings prefix key rest c n)"

text \<open>The wait for the goroutines: the result, once there is one.\<close>

definition tunnel_loops :: "bytes \<Rightarrow> ts_event list \<Rightarrow> SecureTCPClient \<Rightarrow> net \<Rightarrow> unit result option \<times> SecureTCPClient \<times> net" where
  "tunnel_loops key evs c n =
     (let t = fold (ts_step key) evs (ts_start c n)
      in (case main t of
            Returned None \<Rightarrow> Some (Inr ())
          | Returned (Some e) \<Rightarrow> Some (Inl e)
          | _ \<Rightarrow> None, ts_c t, ts_n t))"

text \<open>\<open>tunnel_device_nonwindows.go\<close>\<close>

definition openTunnelDevice_other :: "string \<Rightarrow> wireguardTunDevice result" where
  "openTunnelDevice_other name = Inl (EMsg ''tunnel device is supported only on windows'')"

text \<open>
  \<open>runTunnelSession\<close>: the result (none while it goes on), the client, the connection, the machine,
  and the calls made to the wintun package but for the packets, which are in \<open>dev_out\<close>.
\<close>

definition runTunnelSession ::
  "bool \<Rightarrow> 'w os \<Rightarrow> resolver \<Rightarrow> win_world \<Rightarrow> bytes \<Rightarrow> SecureTCPClient \<Rightarrow> net \<Rightarrow> 'w machine
     \<Rightarrow> unit result option \<times> SecureTCPClient \<times> net \<times> 'w machine \<times> wintun_call list" where
  "runTunnelSession windows os rs w key c n m =
     (case (if windows then openTunnelDevice (fst (ww_adapter w)) (fst (snd (ww_adapter w))) (snd (snd (ww_adapter w)))
                           (wc_TunName (cl_cfg c))
            else (openTunnelDevice_other (wc_TunName (cl_cfg c)), [])) of
        (Inl e, cs) \<Rightarrow> (Some (Inl e), c, n, m, cs)
      | (Inr dev, _) \<Rightarrow>
      (case startTunnel os rs windows (dev_Name dev) (cl_cfg c) m of
        (Inl e, m) \<Rightarrow> (Some (Inl e), c, n, m, calls (dev_Close dev))
      | (Inr name, m) \<Rightarrow>
      (case (if wc_TunProbeOnly (cl_cfg c)
             then (case pings ''tunnel-probe '' key (ww_pings w) c n of (r, c, n) \<Rightarrow> (Some r, c, n))
             else tunnel_loops key (ww_events w) c n) of
        (None, c', n) \<Rightarrow> (None, c', n, m, calls dev)
      | (Some r, c', n) \<Rightarrow> (Some r, c', n, endTunnel os rs windows name (cl_cfg c) m, calls (dev_Close dev)))))"

definition runOneSession ::
  "x25519_fun \<Rightarrow> bool \<Rightarrow> 'w os \<Rightarrow> resolver \<Rightarrow> win_world \<Rightarrow> SecureTCPClient \<Rightarrow> 'w machine
     \<Rightarrow> unit result option \<times> SecureTCPClient \<times> net \<times> 'w machine \<times> wintun_call list" where
  "runOneSession x25519 windows os rs w c m =
     (case openSession x25519 (ww_draw w) (ww_rng w) (ww_now w) (ww_tcp w) (udp_Dial (ww_resolved w) (ww_dialled w)) c (ww_net w) of
        (Inl e, c, n) \<Rightarrow> (Some (Inl e), c, n, m, [])
      | (Inr key, c, n) \<Rightarrow>
      (case (if wc_EnableTunnel (cl_cfg c) then runTunnelSession windows os rs w key c n m
             else (case pings [] key (ww_pings w) c n of (r, c, n) \<Rightarrow> (Some r, c, n, m, []))) of
        (None, c, n, m, cs) \<Rightarrow> (None, c, n, m, cs)
      | (Some r, c, n, m, cs) \<Rightarrow> (Some r, closeUDP c, n, m, cs)))"

text \<open>\<open>Run\<close>, as for the other client; a session that has not ended holds it.\<close>

fun WinClient_Run ::
  "x25519_fun \<Rightarrow> bool \<Rightarrow> 'w os \<Rightarrow> resolver \<Rightarrow> win_world list \<Rightarrow> SecureTCPClient \<Rightarrow> 'w machine
     \<Rightarrow> unit result option \<times> SecureTCPClient \<times> 'w machine \<times> wintun_call list" where
  "WinClient_Run x25519 windows os rs [] c m = (None, c, m, [])"
| "WinClient_Run x25519 windows os rs (w # ws) c m =
     (case runOneSession x25519 windows os rs w c m of
        (None, c, n, m, cs) \<Rightarrow> (None, c, m, cs)
      | (Some r, c, n, m, cs) \<Rightarrow>
          if is_ok r \<or> ww_done w then (Some (Inr ()), c, m, cs)
          else (case WinClient_Run x25519 windows os rs ws c m of (r, c, m, cs') \<Rightarrow> (r, c, m, cs @ cs')))"

text \<open>What a session that has ended leaves behind.\<close>

lemma handshake_udp: "doHandshake x25519 d now c n = (r, c', n') \<Longrightarrow> cl_udp c' = cl_udp c \<and> cl_cfg c' = cl_cfg c"
  by (auto simp: doHandshake_def doHandshakeV2_def Let_def split: sum.splits prod.splits if_splits)

lemma initUDP_cfg: "initUDPPlane rng u key c n = (r, c', n') \<Longrightarrow> cl_cfg c' = cl_cfg c"
  by (auto simp: initUDPPlane_def nextSeq_def closeUDP_def Let_def split: sum.splits prod.splits if_splits bool.splits)

lemma openSession_udp:
  assumes "openSession x25519 d rng now dial u c n = (r, c', n')"
  shows "cl_cfg c' = cl_cfg c" "\<exists>e. r = Inl e \<Longrightarrow> cl_udp c' = cl_udp c"
  using assms by (auto simp: openSession_def closeUDP_def dest!: handshake_udp initUDP_cfg
      split: sum.splits prod.splits)

lemma send_cfg: "sendEncryptedPayload rng key p ch c n = (r, c', n') \<Longrightarrow> cl_cfg c' = cl_cfg c"
  by (auto simp: sendEncryptedPayload_def nextSeq_def Let_def split: sum.splits prod.splits if_splits bool.splits)

lemma ping_cfg: "pingTick rng prefix now key c n = (r, c', n') \<Longrightarrow> cl_cfg c' = cl_cfg c"
  by (auto simp: pingTick_def secureRequest_def dest!: send_cfg split: sum.splits prod.splits)

lemma pings_cfg: "pings prefix key ts c n = (r, c', n') \<Longrightarrow> cl_cfg c' = cl_cfg c"
  by (induction prefix key ts c n rule: pings.induct) (auto dest: ping_cfg split: prod.splits sum.splits)

lemma step_cfg: "cl_cfg (ts_c (ts_step key e s)) = cl_cfg (ts_c s)"
proof (cases e)
  case (UpGot rng rd)
  then show ?thesis by (auto simp: uplinkRound_def dest: send_cfg split: sum.splits prod.splits)
next
  case PickError
  then show ?thesis by (auto split: list.splits)
next
  case Join
  then show ?thesis by (auto split: main_pc.splits)
qed (auto split: prod.splits)

lemma loops_cfg: "tunnel_loops key evs c n = (r, c', n') \<Longrightarrow> cl_cfg c' = cl_cfg c"
proof -
  have "cl_cfg (ts_c (fold (ts_step key) evs s)) = cl_cfg (ts_c s)" for s
    by (induction evs arbitrary: s) (simp_all add: step_cfg)
  then show "tunnel_loops key evs c n = (r, c', n') \<Longrightarrow> cl_cfg c' = cl_cfg c"
    by (auto simp: tunnel_loops_def Let_def ts_start_def)
qed

text \<open>As many adapters closed as sessions of the wintun package asked for.\<close>

definition released :: "wintun_call list \<Rightarrow> bool" where
  "released cs \<longleftrightarrow> count_list cs CloseAdapter = count_list cs StartSession"

lemma released_append: "released xs \<Longrightarrow> released ys \<Longrightarrow> released (xs @ ys)"
  by (simp add: released_def)

lemma open_failed_released: "openTunnelDevice a b s name = (Inl e, cs) \<Longrightarrow> released cs"
  by (auto simp: openTunnelDevice_def released_def Let_def split: if_splits)

lemma open_close_released: "openTunnelDevice a b s name = (Inr dev, cs) \<Longrightarrow> released (calls (dev_Close dev)) \<and> dev_Name dev = Inr name"
  by (auto simp: openTunnelDevice_def released_def dev_Close_def dev_Name_def Let_def split: if_splits)

text \<open>
  What a tunnel session does to the machine: nothing, a start that failed, or a start and, once the
  session has ended, the clean-up.
\<close>

definition machine_after :: "bool \<Rightarrow> 'w os \<Rightarrow> resolver \<Rightarrow> WinConfig \<Rightarrow> 'w machine \<Rightarrow> 'w machine \<Rightarrow> bool" where
  "machine_after windows os rs cfg m m' \<longleftrightarrow> m' = m \<or>
     (\<exists>r m1. startTunnel os rs windows (Inr (wc_TunName cfg)) cfg m = (r, m1) \<and>
        (case r of Inl e \<Rightarrow> m' = m1 | Inr name \<Rightarrow> m' = endTunnel os rs windows name cfg m1))"

lemma tunnel_session_releases:
  assumes "runTunnelSession windows os rs w key c n m = (Some r, c', n', m', cs)"
  shows "cl_cfg c' = cl_cfg c" "released cs" "machine_after windows os rs (cl_cfg c) m m'"
proof -
  obtain dev cs0 where o: "(if windows then openTunnelDevice (fst (ww_adapter w)) (fst (snd (ww_adapter w)))
      (snd (snd (ww_adapter w))) (wc_TunName (cl_cfg c)) else (openTunnelDevice_other (wc_TunName (cl_cfg c)), []))
      = (dev, cs0)" by (metis prod.exhaust)
  have "cl_cfg c' = cl_cfg c \<and> released cs \<and> machine_after windows os rs (cl_cfg c) m m'"
  proof (cases dev)
    case (Inl e)
    then show ?thesis using assms o open_failed_released
      by (auto simp: runTunnelSession_def machine_after_def released_def split: if_splits)
  next
    case (Inr d)
    then have "windows" "openTunnelDevice (fst (ww_adapter w)) (fst (snd (ww_adapter w))) (snd (snd (ww_adapter w)))
        (wc_TunName (cl_cfg c)) = (Inr d, cs0)"
      using o by (auto simp: openTunnelDevice_other_def split: if_splits)
    note d = open_close_released [OF this(2)]
    show ?thesis
      using assms d unfolding runTunnelSession_def o Inr
      by (auto simp: machine_after_def dest: pings_cfg loops_cfg split: prod.splits sum.splits if_splits option.splits)
  qed
  then show "cl_cfg c' = cl_cfg c" "released cs" "machine_after windows os rs (cl_cfg c) m m'" by simp_all
qed

lemma session_releases:
  assumes "runOneSession x25519 windows os rs w c m = (Some r, c', n', m', cs)" "\<not> cl_udp c"
  shows "\<not> cl_udp c' \<and> cl_cfg c' = cl_cfg c \<and> released cs \<and> machine_after windows os rs (cl_cfg c) m m'"
proof -
  obtain q c1 n1 where o: "openSession x25519 (ww_draw w) (ww_rng w) (ww_now w) (ww_tcp w) (udp_Dial (ww_resolved w) (ww_dialled w)) c (ww_net w)
      = (q, c1, n1)" by (metis prod_cases3)
  note open_cfg = openSession_udp [OF o]
  show ?thesis
  proof (cases q)
    case (Inl e)
    then show ?thesis using assms o open_cfg by (simp add: runOneSession_def released_def machine_after_def)
  next
    case (Inr key)
    show ?thesis
    proof (cases "wc_EnableTunnel (cl_cfg c)")
      case True
      then obtain c2 where t: "runTunnelSession windows os rs w key c1 n1 m = (Some r, c2, n', m', cs)" "c' = closeUDP c2"
        using assms(1) o Inr open_cfg(1) by (auto simp: runOneSession_def split: prod.splits option.splits)
      then show ?thesis using tunnel_session_releases [OF t(1)] open_cfg(1) by (simp add: closeUDP_def)
    next
      case False
      then show ?thesis
        using assms(1) o Inr open_cfg(1)
        by (auto simp: runOneSession_def released_def closeUDP_def machine_after_def dest!: pings_cfg split: prod.splits)
    qed
  qed
qed

text \<open>Whether it has ended or not, a session leaves the configuration alone.\<close>

lemma tunnel_session_cfg: "runTunnelSession windows os rs w key c n m = (r, c', n', m', cs) \<Longrightarrow> cl_cfg c' = cl_cfg c"
  by (auto simp: runTunnelSession_def simp del: option.case_eq_if dest: pings_cfg loops_cfg
      split: prod.splits sum.splits option.splits if_splits)

lemma session_cfg:
  assumes "runOneSession x25519 windows os rs w c m = (r, c', n', m', cs)"
  shows "cl_cfg c' = cl_cfg c"
proof -
  obtain q c1 n1 where o: "openSession x25519 (ww_draw w) (ww_rng w) (ww_now w) (ww_tcp w) (udp_Dial (ww_resolved w) (ww_dialled w))
      c (ww_net w) = (q, c1, n1)" by (metis prod_cases3)
  note open_cfg = openSession_udp(1) [OF o]
  show ?thesis
  proof (cases "wc_EnableTunnel (cl_cfg c)")
    case True
    obtain r2 c2 n2 m2 cs2 where t: "runTunnelSession windows os rs w (projr q) c1 n1 m = (r2, c2, n2, m2, cs2)"
      by (metis prod_cases5)
    show ?thesis
      using assms o open_cfg True tunnel_session_cfg [OF t] t
      by (auto simp: runOneSession_def closeUDP_def split: sum.splits option.splits)
  next
    case False
    then show ?thesis
      using assms o open_cfg
      by (auto simp: runOneSession_def closeUDP_def dest!: pings_cfg split: sum.splits prod.splits)
  qed
qed

lemma run_cfg: "WinClient_Run x25519 windows os rs ws c m = (r, c', m', cs) \<Longrightarrow> cl_cfg c' = cl_cfg c \<and> r \<in> {None, Some (Inr ())}"
proof (induction ws arbitrary: c m cs r c' m')
  case (Cons w ws)
  obtain q c1 n1 m1 cs1 where s: "runOneSession x25519 windows os rs w c m = (q, c1, n1, m1, cs1)" by (metis prod_cases5)
  obtain r2 c2 m2 cs2 where w: "WinClient_Run x25519 windows os rs ws c1 m1 = (r2, c2, m2, cs2)" by (metis prod_cases4)
  show ?case
    using Cons.prems Cons.IH [OF w] s session_cfg [OF s] w by (auto split: option.splits if_splits)
qed simp

lemma run_releases:
  "WinClient_Run x25519 windows os rs ws c m = (Some r, c', m', cs) \<Longrightarrow> \<not> cl_udp c \<Longrightarrow>
     r = Inr () \<and> \<not> cl_udp c' \<and> cl_cfg c' = cl_cfg c \<and> released cs"
proof (induction ws arbitrary: c m cs)
  case (Cons w ws)
  obtain q c1 n1 m1 cs1 where s: "runOneSession x25519 windows os rs w c m = (q, c1, n1, m1, cs1)" by (metis prod_cases5)
  then obtain p where q: "q = Some p" using Cons.prems(1) by (cases q) auto
  note one = session_releases [OF s [unfolded q] Cons.prems(2)]
  show ?case
  proof (cases "is_ok p \<or> ww_done w")
    case True
    then show ?thesis using Cons.prems(1) s q one by auto
  next
    case False
    then obtain cs2 where "WinClient_Run x25519 windows os rs ws c1 m1 = (Some r, c', m', cs2)" "cs = cs1 @ cs2"
      using Cons.prems(1) s q by (auto split: prod.splits)
    then show ?thesis using Cons.IH [of c1 m1 cs2] one released_append by auto
  qed
qed simp

end
