(* ===== verification/PanelAnswers.thy ===== *)
theory PanelAnswers
  imports PanelRuns
begin

text \<open>
  The JSON the panel answers with, to the byte: \<open>writeJSON\<close> and the values its callers hand to it,
  Go's maps with their keys in order. A value without a JSON form (a time past the year 9999) is an
  encoding error, which \<open>writeJSON\<close> drops: the answer is then empty. Shown: a list the panel
  answers with decodes to the stored one, or there is an entry that has no JSON form.
\<close>

text \<open>The readings of the Go runtime in the statistics.\<close>

record readings =
  rt_GoRoutines :: int
  rt_Alloc :: "64 word"

text \<open>\<open>type Stats\<close>\<close>

definition Stats_json :: "readings \<Rightarrow> int \<Rightarrow> nat \<Rightarrow> nat \<Rightarrow> json" where
  "Stats_json rt uptime ins cls = JObj
     [(''uptime_seconds'', enc_int uptime), (''go_routines'', enc_int (rt_GoRoutines rt)),
      (''memory_alloc'', enc_int (uint (rt_Alloc rt))), (''inbounds'', enc_int (int ins)), (''clients'', enc_int (int cls))]"

text \<open>The value given to \<open>writeJSON\<close>; no value for what is answered otherwise.\<close>

fun body_value :: "readings \<Rightarrow> body \<Rightarrow> json option option" where
  "body_value rt (BText t) = Some (Some (JObj [(''text'', JStr t)]))"
| "body_value rt (BStatus st) = Some (Some (JObj [(''status'', JStr st)]))"
| "body_value rt (BAuthorized b) = Some (Some (JObj [(''authorized'', JBool b)]))"
| "body_value rt (BUser u) = Some (Some (JObj [(''user'', JStr u)]))"
| "body_value rt (BStats uptime ins cls reqs) =
     Some (Some (JObj [(''request_count'', enc_int (uint reqs)), (''stats'', Stats_json rt uptime ins cls)]))"
| "body_value rt (BInbounds xs) = Some (map_option JArr (those (map Inbound_json xs)))"
| "body_value rt (BInbound x) = Some (Inbound_json x)"
| "body_value rt (BClients xs) = Some (map_option JArr (those (map Client_json xs)))"
| "body_value rt (BClient x) = Some (Client_json x)"
| "body_value rt (BSettings x) = Some (Some (Settings_json x))"
| "body_value rt (BService action service out err) = Some (Some (JObj
     [(''action'', JStr action), (''error'', JStr err), (''output'', JStr out), (''service'', JStr service)]))"
| "body_value rt (BFile _) = None"
| "body_value rt (BRedirect _) = None"

text \<open>\<open>json.NewEncoder(w).Encode(v)\<close> ends the text with a newline and writes nothing on an error.\<close>

definition writeJSON :: "json option \<Rightarrow> bytes" where
  "writeJSON v = (case v of None \<Rightarrow> [] | Some v \<Rightarrow> json_marshal v @ [10])"

text \<open>The bytes of an answer with status 200.\<close>

definition answer_bytes :: "readings \<Rightarrow> response \<Rightarrow> bytes option" where
  "answer_bytes rt resp = (if status resp = 200 then map_option writeJSON (body_value rt (rbody resp)) else None)"

subsection \<open>Reading an answer\<close>

text \<open>How a reader of the API decodes a list.\<close>

definition read_list :: "('a \<Rightarrow> json \<Rightarrow> 'a option) \<Rightarrow> 'a \<Rightarrow> bytes \<Rightarrow> 'a list option" where
  "read_list dec z text = Option.bind (json_parse (str_of_bytes text)) (dec_list dec z [])"

lemma str_of_bytes_newline: "str_of_bytes [10] = [CHR 0x0A]"
  by code_simp

lemma str_of_bytes_append: "str_of_bytes (a @ b) = str_of_bytes a @ str_of_bytes b"
  by (simp add: str_of_bytes_def)

lemma str_of_bytes_line: "str_of_bytes (json_marshal v @ [10]) = json_print v @ newline 0"
  by (simp add: str_of_bytes_append str_of_bytes_newline json_marshal_def newline_def)

lemma json_parse_line:
  assumes "json_ok v" "json_depth v \<le> max_depth"
  shows "json_parse (str_of_bytes (writeJSON (Some v))) = Some v"
proof -
  have "settled [] v (json_run ([], MBegin) (json_print v))"
    using assms by (intro run_json_print(1)) simp_all
  from settled_newline [OF this, of 0] show ?thesis
    by (simp add: writeJSON_def str_of_bytes_line json_parse_def json_finish_def end_value_def del: json_print.simps)
qed

lemma read_list_writeJSON:
  assumes "those (map enc xs) = Some vs" "list_all ok xs"
    and "\<And>x v. enc x = Some v \<Longrightarrow> ok x \<Longrightarrow> dec z v = Some x \<and> json_ok v \<and> json_depth v = 1"
  shows "read_list dec z (writeJSON (Some (JArr vs))) = Some xs"
proof -
  have r: "those (map (dec z) vs) = Some xs \<and> elems_ok vs \<and> elems_depth vs \<le> 1"
    by (rule list_roundtrip [OF assms(1,2)]) (rule assms(3))
  then have "json_parse (str_of_bytes (writeJSON (Some (JArr vs)))) = Some (JArr vs)"
    by (intro json_parse_line) (simp_all add: max_depth_def)
  with r show ?thesis by (simp add: read_list_def dec_list_def)
qed

lemma writeJSON_empty: "writeJSON v = [] \<longleftrightarrow> v = None"
  by (cases v) (simp_all add: writeJSON_def)

lemma Client_json_None: "Client_json c = None \<longleftrightarrow> enc_time (cl_ExpiresAt c) = None \<or> enc_time (cl_CreatedAt c) = None"
  by (cases "enc_time (cl_ExpiresAt c)"; cases "enc_time (cl_CreatedAt c)") (simp_all add: Client_json_def)

theorem clients_text:
  assumes "req_Method r = ''GET''" "list_all client_text_ok (Clients (st_state (ps_store s)))"
  shows "\<exists>text. answer_bytes rt (fst (handleClients env r s)) = Some text
    \<and> (if \<exists>c \<in> set (Clients (st_state (ps_store s))). enc_time (cl_ExpiresAt c) = None \<or> enc_time (cl_CreatedAt c) = None
       then text = []
       else read_list (dec_struct Client_decode) zero_Client text = Some (Clients (st_state (ps_store s))))"
proof -
  let ?cs = "Clients (st_state (ps_store s))"
  define t where "t = writeJSON (map_option JArr (those (map Client_json ?cs)))"
  have a: "answer_bytes rt (fst (handleClients env r s)) = Some t"
    using assms(1) by (simp add: answer_bytes_def handleClients_def Snapshot_def ok_response_def t_def)
  have n: "those (map Client_json ?cs) = None \<longleftrightarrow> (\<exists>c \<in> set ?cs. enc_time (cl_ExpiresAt c) = None \<or> enc_time (cl_CreatedAt c) = None)"
    by (simp only: those_None None_in_map Client_json_None)
  show ?thesis
  proof (cases "those (map Client_json ?cs)")
    case None
    then have "t = []" by (simp add: t_def writeJSON_empty)
    moreover from n None have "\<exists>c \<in> set ?cs. enc_time (cl_ExpiresAt c) = None \<or> enc_time (cl_CreatedAt c) = None" by simp
    ultimately show ?thesis using a by (intro exI [of _ t]) (simp only: if_True)
  next
    case (Some vs)
    then have "read_list (dec_struct Client_decode) zero_Client t = Some ?cs"
      unfolding t_def using read_list_writeJSON [OF Some assms(2), of "dec_struct Client_decode" zero_Client] by (simp add: Client_roundtrip)
    moreover from n Some have "\<not> (\<exists>c \<in> set ?cs. enc_time (cl_ExpiresAt c) = None \<or> enc_time (cl_CreatedAt c) = None)" by simp
    ultimately show ?thesis using a by (intro exI [of _ t]) (simp only: if_False)
  qed
qed

end
