(* ===== verification/Programs.thy ===== *)
theory Programs
  imports ServerMain ClientRuns PanelAnswers
begin

text \<open>
  The five programs under \<open>cmd/\<close>: each reads the path of its configuration from the environment,
  loads it, builds its component and runs it; \<open>keygen\<close> prints two key pairs. Files, the
  environment, the machine and what happens during the run are arguments. Shown: what the server
  program guarantees once it runs, and that the printed key pairs fit each other.
\<close>

text \<open>How a program stands: still running, returned from \<open>main\<close>, or ended by \<open>log.Fatalf\<close>.\<close>

datatype exit = Serving | Finished | Fatal string go_error

definition exit_of :: "string \<Rightarrow> unit result option \<Rightarrow> exit" where
  "exit_of what r = (case r of None \<Rightarrow> Serving | Some (Inr _) \<Rightarrow> Finished | Some (Inl e) \<Rightarrow> Fatal what e)"

definition config_path :: "(string \<Rightarrow> string) \<Rightarrow> string \<Rightarrow> string \<Rightarrow> string" where
  "config_path getenv var fallback = (if getenv var = [] then fallback else getenv var)"

subsection \<open>cmd/server\<close>

text \<open>\<open>newTunnelDevice\<close> on the systems of \<open>tunnel_nonlinux.go\<close>.\<close>

definition newTunnelDevice_other :: "ServerConfig \<Rightarrow> string result" where
  "newTunnelDevice_other c = Inl (EMsg ''tunnel mode requires linux server'')"

text \<open>\<open>server.New\<close> with the device it makes; \<open>water\<close> is \<open>water.New\<close>, the name of the interface.\<close>

definition create_server ::
  "bool \<Rightarrow> 'w os \<Rightarrow> (string \<Rightarrow> string result) \<Rightarrow> ServerConfig \<Rightarrow> 'w machine \<Rightarrow> Server result \<times> 'w machine" where
  "create_server linux os water c m =
     (if \<not> sc_EnableTunnel c then (New (Inr ()) c, m)
      else if linux
      then (case newTunnelDevice os (water (sc_TunnelName c)) c m of
              (r, m, _) \<Rightarrow> (New (map_sum id (\<lambda>_. ()) r) c, m))
      else (New (map_sum id (\<lambda>_. ()) (newTunnelDevice_other c)) c, m))"

definition run_result :: "server_run \<Rightarrow> unit result option" where
  "run_result s = (case run_main s of RunReturned r \<Rightarrow> Some r | _ \<Rightarrow> None)"

definition server_program ::
  "(string \<Rightarrow> string) \<Rightarrow> (string \<Rightarrow> bytes result) \<Rightarrow> bool \<Rightarrow> 'w os \<Rightarrow> (string \<Rightarrow> string result) \<Rightarrow> run_event list
     \<Rightarrow> 'w machine \<Rightarrow> exit \<times> server_run option \<times> 'w machine" where
  "server_program getenv files linux os water evs m =
     (case LoadServerConfig (files (config_path getenv ''DSP_SERVER_CONFIG'' ''configs/server.json'')) of
        Inl e \<Rightarrow> (Fatal ''load server config'' e, None, m)
      | Inr c \<Rightarrow>
      (case create_server linux os water c m of
        (Inl e, m) \<Rightarrow> (Fatal ''create server'' e, None, m)
      | (Inr srv, m) \<Rightarrow>
        (let s = fold run_step evs (run_start srv)
         in (exit_of ''server stopped with error'' (run_result s), Some s, m))))"

text \<open>The four firewall rules of a server, as check arguments.\<close>

definition firewall_rules :: "ServerConfig \<Rightarrow> string \<Rightarrow> string \<Rightarrow> string list set" where
  "firewall_rules c name upstream =
     {rule_in name ''-C'', rule_out name ''-C'', rule_nat (sc_TunnelSubnet c) upstream ''-C'', rule_mss ''-C''}"

lemma firewall_installed:
  assumes "iptables_laws os n" "configureLinuxTunnel os c name m = (Inr (), m')"
  shows "\<exists>ipt upstream. ipt \<in> iptables_bins \<and> upstream \<noteq> [] \<and> (\<forall>x \<in> firewall_rules c name upstream. 1 \<le> n (world m') ipt x)"
proof -
  obtain ipt upstream where u: "ipt \<in> iptables_bins" "upstream \<noteq> []"
    and "\<forall>bin x. n (world m') bin x =
      (if bin = ipt \<and> x \<in> firewall_rules c name upstream then max 1 (n (world m) bin x) else n (world m) bin x)"
    using configureLinuxTunnel_rules [OF assms] unfolding firewall_rules_def by metis
  then have "\<forall>x \<in> firewall_rules c name upstream. 1 \<le> n (world m') ipt x" by simp
  with u show ?thesis by blast
qed

lemma create_server_facts:
  assumes "create_server linux os water c m = (Inr srv, m')"
  shows "server_init srv" "cfg srv = c" "tunnel srv = sc_EnableTunnel c"
    "sc_EnableTunnel c \<Longrightarrow> linux \<and> (\<exists>name. water (sc_TunnelName c) = Inr name \<and> configureLinuxTunnel os c name m = (Inr (), m'))"
proof -
  have n: "\<exists>tun. New tun c = Inr srv"
    using assms by (auto simp: create_server_def split: if_splits prod.splits)
  then show "server_init srv" unfolding server_init_def by blast
  show "cfg srv = c" "tunnel srv = sc_EnableTunnel c"
    using n by (auto simp: New_def Let_def split: if_splits sum.splits)
  show "linux \<and> (\<exists>name. water (sc_TunnelName c) = Inr name \<and> configureLinuxTunnel os c name m = (Inr (), m'))"
    if "sc_EnableTunnel c"
    using assms that
    by (auto simp: create_server_def newTunnelDevice_def newTunnelDevice_other_def New_def Let_def
        split: if_splits sum.splits prod.splits)
qed

lemma server_program_run:
  assumes "server_program getenv files linux os water evs m = (ex, Some s, m')"
  obtains c srv where
    "LoadServerConfig (files (config_path getenv ''DSP_SERVER_CONFIG'' ''configs/server.json'')) = Inr c"
    "create_server linux os water c m = (Inr srv, m')" "s = fold run_step evs (run_start srv)"
    "ex = exit_of ''server stopped with error'' (run_result s)"
  using assms by (auto simp: server_program_def Let_def split: sum.splits prod.splits)

theorem server_program_ready:
  assumes "server_program getenv files linux os water evs m = (ex, Some s, m')"
  shows "\<exists>c. LoadServerConfig (files (config_path getenv ''DSP_SERVER_CONFIG'' ''configs/server.json'')) = Inr c
    \<and> ServerConfig_ok c \<and> cfg (sr_srv s) = c \<and> tunnel (sr_srv s) = sc_EnableTunnel c \<and> run_inv s
    \<and> (sc_EnableTunnel c \<longrightarrow> linux \<and> (\<exists>name. water (sc_TunnelName c) = Inr name
         \<and> configureLinuxTunnel os c name m = (Inr (), m')))"
proof -
  obtain c srv where c: "LoadServerConfig (files (config_path getenv ''DSP_SERVER_CONFIG'' ''configs/server.json'')) = Inr c"
    and srv: "create_server linux os water c m = (Inr srv, m')" and s: "s = fold run_step evs (run_start srv)"
    using server_program_run [OF assms] by metis
  note f = create_server_facts [OF srv]
  have "setting (sr_srv s) = setting srv" using setting_run [of evs "run_start srv"] by (simp add: s run_start_def)
  moreover have "run_inv s" unfolding s
    by (rule server_main.reach_inv) (use f(1) in \<open>auto simp: run_init_def\<close>)
  ultimately show ?thesis using c f LoadServerConfig_ok [OF c] by (auto simp: setting_def)
qed

subsection \<open>cmd/client and cmd/winclient\<close>

definition client_program ::
  "(string \<Rightarrow> string) \<Rightarrow> (string \<Rightarrow> bytes result) \<Rightarrow> int \<Rightarrow> x25519_fun \<Rightarrow> cli_world list \<Rightarrow> exit \<times> CliClient option" where
  "client_program getenv files now x25519 ws =
     (case LoadClientConfig (files (config_path getenv ''DSP_CLIENT_CONFIG'' ''configs/client.json'')) of
        Inl e \<Rightarrow> (Fatal ''load client config'' e, None)
      | Inr c \<Rightarrow>
        (let cl = New_client now c
         in case Client_Validate cl of
              Inl e \<Rightarrow> (Fatal ''invalid client config'' e, None)
            | Inr _ \<Rightarrow>
              (case Client_Run x25519 ws cl of
                 (r, cl) \<Rightarrow> (exit_of ''client stopped with error'' r, Some cl))))"

text \<open>\<open>keyfile\<close> reads the key file of a path, \<open>io\<close> is the outcome of writing it; the last result is what was written.\<close>

definition winclient_program ::
  "(string \<Rightarrow> string) \<Rightarrow> (string \<Rightarrow> bytes result) \<Rightarrow> (string \<Rightarrow> bytes option) \<Rightarrow> unit result \<Rightarrow> draw \<Rightarrow> x25519_fun
     \<Rightarrow> bool \<Rightarrow> 'w os \<Rightarrow> resolver \<Rightarrow> win_world list \<Rightarrow> 'w machine
     \<Rightarrow> exit \<times> SecureTCPClient option \<times> 'w machine \<times> wintun_call list \<times> bytes option" where
  "winclient_program getenv files keyfile io d x25519 windows os rs ws m =
     (case LoadConfig (files (config_path getenv ''DSP_WINCLIENT_CONFIG'' ''configs/winclient.json'')) of
        Inl e \<Rightarrow> (Fatal ''load win client config'' e, None, m, [], None)
      | Inr c \<Rightarrow>
      (case App_New x25519 d (keyfile (wc_KeyFile c)) io c of
        (Inl e, kept) \<Rightarrow> (Fatal ''init win client'' e, None, m, [], kept)
      | (Inr cl, kept) \<Rightarrow>
      (case WinClient_Run x25519 windows os rs ws cl m of
        (r, cl, m, cs) \<Rightarrow> (exit_of ''run win client'' r, Some cl, m, cs, kept))))"

text \<open>A running Windows client has the key pair the next start will find, and a stopped one has released what it opened.\<close>

lemma winclient_run_facts:
  assumes "x25519_laws x25519"
    and "winclient_program getenv files keyfile io d x25519 windows os rs ws m = (ex, Some cl, m', cs, kept)"
  obtains wc k where
    "LoadConfig (files (config_path getenv ''DSP_WINCLIENT_CONFIG'' ''configs/winclient.json'')) = Inr wc" "WinConfig_ok wc"
    "known_pair (case kept of None \<Rightarrow> keyfile (wc_KeyFile wc) | Some b \<Rightarrow> Some b) wc = Some k" "cl_cfg cl = with_pair k wc"
    "ex \<in> {Serving, Finished}" "ex = Finished \<Longrightarrow> \<not> cl_udp cl \<and> released cs"
proof -
  obtain wc c r where wc: "LoadConfig (files (config_path getenv ''DSP_WINCLIENT_CONFIG'' ''configs/winclient.json'')) = Inr wc"
    and c: "App_New x25519 d (keyfile (wc_KeyFile wc)) io wc = (Inr c, kept)"
    and r: "WinClient_Run x25519 windows os rs ws c m = (r, cl, m', cs)" and ex: "ex = exit_of ''run win client'' r"
    using assms(2) by (auto simp: winclient_program_def split: sum.splits prod.splits)
  obtain k where k: "known_pair (case kept of None \<Rightarrow> keyfile (wc_KeyFile wc) | Some b \<Rightarrow> Some b) wc = Some k"
      "c = NewSecureTCPClient (with_pair k wc)"
    using App_New_known [OF assms(1) c] by blast
  have r': "r = None \<or> r = Some (Inr ())" "cl_cfg cl = with_pair k wc"
    using run_cfg [OF r] k(2) by (auto simp: NewSecureTCPClient_def)
  moreover have "\<not> cl_udp cl \<and> released cs" if "r = Some (Inr ())"
    using run_releases [OF r [unfolded that]] k(2) by (simp add: NewSecureTCPClient_def)
  ultimately show ?thesis
    using that wc LoadConfig_ok [OF wc] k(1) ex by (auto simp: exit_of_def)
qed

subsection \<open>cmd/panel\<close>

text \<open>
  \<open>Server.Run\<close> of the panel serves until the context is done, and returns what \<open>Shutdown\<close>
  returns, or until \<open>ListenAndServe\<close> fails.
\<close>

datatype panel_end = NotYet | ShutdownReturned "unit result" | ListenFailed go_error

definition panel_Run :: "(penv \<times> request) list \<Rightarrow> panel_end \<Rightarrow> PanelServer \<Rightarrow> unit result option \<times> PanelServer" where
  "panel_Run reqs stop s =
     (case stop of
        NotYet \<Rightarrow> None
      | ShutdownReturned r \<Rightarrow> Some r
      | ListenFailed e \<Rightarrow> Some (Inl e), fold panel_step reqs s)"

definition panel_program ::
  "(string \<Rightarrow> string) \<Rightarrow> (string \<Rightarrow> bytes result) \<Rightarrow> (string \<Rightarrow> state_file) \<Rightarrow> bool \<Rightarrow> time
     \<Rightarrow> (penv \<times> request) list \<Rightarrow> panel_end \<Rightarrow> exit \<times> PanelServer option" where
  "panel_program getenv files state ok now reqs stop =
     (case LoadPanelConfig (files (config_path getenv ''DSP_PANEL_CONFIG'' ''configs/panel.json'')) of
        Inl e \<Rightarrow> (Fatal ''load panel config'' e, None)
      | Inr c \<Rightarrow>
      (case New_panel now (state (pc_StateFile c)) ok c of
        Inl e \<Rightarrow> (Fatal ''create panel'' e, None)
      | Inr s \<Rightarrow>
        (case panel_Run reqs stop s of (r, s) \<Rightarrow> (exit_of ''panel stopped with error'' r, Some s))))"

subsection \<open>cmd/keygen\<close>

definition KeyPair_json :: "KeyPair \<Rightarrow> json" where
  "KeyPair_json k = JObj [(''private_key'', JStr (PrivateKey k)), (''public_key'', JStr (PublicKey k))]"

definition keygen_output :: "KeyPair \<Rightarrow> KeyPair \<Rightarrow> (string \<times> json) list" where
  "keygen_output server client = [(''server'', KeyPair_json server), (''client'', KeyPair_json client)]"

text \<open>The program: how it ends and what it prints.\<close>

definition keygen_program :: "x25519_fun \<Rightarrow> draw \<Rightarrow> draw \<Rightarrow> exit \<times> bytes" where
  "keygen_program x25519 d1 d2 =
     (case GenerateKeyPair x25519 d1 of
        Inl e \<Rightarrow> (Fatal ''server keygen failed'' e, [])
      | Inr serverPair \<Rightarrow>
      (case GenerateKeyPair x25519 d2 of
        Inl e \<Rightarrow> (Fatal ''client keygen failed'' e, [])
      | Inr clientPair \<Rightarrow>
        (Finished, json_marshal_indent (JObj (keygen_output serverPair clientPair)) @ [10])))"

text \<open>\<open>internal/tun\<close>, which nothing calls.\<close>

definition tun_Open :: "string \<Rightarrow> string \<Rightarrow> unit result" where
  "tun_Open name cidr = Inl (EMsg (''TUN is not implemented yet (name='' @ name @ '' cidr='' @ cidr @ '')''))"

text \<open>The two pairs an administrator reads off the printed text.\<close>

definition KeyPair_of :: "json \<Rightarrow> KeyPair option" where
  "KeyPair_of v = (case v of
     JObj ms \<Rightarrow>
       (case (str_field ''private_key'' ms, str_field ''public_key'' ms) of
          (Some a, Some b) \<Rightarrow> Some \<lparr>PrivateKey = a, PublicKey = b\<rparr> | _ \<Rightarrow> None)
   | _ \<Rightarrow> None)"

definition printed_pairs :: "bytes \<Rightarrow> (KeyPair option \<times> KeyPair option) option" where
  "printed_pairs text = (case obj_members text of
     Inl e \<Rightarrow> None
   | Inr ms \<Rightarrow> Some (Option.bind (map_of ms ''server'') KeyPair_of, Option.bind (map_of ms ''client'') KeyPair_of))"

lemma obj_members_marshal_line:
  assumes "members_ok ms" "members_depth ms < max_depth"
  shows "obj_members (json_marshal_indent (JObj ms) @ [10]) = Inr ms"
proof -
  have "settled [] (JObj ms) (json_run ([], MBegin) (json_indent 0 (JObj ms)))"
    using assms by (intro run_json_indent(1)) simp_all
  from settled_newline [OF this, of 0]
  have "json_parse (json_indent 0 (JObj ms) @ newline 0) = Some (JObj ms)"
    by (simp add: json_parse_def json_finish_def end_value_def del: json_indent.simps)
  moreover have "str_of_bytes (json_marshal_indent (JObj ms) @ [10]) = json_indent 0 (JObj ms) @ newline 0"
    using str_of_bytes_append [of "json_marshal_indent (JObj ms)" "[10]"]
    by (simp add: json_marshal_indent_def newline_def str_of_bytes_newline del: json_indent.simps)
  ultimately show ?thesis by (simp add: obj_members_def)
qed

lemma KeyPair_of_json: "KeyPair_of (KeyPair_json k) = Some k"
  by (simp add: KeyPair_of_def KeyPair_json_def field_eval)

lemma keygen_printed:
  assumes "x25519_laws x25519" "keygen_program x25519 d1 d2 = (Finished, text)"
  shows "\<exists>s c. GenerateKeyPair x25519 d1 = Inr s \<and> GenerateKeyPair x25519 d2 = Inr c \<and> printed_pairs text = Some (Some s, Some c)"
proof -
  obtain s c where g: "GenerateKeyPair x25519 d1 = Inr s" "GenerateKeyPair x25519 d2 = Inr c"
    and t: "text = json_marshal_indent (JObj (keygen_output s c)) @ [10]"
    using assms(2) by (auto simp: keygen_program_def split: sum.splits)
  have "obj_members text = Inr (keygen_output s c)"
    unfolding t using GenerateKeyPair_text [OF assms(1) g(1)] GenerateKeyPair_text [OF assms(1) g(2)]
    by (intro obj_members_marshal_line) (simp_all add: keygen_output_def KeyPair_json_def max_depth_def)
  then have "printed_pairs text = Some (Some s, Some c)"
    by (simp add: printed_pairs_def keygen_output_def KeyPair_of_json)
  with g show ?thesis by blast
qed

end
