(* ===== verification/Samples.thy ===== *)
theory Samples
  imports EndToEnd Programs Mux
begin

text \<open>
  Concrete values for the witnesses: a key pair, an honest client and server, a server with one
  session in each stage, an environment in which everything outside works, and a model of the
  commands \<open>ip\<close>, \<open>sysctl\<close> and \<open>iptables\<close>. Nothing here models the program.
\<close>

subsection \<open>Keys and configurations\<close>

definition ones :: draw where
  "ones = \<lparr>draw_ok = True, draw_byte = (\<lambda>_. 1), draw_num = 0\<rparr>"

definition toy_keys :: KeyPair where
  "toy_keys = keypair_of toy_x25519 (replicate 32 1)"

lemma toy_keys_generated: "GenerateKeyPair toy_x25519 ones = Inr toy_keys"
  by (simp add: GenerateKeyPair_def read_full_def ones_def toy_keys_def keypair_of_def map_replicate_const)

definition server_cfg :: ServerConfig where
  "server_cfg = \<lparr>sc_ListenUDP = '':1'', sc_ListenTCP = '':2'', sc_ProtocolVersion = ''v2'',
     sc_PreSharedKey = ''psk'', sc_ServerPrivateKey = PrivateKey toy_keys, sc_ServerPublicKey = PublicKey toy_keys,
     sc_MaxPacketSize = 1500, sc_HandshakeSkewSec = 60, sc_SessionIdleSec = 300, sc_EnableTunnel = True,
     sc_TunnelName = ''dsp0'', sc_TunnelServerCIDR = ''10.66.0.1/24'', sc_TunnelSubnet = ''10.66.0.0/24'',
     sc_UpstreamInterface = [], sc_EnableObfs = False, sc_EnableUDP = True, sc_EnableTCP = True,
     sc_PublicProbeMode = False\<rparr>"

definition win_cfg :: "string \<Rightarrow> WinConfig" where
  "win_cfg v = \<lparr>wc_ServerTCP = ''1.2.3.4:443'', wc_ServerUDP = ''1.2.3.4:443'', wc_ProtocolVersion = v,
     wc_EnableMultiTransport = True, wc_PreSharedKey = ''psk'', wc_ServerPublicKey = PublicKey toy_keys,
     wc_ClientPrivateKey = PrivateKey toy_keys, wc_ClientPublicKey = PublicKey toy_keys, wc_KeyFile = ''k'',
     wc_ProfileName = ''p'', wc_DeviceName = ''d'', wc_EnableTunnel = True, wc_TunName = ''tun0'',
     wc_TunCIDR = ''10.66.0.2/24'', wc_TunGateway = ''10.66.0.1'', wc_TunSetDefaultRoute = True,
     wc_TunProbeOnly = False, wc_ReconnectSec = 3, wc_PingIntervalSec = 5, wc_HandshakeTimeout = 5\<rparr>"

lemma toy_shared: "SharedSecret toy_x25519 (PrivateKey toy_keys) (PublicKey toy_keys) = Inr base_point"
proof -
  have "toy_x25519 (replicate 32 1) base_point = base_point"
    by (simp add: toy_x25519_def base_point_def numeral_eq_Suc)
  then show ?thesis
    by (simp add: SharedSecret_def toy_keys_def keypair_of_def ParsePrivateKey_def ParsePublicKey_def)
      (simp add: base_point_def)
qed

lemma toy_private_nonempty [simp]: "PrivateKey toy_keys \<noteq> []"
  using length_StdEncode [of "replicate 32 1"] by (auto simp: toy_keys_def keypair_of_def)

lemma server_cfg_sel [simp]:
  "sc_ServerPrivateKey server_cfg = PrivateKey toy_keys" "sc_MaxPacketSize server_cfg = 1500"
  "sc_SessionIdleSec server_cfg = 300" "sc_HandshakeSkewSec server_cfg = 60" "sc_EnableTunnel server_cfg"
  "wrap64 12000 = 12000"
  by (simp_all add: server_cfg_def in_int64_def)

lemma honest_sample: "honest_setup toy_x25519 toy_keys toy_keys (win_cfg v) server_cfg base_point"
  using toy_x25519_laws toy_keys_generated toy_shared
  by (auto simp: honest_setup_def win_cfg_def) (simp add: server_cfg_def)

subsection \<open>Servers\<close>

definition up_env :: env where
  "up_env = \<lparr>clock = (\<lambda>_. 0), env_rng = zero_rng, conn_ok = (\<lambda>_. True), udp_ok = (\<lambda>_ _. True),
     tun_ok = (\<lambda>_. True), env_x25519 = toy_x25519\<rparr>"

lemma up_env_sel [simp]: "clock up_env i = 0" "env_rng up_env = zero_rng" "conn_ok up_env c" "udp_ok up_env a w"
    "tun_ok up_env w" "env_x25519 up_env = toy_x25519"
  by (simp_all add: up_env_def)

definition empty_server :: Server where
  "empty_server = \<lparr>cfg = server_cfg, obfsCfg = \<lparr>Enabled = False, MaxPadding = 32, MaxJitterMS = 15\<rparr>,
     conns = (\<lambda>_. None), bySID = (\<lambda>_. None), heap = (\<lambda>_. zero_connState), next_ptr = 0,
     udpSrv = False, tunnel = True, effects = []\<rparr>"

lemma empty_server_init: "New (Inr ()) server_cfg = Inr empty_server" "server_init empty_server"
proof -
  show "New (Inr ()) server_cfg = Inr empty_server"
    by (simp add: New_def empty_server_def) (simp add: server_cfg_def)
  then show "server_init empty_server" unfolding server_init_def by blast
qed

definition sample_sid :: string where
  "sample_sid = replicate 16 CHR ''A''"

lemma sample_sid_ok [simp]: "plain_text sample_sid" "length sample_sid = 16" "sample_sid \<noteq> []" "ascii sample_sid"
proof -
  show "plain_text sample_sid"
    by (simp add: sample_sid_def plain_text_def plain_char_def escape_ascii_def Let_def numeral_eq_Suc)
  then show "ascii sample_sid" by (rule plain_text_ascii)
qed (simp_all add: sample_sid_def numeral_eq_Suc)

definition peer :: "bool \<Rightarrow> connState" where
  "peer ready = zero_connState\<lparr>secureReady := ready, tunnelEnabled := ready, protoVersion := ''v2'', awaitAuthV2 := \<not> ready,
     pendingTicket := (if ready then [] else ''t''), sessionID := (if ready then sample_sid else []),
     udpAddr := (if ready then Some ''10.0.0.9:5'' else None), sessionKey := replicate 32 2, st_conn := Some 7\<rparr>"

text \<open>Connection 7 has a session that is ready, or one that waits for the proof.\<close>

definition one_session :: "bool \<Rightarrow> Server" where
  "one_session ready = empty_server\<lparr>conns := (\<lambda>c. if c = 7 then Some 0 else None),
     bySID := (\<lambda>i. if ready \<and> i = sample_sid then Some 0 else None), heap := (\<lambda>_. peer ready),
     next_ptr := 1, udpSrv := True\<rparr>"

lemma one_session_sel [simp]:
  "cfg (one_session r) = server_cfg" "conns (one_session r) c = (if c = 7 then Some 0 else None)"
  "bySID (one_session r) i = (if r \<and> i = sample_sid then Some 0 else None)" "heap (one_session r) p = peer r"
  "tunnel (one_session r)" "udpSrv (one_session r)" "next_ptr (one_session r) = 1" "effects (one_session r) = []"
  "MaxPadding (obfsCfg (one_session r)) = 32"
  by (simp_all add: one_session_def empty_server_def)

lemma peer_sel [simp]:
  "secureReady (peer r) = r" "protoVersion (peer r) = ''v2''" "awaitAuthV2 (peer r) = (\<not> r)"
  "sessionKey (peer r) = replicate 32 2" "st_conn (peer r) = Some 7" "lastSeen (peer r) = 0"
  "sessionID (peer r) = (if r then sample_sid else [])" "pendingTicket (peer r) = (if r then [] else ''t'')"
  "tunnelEnabled (peer r) = r" "udpAddr (peer r) = (if r then Some ''10.0.0.9:5'' else None)"
  by (simp_all add: peer_def zero_connState_def)

lemma one_session_inv: "server_inv (one_session r)"
  by (auto simp: server_inv_defs state_ok_def)

text \<open>The proof the waiting session accepts.\<close>

definition sample_auth :: bytes where
  "sample_auth = AuthFrame_marshal \<lparr>auth_Type = TypeAuth, auth_ProtoVersion = ''v2'',
     Proof = BuildAuthProof (replicate 32 2) ''t''\<rparr>"

lemma sample_auth_accepted: "auth_accepted (peer False) sample_auth"
proof -
  have "AuthFrame_unmarshal sample_auth = Inr \<lparr>auth_Type = TypeAuth, auth_ProtoVersion = ''v2'',
     Proof = BuildAuthProof (replicate 32 2) ''t''\<rparr>"
    unfolding sample_auth_def by (rule AuthFrame_roundtrip) (simp add: AuthFrame_ascii_def)
  then show ?thesis by (simp add: auth_accepted_def)
qed

lemma up_newSessionID [simp]: "length (newSessionID up_env) = 16" "newSessionID up_env \<noteq> []"
proof -
  show "length (newSessionID up_env) = 16" by (rule newSessionID_ok) simp
  then show "newSessionID up_env \<noteq> []" by auto
qed

text \<open>A packet with an IPv4 header byte.\<close>

definition packet :: "nat \<Rightarrow> bytes" where
  "packet n = 0x45 # replicate n 0"

lemma packet_ok [simp]: "isIPPacket (packet n)" "packet n \<noteq> []" "length (packet n) = Suc n"
  by (simp_all add: isIPPacket_def packet_def)

subsection \<open>Connections\<close>

definition up_net :: net where
  "up_net = \<lparr>rx = [], rx_end = ETimeout, tx = [], write_ok = (\<lambda>_. True), dgrams = [], dgram_ok = (\<lambda>_. True),
     dev_out = [], dev_ok = (\<lambda>_. True)\<rparr>"

lemma up_net_ok [simp]: "all_writes_ok up_net"
  by (simp add: all_writes_ok_def up_net_def)

definition win_client :: SecureTCPClient where
  "win_client = \<lparr>cl_cfg = win_cfg ''v2'', cl_sessionID = sample_sid, cl_udp = True, cl_seq = 0\<rparr>"

lemma same_session_sample: "same_session win_client (replicate 32 2) 7 0 (one_session True)"
  by (simp add: same_session_def one_session_inv win_client_def win_cfg_def)

text \<open>
  A command-line client on UDP with a version 2 session; its datagram socket never answers, and
  one answer waits on its connection.
\<close>

definition cli_cfg :: ClientConfig where
  "cli_cfg = \<lparr>cc_ServerAddress = [], cc_ServerUDP = ''1.2.3.4:1'', cc_ServerTCP = ''1.2.3.4:2'',
     cc_ProtocolVersion = ''v2'', cc_EnableMultiTransport = True, cc_PreSharedKey = ''psk'',
     cc_ServerPublicKey = PublicKey toy_keys, cc_ClientPrivateKey = PrivateKey toy_keys,
     cc_ClientPublicKey = PublicKey toy_keys, cc_KeyFile = [], cc_TransportMode = ''udp'', cc_TunName = [],
     cc_TunCIDR = [], cc_TunGateway = [], cc_EnableTunnel = False, cc_EnableObfs = False\<rparr>"

definition cli_client :: CliClient where
  "cli_client = (New_client 0 cli_cfg)\<lparr>c_sessionID := sample_sid\<rparr>"

definition cli_net :: "bytes list \<Rightarrow> cnet" where
  "cli_net cs = \<lparr>chunks = cs, chunks_end = ETimeout, sent = [], send_ok = (\<lambda>_. True), dg_out = [],
     dg_ok = (\<lambda>_. True), dg_in = []\<rparr>"

lemma cli_net_sel [simp]: "chunks (cli_net cs) = cs" "send_ok (cli_net cs) i" "sent (cli_net cs) = []"
    "dg_ok (cli_net cs) d" "dg_in (cli_net cs) = []" "dg_out (cli_net cs) = []"
  by (simp_all add: cli_net_def)

lemma cli_client_sel [simp]: "cc_ProtocolVersion (c_cfg cli_client) = ''v2''" "current (c_policy cli_client) = ModeUDP"
    "consecutiveFailures (c_policy cli_client) = 0" "failuresUDP (c_policy cli_client) = 0"
    "c_sessionID cli_client = sample_sid" "c_seq cli_client = 0" "profile (c_policy cli_client) = ''stealth''"
proof -
  have "\<not> EqualFold_tcp ''udp''" by code_simp
  then show "cc_ProtocolVersion (c_cfg cli_client) = ''v2''" "current (c_policy cli_client) = ModeUDP"
    "consecutiveFailures (c_policy cli_client) = 0" "failuresUDP (c_policy cli_client) = 0"
    "c_sessionID cli_client = sample_sid" "c_seq cli_client = 0" "profile (c_policy cli_client) = ''stealth''"
    by (simp_all add: cli_client_def New_client_def cli_cfg_def NewEngine_def)
qed

lemma int_text_0: "length (int_text 0) \<le> 19"
  by (rule int_text_length) simp_all

text \<open>One tick in which the datagram plane times out and the answer comes over the connection.\<close>

lemma cli_tick:
  assumes "BuildDataFrameV2 zero_rng (replicate 32 2) 2 9 ''drip'' [1] 48 = Inr raw"
  shows "\<exists>c' n'. sessionTicks True (replicate 32 2) [(zero_rng, 0, (0, 0), (0, 0), 5)] cli_client (cli_net [frame_bytes raw])
    = (Inr (), c', n')"
proof -
  define plain where "plain = probe_message 0"
  define mode where "mode = SelectObfsModeForProfile ''stealth'' 1 (length plain)"
  have plain: "length plain \<le> 1000" using int_text_0 by (simp add: plain_def probe_message_def)
  have m: "mode \<in> obfs_modes" "''drip'' \<in> obfs_modes"
    using SelectObfsModeForProfile_modes by (simp_all add: mode_def obfs_modes_def)
  have a: "ascii mode" using obfs_modes_plain [OF m(1)] plain_text_ascii by blast
  define c where "c = cli_client\<lparr>c_seq := 1\<rparr>"
  define c1 where "c1 = c\<lparr>c_policy := Observe 0 0 False 0 (c_policy c)\<rparr>"
  define n where "n = cli_net [frame_bytes raw]"
  obtain d where "BuildDatagramFrameV2 zero_rng (replicate 32 2) sample_sid 2 1 mode plain 48 = Inr d"
    using BuildDatagramFrameV2_ok [of zero_rng, OF zero_rng_simps(1) zero_rng_simps(1) zero_rng_simps(1) a] by blast
  then have u: "request_udp zero_rng (replicate 32 2) mode plain c n = (None, n\<lparr>dg_out := [d]\<rparr>)"
    by (simp add: request_udp_def c_def n_def uc_Send_def uc_Receive_def)
  obtain n2 where t: "request_tcp zero_rng (replicate 32 2) mode plain c1 (n\<lparr>dg_out := [d]\<rparr>) = (Inr [1], n2)"
    using request_tcp_answer [OF m(1) plain _ _ _ _ assms m(2), of zero_rng "n\<lparr>dg_out := [d]\<rparr>" "[]" c1]
    by (auto simp: n_def)
  have "request zero_rng 0 0 True (replicate 32 2) plain cli_client n = (Inr ([1], False), c1, n2)"
    using request_falls_back [of cli_client zero_rng "replicate 32 2" plain n "n\<lparr>dg_out := [d]\<rparr>" 0 0 "Inr [1]" n2] u t
    by (simp add: mode_def c_def c1_def)
  then show ?thesis by (simp add: sessionTick_def plain_def n_def)
qed

text \<open>A tick in which neither plane answers.\<close>

lemma cli_client_start: "lastSwitchAt (c_policy cli_client) = 0"
  by (simp add: cli_client_def New_client_def NewEngine_def)

lemma cli_tick_fails: "\<exists>e c' n'. sessionTick zero_rng now ts us rtt True (replicate 32 2) cli_client (cli_net []) = (Inl e, c', n')"
proof -
  have "\<exists>e. fst (Client_Receive fin []) = Inl e" for fin
    by (simp add: Client_Receive_readFrame readFrame_def read_exact_def)
  then have recv: "Client_Receive fin [] = (r, rest) \<Longrightarrow> \<exists>e. r = Inl e" for fin r rest by (metis fst_conv)
  have tcp: "\<exists>e n'. request_tcp rng k mode plain c n = (Inl e, n')" if "chunks n = []" for rng k mode plain c n
    using that by (auto simp: request_tcp_def tc_Send_def tc_Receive_def dest: recv split: sum.splits prod.splits)
  have udp: "\<exists>n'. request_udp rng k mode plain c n = (None, n') \<and> chunks n' = chunks n" if "dg_in n = []" for rng k mode plain c n
    using that by (auto simp: request_udp_def uc_Send_def uc_Receive_def split: sum.splits prod.splits)
  have "\<exists>e c' n'. request rng t t' True k plain cli_client (cli_net []) = (Inl e, c', n')" for rng t t' k plain
  proof -
    let ?c = "cli_client\<lparr>c_seq := 1\<rparr>"
    let ?m = "SelectObfsModeForProfile ''stealth'' 1 (length plain)"
    obtain n1 where u: "request_udp rng k ?m plain ?c (cli_net []) = (None, n1)" "chunks n1 = []"
      using udp [of "cli_net []"] by fastforce
    obtain e n2 where "request_tcp (rng_skip 3 rng) k ?m plain (?c\<lparr>c_policy := Observe t t' False 0 (c_policy ?c)\<rparr>) n1 = (Inl e, n2)"
      using tcp [OF u(2)] by blast
    then show ?thesis using u request_falls_back [of cli_client rng k plain "cli_net []" n1 t t' "Inl e" n2] by auto
  qed
  then obtain e c' n' where "request zero_rng (fst ts) (snd ts) True (replicate 32 2) (probe_message now) cli_client (cli_net [])
      = (Inl e, c', n')" by blast
  then show ?thesis by (auto simp: sessionTick_def)
qed

definition client_members :: "(string \<times> json) list" where
  "client_members = [(''server_tcp'', JStr ''h:1''), (''pre_shared_key'', JStr ''k''), (''server_public_key'', JStr ''s''),
     (''client_private_key'', JStr ''c''), (''client_public_key'', JStr ''d'')]"

definition client_file :: bytes where
  "client_file = json_marshal_indent (JObj client_members)"

lemma ClientConfig_keeps:
  "cc_ServerTCP (ClientConfig_defaults raw c) = cc_ServerTCP c" "cc_PreSharedKey (ClientConfig_defaults raw c) = cc_PreSharedKey c"
  "cc_ServerPublicKey (ClientConfig_defaults raw c) = cc_ServerPublicKey c"
  "cc_ClientPrivateKey (ClientConfig_defaults raw c) = cc_ClientPrivateKey c"
  "cc_ClientPublicKey (ClientConfig_defaults raw c) = cc_ClientPublicKey c"
  by (simp_all add: ClientConfig_defaults_def Let_def fill_skip)

lemma WinConfig_keeps:
  "wc_ServerPublicKey (WinConfig_defaults raw c) = wc_ServerPublicKey c"
  "wc_ClientPrivateKey (WinConfig_defaults raw c) = wc_ClientPrivateKey c"
  by (simp_all add: WinConfig_defaults_def Let_def fill_skip)

lemma client_file_runs: "\<exists>ex cl. client_program (\<lambda>_. []) (\<lambda>_. Inr client_file) 0 toy_x25519 [] = (ex, Some cl)"
proof -
  have "obj_members client_file = Inr client_members"
    unfolding client_file_def by (rule obj_members_marshal_indent) (simp_all add: client_members_def max_depth_def ascii_def)
  moreover have "\<exists>c. ClientConfig_decode client_members = Inr c \<and> cc_ServerTCP c = ''h:1'' \<and> cc_PreSharedKey c = ''k''
      \<and> cc_ServerPublicKey c = ''s'' \<and> cc_ClientPrivateKey c = ''c'' \<and> cc_ClientPublicKey c = ''d''"
    by (simp add: ClientConfig_decode_def client_members_def field_eval)
  ultimately obtain c where c: "LoadClientConfig (Inr client_file) = Inr c" "cc_ServerTCP c \<noteq> []" "cc_PreSharedKey c \<noteq> []"
      "cc_ServerPublicKey c \<noteq> []" "cc_ClientPrivateKey c \<noteq> []" "cc_ClientPublicKey c \<noteq> []"
    by (auto simp: LoadClientConfig_def load_with_Inr ClientConfig_keeps)
  then show ?thesis by (simp add: client_program_def Client_Validate_def New_client_def split: prod.splits)
qed

text \<open>A session of the Windows client that cannot connect, in a run that is then stopped.\<close>

definition dead_world :: win_world where
  "dead_world = \<lparr>ww_draw = ones, ww_rng = zero_rng, ww_now = 0, ww_tcp = Inl ENet, ww_resolved = Inr (),
     ww_dialled = Inr (), ww_net = up_net, ww_adapter = (True, True, True), ww_pings = [], ww_events = [], ww_done = True\<rparr>"

subsection \<open>The machine\<close>

text \<open>A world in which the installed rules are the state and every other command succeeds.\<close>

definition verb :: "string list \<Rightarrow> string" where
  "verb args = (if hd args = ''-t'' then args ! 2 else hd args)"

definition as_check :: "string list \<Rightarrow> string list" where
  "as_check args = (if hd args = ''-t'' then take 2 args @ ''-C'' # drop 3 args else ''-C'' # tl args)"

definition sim_os :: "(string \<times> string list) list os" where
  "sim_os c w =
     (if hd c \<in> iptables_bins \<and> verb (tl c) = ''-C''
      then (((if (hd c, tl c) \<in> set w then None else Some ''exit status 1''), []), w)
      else if hd c \<in> iptables_bins \<and> verb (tl c) = ''-A'' then ((None, []), (hd c, as_check (tl c)) # w)
      else ((None, (if c = [''ip'', ''route'', ''show'', ''default''] then ''default via 10.0.0.1 dev eth0'' else [])), w))"

lemma rule_verb: "is_rule r \<Longrightarrow> verb (r a) = a \<or> a = ''-t''"
  by (auto simp: is_rule_def verb_def rule_in_def rule_out_def rule_nat_def rule_mss_def)

lemma rule_check: "is_rule r \<Longrightarrow> as_check (r ''-A'') = r ''-C''"
  by (auto simp: is_rule_def as_check_def rule_in_def rule_out_def rule_nat_def rule_mss_def)

lemma sim_os_laws: "iptables_laws sim_os (\<lambda>w bin x. count_list w (bin, x))"
proof -
  have v: "verb (r ''-C'') = ''-C''" "verb (r ''-A'') = ''-A''" if "is_rule r" for r
    using rule_verb [OF that, of "''-C''"] rule_verb [OF that, of "''-A''"] by auto
  have n: "''ip'' \<notin> iptables_bins" "''sysctl'' \<notin> iptables_bins" "verb [''-S''] = ''-S''"
    by (simp_all add: iptables_bins_def verb_def)
  have c: "0 < count_list w y \<longleftrightarrow> y \<in> set w" for w :: "(string \<times> string list) list" and y
    by (simp add: neq0_conv [symmetric] count_list_0_iff del: neq0_conv)
  have s: "snd (sim_os [''iptables-legacy'', ''-S''] w) = w" for w
    using n(3) by (simp add: sim_os_def)
  show ?thesis
    unfolding iptables_laws_def
    by (intro conjI allI impI) (simp_all add: sim_os_def v n rule_check fun_eq_iff c s [unfolded sim_os_def])
qed

definition bare_machine :: "(string \<times> string list) list machine" where
  "bare_machine = \<lparr>cmds = [], world = []\<rparr>"

lemma sim_command: "bin \<notin> iptables_bins \<Longrightarrow> fst (runCmd sim_os bin args m) = Inr ()"
  by (simp add: runCmd_def CombinedOutput_def sim_os_def)

lemma sim_route: "fst (detectDefaultLinuxUpstream sim_os m) = Inr ''eth0''"
proof -
  have "after_dev (Fields ''default via 10.0.0.1 dev eth0'') = Some ''eth0''" by code_simp
  then show ?thesis
    by (simp add: detectDefaultLinuxUpstream_def runCmdOut_def CombinedOutput_def sim_os_def iptables_bins_def)
qed

lemma sim_upstream: "fst (upstream_of sim_os c m) \<noteq> []"
proof -
  obtain b m1 where e: "(if sc_UpstreamInterface c = [] then (False, m)
      else linuxInterfaceExists sim_os (sc_UpstreamInterface c) m) = (b, m1)" by (metis prod.exhaust)
  obtain m2 where "detectDefaultLinuxUpstream sim_os m1 = (Inr ''eth0'', m2)"
    using sim_route [of m1] by (metis prod.collapse)
  with e show ?thesis by (auto simp: upstream_of_def Let_def split: bool.splits if_splits)
qed

lemma sim_configures: "\<exists>m'. configureLinuxTunnel sim_os c name m = (Inr (), m')"
proof -
  have bins: "''ip'' \<notin> iptables_bins" "''sysctl'' \<notin> iptables_bins" by (simp_all add: iptables_bins_def)
  have run: "\<exists>m'. runCmd sim_os ''ip'' args m = (Inr (), m')" "\<exists>m'. runCmd sim_os ''sysctl'' args m = (Inr (), m')" for args m
    using sim_command [OF bins(1), of args m] sim_command [OF bins(2), of args m] by (metis prod.collapse)+
  obtain m1 where 1: "runCmd sim_os ''ip'' [''addr'', ''add'', sc_TunnelServerCIDR c, ''dev'', name] m = (Inr (), m1)"
    using run(1) by blast
  obtain m2 where 2: "runCmd sim_os ''ip'' [''link'', ''set'', ''dev'', name, ''up''] m1 = (Inr (), m2)" using run(1) by blast
  obtain m3 where 3: "runCmd sim_os ''sysctl'' [''-w'', ''net.ipv4.ip_forward=1''] m2 = (Inr (), m3)" using run(2) by blast
  obtain up m4 where "upstream_of sim_os c m3 = (up, m4)" "up \<noteq> []"
    using sim_upstream [of c m3] by (metis prod.collapse)
  with 1 2 3 show ?thesis by (simp add: configureLinuxTunnel_def split: prod.splits)
qed

text \<open>An empty object as the server's file: every default, and so the tunnel.\<close>

definition server_file :: bytes where
  "server_file = bytes_of_str ''{}''"

lemma server_file_runs: "\<exists>ex s m'. server_program (\<lambda>_. []) (\<lambda>_. Inr server_file) True sim_os Inr [] bare_machine = (ex, Some s, m')"
proof -
  have "\<not> isl (LoadServerConfig (Inr server_file))" by code_simp
  then obtain c where c: "LoadServerConfig (Inr server_file) = Inr c" by (cases "LoadServerConfig (Inr server_file)") auto
  obtain m' where "configureLinuxTunnel sim_os c (sc_TunnelName c) bare_machine = (Inr (), m')"
    using sim_configures by blast
  then have "\<exists>srv m'. create_server True sim_os Inr c bare_machine = (Inr srv, m')"
    by (auto simp: create_server_def newTunnelDevice_def New_def)
  then show ?thesis using c by (auto simp: server_program_def Let_def)
qed

text \<open>A Windows machine with one network card, and a resolver that knows no names.\<close>

definition win_os :: "unit os" where
  "win_os c w = ((None, if hd c = ''powershell''
     then json_print (JObj [(''NextHop'', JStr ''192.168.1.1''), (''ifIndex'', JNum (int_text 7))]) else []), w)"

definition no_names :: resolver where
  "no_names = \<lparr>parse_ipv6 = (\<lambda>_. None), lookup_ip = (\<lambda>_. Inl EOs)\<rparr>"

definition win_members :: "(string \<times> json) list" where
  "win_members = [(''server_public_key'', JStr ''s'')]"

definition win_file :: bytes where
  "win_file = json_marshal_indent (JObj win_members)"

text \<open>A configuration without keys: the first start generates a pair and stores it.\<close>

lemma win_file_runs: "\<exists>cl b. winclient_program (\<lambda>_. []) (\<lambda>_. Inr win_file) (\<lambda>_. None) (Inr ()) ones toy_x25519 True win_os no_names
    [dead_world] m = (Finished, Some cl, m, [], Some b)"
proof -
  have o: "obj_members win_file = Inr win_members"
    unfolding win_file_def by (rule obj_members_marshal_indent) (simp_all add: win_members_def max_depth_def ascii_def)
  have "\<exists>c. WinConfig_decode win_members = Inr c \<and> wc_ServerPublicKey c = ''s'' \<and> wc_ClientPrivateKey c = []"
    by (simp add: WinConfig_decode_def win_members_def field_eval)
  then obtain wc where wc: "LoadConfig (Inr win_file) = Inr wc" "wc_ServerPublicKey wc = ''s''" "wc_ClientPrivateKey wc = []"
    using o by (auto simp: LoadConfig_def load_with_Inr WinConfig_keeps)
  then have "known_pair None wc = None" by (simp add: known_pair_def stored_pair_def)
  from KeyStore_Ensure_fresh [OF this] wc
  obtain c b where a: "App_New toy_x25519 ones None (Inr ()) wc = (Inr c, Some b)"
    by (simp add: App_New_def toy_keys_generated Let_def)
  have "WinClient_Run toy_x25519 True win_os no_names [dead_world] c m = (Some (Inr ()), c, m, [])"
    by (simp add: runOneSession_def openSession_def dead_world_def)
  then show ?thesis using wc(1) a by (simp add: winclient_program_def exit_of_def)
qed

lemma win_os_route: "getPrimaryDefaultRoute win_os m =
    (Inr \<lparr>NextHop = ''192.168.1.1'', IfIndex = 7\<rparr>,
     after_cmd win_os [''powershell'', ''-NoProfile'', ''-Command'', powershell_query] m)"
proof -
  let ?ms = "[(''NextHop'', JStr ''192.168.1.1''), (''ifIndex'', JNum (int_text 7))]"
  have m: "obj_members (bytes_of_str (json_print (JObj ?ms))) = Inr ?ms"
    unfolding json_marshal_def [symmetric] by (rule obj_members_marshal) (simp_all add: max_depth_def ascii_def)
  have f: "str_field ''NextHop'' ?ms = Some ''192.168.1.1''" "int_field ''ifIndex'' ?ms = Some 7"
    by (simp_all add: str_field_def int_field_def matches_field_def fold_name_ascii ascii_lower_def between_def
        in_int64_def)
  have "CombinedOutput win_os ''powershell'' args m
      = ((None, json_print (JObj ?ms)), after_cmd win_os (''powershell'' # args) m)" for args
    by (simp add: CombinedOutput_def win_os_def after_cmd_def del: json_print.simps)
  then show ?thesis
    by (simp add: getPrimaryDefaultRoute_def m f del: json_print.simps)
qed

lemma sample_endpoint: "resolveEndpointToIPv4 no_names ''1.2.3.4:443'' = Inr ''1.2.3.4''"
  by code_simp

subsection \<open>The panel\<close>

definition panel_cfg :: PanelConfig where
  "panel_cfg = \<lparr>pc_ListenAddr = '':1'', pc_AdminUser = ''admin'', pc_AdminPassword = ''pw'', pc_StateFile = ''f'',
     pc_ServerLogPath = [], pc_EnableServiceOp = False, pc_ServiceName = ''dsp''\<rparr>"

definition panel_env :: penv where
  "panel_env = \<lparr>p_now = 0, p_draw = ones, p_save = True, p_exec = (\<lambda>_ _. ([], [])), p_log = None, p_stat = (\<lambda>_. None)\<rparr>"

definition empty_state :: State where
  "empty_state = \<lparr>Inbounds = [], Clients = [], state_Settings = DefaultSettings\<rparr>"

lemma empty_state_marshal: "State_marshal empty_state \<noteq> None"
  by (simp add: State_marshal_None empty_state_def)

definition panel0 :: PanelServer where
  "panel0 = \<lparr>ps_cfg = panel_cfg, ps_store = \<lparr>st_state = empty_state, st_saved = saved_now True empty_state\<rparr>,
     ps_auth = newAuthManager ''admin'' ''pw'', started = 0, reqCount = 0\<rparr>"

lemma panel0_init: "panel_init panel0"
proof -
  have "New_panel 0 Missing True panel_cfg = Inr panel0"
    using empty_state_marshal
    by (auto simp: New_panel_def NewStore_def load_def saveLocked_def panel0_def saved_now_def empty_state_def [symmetric])
      (simp add: panel_cfg_def)
  moreover have "ids_ok (st_state (ps_store panel0))" by (simp add: panel0_def ids_ok_def empty_state_def)
  ultimately show ?thesis unfolding panel_init_def by blast
qed

definition login_req :: request where
  "login_req = \<lparr>req_Method = ''POST'', req_EscapedPath = ''/api/login'', req_Cookie = None, req_Lines = [],
     req_Body = Inr [(''username'', JStr ''admin''), (''password'', JStr ''pw'')]\<rparr>"

lemma login_path: "mux_handler login_req = Matched ''/api/login''"
proof -
  have "mux_match (path_segments ''/api/login'') = ''/api/login''" "path_segments ''/api/login'' = [''api'', ''login'']"
    "cleanPath ''/api/login'' = ''/api/login''" by code_simp+
  then show ?thesis by (simp add: mux_handler_def login_req_def)
qed

definition the_token :: string where
  "the_token = hexEncodeToString (replicate 24 1)"

lemma login_run: "sessions (ps_auth (panel_step (panel_env, login_req) panel0)) = [the_token \<mapsto> \<lparr>si_User = ''admin'', si_ExpiresAt = day\<rparr>]"
    "ps_store (panel_step (panel_env, login_req) panel0) = ps_store panel0"
proof -
  have b: "decode_body (\<lambda>_. str_members [''username'', ''password'']) [] login_req = Some [''admin'', ''pw'']"
    by (simp add: decode_body_def login_req_def str_members_def matches_plain between_def is_digit_def)
  have "panel_step (panel_env, login_req) panel0
      = snd (handleLogin panel_env login_req (panel0\<lparr>reqCount := reqCount panel0 + 1\<rparr>))"
    by (simp add: panel_step_def serve_def route_def login_path dispatch_def)
  then show "sessions (ps_auth (panel_step (panel_env, login_req) panel0)) = [the_token \<mapsto> \<lparr>si_User = ''admin'', si_ExpiresAt = day\<rparr>]"
    "ps_store (panel_step (panel_env, login_req) panel0) = ps_store panel0"
    using b by (simp_all add: handleLogin_def Login_def panel_env_def ones_def read_full_def panel0_def newAuthManager_def
        Let_def the_token_def map_replicate_const) (simp_all add: login_req_def)
qed

definition delete_req :: request where
  "delete_req = \<lparr>req_Method = ''DELETE'', req_EscapedPath = ''/api/clients/x'', req_Cookie = Some the_token, req_Lines = [],
     req_Body = Inl EEOF\<rparr>"

lemma delete_path: "mux_handler delete_req = Matched ''/api/clients/''" "req_Path delete_req = ''/api/clients/x''"
proof -
  have "mux_match (path_segments ''/api/clients/x'') = ''/api/clients/''" "path_segments ''/api/clients/x'' = [''api'', ''clients'', ''x'']"
    "cleanPath ''/api/clients/x'' = ''/api/clients/x''" "path_unescape ''/api/clients/x'' = ''/api/clients/x''" by code_simp+
  then show "mux_handler delete_req = Matched ''/api/clients/''" "req_Path delete_req = ''/api/clients/x''"
    by (simp_all add: mux_handler_def delete_req_def req_Path_def)
qed

lemma the_token_nonempty: "the_token \<noteq> []"
  using length_hexEncode [of "replicate 24 1"] by (auto simp: the_token_def)

lemma delete_changes: "ps_store (snd (serve panel_env delete_req (panel_step (panel_env, login_req) panel0)))
    \<noteq> ps_store (panel_step (panel_env, login_req) panel0)"
proof -
  define t where "t = panel_step (panel_env, login_req) panel0"
  have "fst (Validate 0 the_token (ps_auth t))" "snd (Validate 0 the_token (ps_auth t)) = ps_auth t"
    using login_run(1) by (simp_all add: t_def Validate_def day_def)
  then have "ps_store (snd (serve panel_env delete_req t)) = snd (DeleteClient True ''x'' (ps_store t))"
    using the_token_nonempty
    by (simp add: serve_def route_def delete_path dispatch_def authOnly_def Let_def split_beta handleClientByID_def trim_prefix_def)
      (simp add: delete_req_def readSessionToken_def panel_env_def)
  moreover have "st_saved (snd (DeleteClient True ''x'' (ps_store t))) \<noteq> st_saved (ps_store t)"
    using empty_state_marshal login_run(2)
    by (auto simp: DeleteClient_def saveLocked_saved saved_now_def t_def panel0_def empty_state_def remove_id_def)
  ultimately have "ps_store (snd (serve panel_env delete_req t)) \<noteq> ps_store t" by metis
  then show ?thesis unfolding t_def .
qed

definition sample_client :: Client where
  "sample_client = \<lparr>cl_ID = ''c1'', cl_Email = ''a@b'', cl_InboundID = ''i'', cl_ExpiresAt = (1709240399500000000, 10800),
     cl_Enabled = True, cl_CreatedAt = UTC 0\<rparr>"

lemma format_None: "format_rfc3339 (t, off) = None \<longleftrightarrow>
    (case civil ((t div 1000000000 + off) div 86400) of (y, m, d) \<Rightarrow> y < 0 \<or> 9999 < y \<or> 86400 \<le> \<bar>off\<bar>)"
  by (simp add: format_rfc3339_def Let_def split: prod.splits)

lemma sample_client_ok: "client_text_ok sample_client"
  "State_marshal \<lparr>Inbounds = [], Clients = [sample_client], state_Settings = DefaultSettings\<rparr> \<noteq> None"
proof -
  have "format_rfc3339 (1709240399500000000, 10800) \<noteq> None" "format_rfc3339 (UTC 0) \<noteq> None"
    unfolding UTC_def format_None by code_simp+
  then show "State_marshal \<lparr>Inbounds = [], Clients = [sample_client], state_Settings = DefaultSettings\<rparr> \<noteq> None"
    by (simp add: State_marshal_None sample_client_def enc_time_def)
qed (simp add: client_text_ok_def sample_client_def whole_zone_def UTC_def)

lemma sample_client_dates: "enc_time (cl_ExpiresAt sample_client) \<noteq> None" "enc_time (cl_CreatedAt sample_client) \<noteq> None"
  using sample_client_ok(2) by (simp_all add: State_marshal_None)

definition get_clients_req :: request where
  "get_clients_req = \<lparr>req_Method = ''GET'', req_EscapedPath = ''/api/clients'', req_Cookie = Some the_token, req_Lines = [],
     req_Body = Inr []\<rparr>"

lemma empty_state_text: "state_text_ok empty_state"
  by (simp add: state_text_ok_def empty_state_def settings_text_ok_def DefaultSettings_def in_int64_def)

lemma late_expiry: "parse_rfc3339 False ''9999-12-31T23:59:59-01:00'' = Some (253402304399000000000, - 3600)"
  "format_rfc3339 (UTC 253402304399000000000) = None"
  unfolding UTC_def format_None by code_simp+

end
