(* ===== verification/Spec2Isabelle.thy ===== *)
theory Spec2Isabelle
  imports EndToEnd CliSession PanelRuns TunnelSetup Mux ServerBehaviour Connections TunnelSession JsonIndent Programs Samples
begin

text \<open>
  The program is a tunnel. A client reads IP packets from a local device and sends each one,
  encrypted, to a server over one of two planes, frames on a TCP connection or UDP datagrams; the
  server gives them to its own tunnel device and sends back what that device receives. There are
  two clients (\<open>internal/client\<close>, a probe for the command line, and \<open>internal/winclient\<close>, the
  Windows tunnel), one server (\<open>internal/server\<close>) and an administration panel
  (\<open>internal/panel\<close>), which shares no state with the server.

  \<^bold>\<open>How the theories follow the code\<close>

    \<^item> \<open>Prelude\<close>: bytes, strings, \<open>int64\<close> wrap-around, errors as values, the random source.
    \<^item> \<open>Base64\<close>, \<open>GoJson\<close>, \<open>GoTime\<close>, \<open>TimeText\<close>, \<open>GoPath\<close>, \<open>Crypto\<close>: what the program uses of Go's standard library.
      \<open>json_parse\<close> is a pushdown automaton with one value stack; field names match without regard
      to case as in \<open>encoding/json\<close>; \<open>parse_rfc3339\<close> is \<open>time.Parse\<close>,
      \<open>format_rfc3339\<close> the JSON form of a time. SHA-256, HMAC, AES-256 and GCM
      are definitions; the scalar multiplication of X25519 is a parameter with the laws \<open>x25519_laws\<close>.
    \<^item> \<open>JsonRound\<close>: printing then parsing a value returns it, no proper prefix of a printed object
      is a document, and how a decoder finds a printed member. \<open>JsonIndent\<close>: the same for
      \<open>MarshalIndent\<close>, in which all files are written.
    \<^item> \<open>Handshake\<close>: \<open>secureproto/keys.go\<close>, \<open>handshake.go\<close>, \<open>handshake_v2.go\<close>, \<open>handshake/handshake.go\<close>.
    \<^item> \<open>SecureFrames\<close>: \<open>secureproto/cipher.go\<close>, \<open>frame_v2.go\<close>, \<open>datagram_v2.go\<close>, \<open>policy_engine.go\<close>.
    \<^item> \<open>Wire\<close>: \<open>proto/packet.go\<close>, the framing of \<open>transport/tcp\<close> and of \<open>winclient/frame_io.go\<close>,
      the buffering reader of the TCP client, the receive buffer of \<open>transport/udp\<close>.
    \<^item> \<open>Policy\<close>: \<open>policy/policy.go\<close> and \<open>obfs/obfs.go\<close>. \<open>Mux\<close>: \<open>mux/mux.go\<close>, sequentially and
      under concurrent calls.
    \<^item> \<open>Config\<close>: \<open>config/config.go\<close> and \<open>winclient/config.go\<close>.
    \<^item> \<open>Systems\<close>: the interface of a component that runs (an initial state, a step per event, an
      invariant, a log) and of one that implements another; the locales are interpreted in
      \<open>ServerRuns\<close>, \<open>ServerMain\<close>, \<open>TunnelSession\<close>, \<open>PanelStore\<close> and \<open>PanelRuns\<close>. \<open>Goroutines\<close>: the program
      counter of a goroutine that loops, shared by \<open>TunnelSession\<close> and \<open>ServerMain\<close>.
    \<^item> \<open>ServerSessions\<close>, \<open>Server\<close>: \<open>server/server.go\<close>, \<open>server_sessions.go\<close>, \<open>server_secure.go\<close>,
      \<open>server_udp_secure.go\<close>, \<open>tunnel_types.go\<close>. A \<open>*connState\<close> is an address in a heap, so that the two
      tables \<open>conns\<close> and \<open>bySID\<close> can share a state as they do in Go. \<open>ServerRuns\<close> makes the handlers the
      steps of a transition system; \<open>ServerBehaviour\<close> has what single handlers do; \<open>Connections\<close> the
      goroutine of one TCP connection; \<open>ServerMain\<close> is \<open>Server.Run\<close> with \<open>reapIdleSessions\<close>, the listeners'
      loops of \<open>udp.Server.Serve\<close> and \<open>tcp.Server.Serve\<close>, and the channel of errors.
    \<^item> \<open>WinClient\<close>: \<open>winclient/secure_client.go\<close>, \<open>key_store.go\<close>, \<open>app.go\<close>. \<open>CliSession\<close>:
      \<open>client/client.go\<close>. \<open>EndToEnd\<close>: client and server on one connection. \<open>Wintun\<close>:
      \<open>tunnel_device_windows.go\<close>. \<open>TunnelSession\<close>: the three goroutines of \<open>runTunnelSession\<close> and the function
      that waits for them, as a step relation. \<open>ClientRuns\<close>: whole sessions of both clients and their \<open>Run\<close>.
    \<^item> \<open>TunnelSetup\<close>: \<open>server/tunnel_linux.go\<close> and \<open>winclient/tunnel_device.go\<close>, the commands run to set
      up the interface, the firewall and the routes.
    \<^item> \<open>PanelModel\<close>, \<open>PanelStore\<close>, \<open>PanelServer\<close>, \<open>PanelRuns\<close>, \<open>PanelAnswers\<close>: \<open>panel/model.go\<close>, \<open>store.go\<close>, \<open>auth.go\<close>,
      \<open>server.go\<close>; the saved file and the answers to the byte, the multiplexer with its redirects, the front end's files.
    \<^item> \<open>Programs\<close>: the five \<open>main\<close> functions under \<open>cmd/\<close>, which compose all of this, and the stubs for
      other systems.
    \<^item> \<open>Samples\<close>: concrete values for the witnesses; it models nothing.

  \<^bold>\<open>How effects are modelled\<close>

  A handler is a function from the state to the state. What is outside (clock readings, random
  draws, whether a write succeeds, what a command answers) is an argument: \<open>env\<close> on the server, \<open>net\<close>
  and \<open>cnet\<close> on the clients, \<open>os\<close> for commands, \<open>penv\<close> for the panel. Every result of the random
  source and every failure is thus quantified over. What goes out is appended to a list (\<open>effects\<close>,
  \<open>tx\<close>, \<open>dgrams\<close>, \<open>cmds\<close>), so order and number are part of a statement. A Go map whose iteration order
  matters is visited in an order given as an argument. A mutex protects a step: the runs of
  \<open>ServerRuns\<close> interleave whole handlers, and \<open>ServerBehaviour\<close> and \<open>Mux\<close> split where the code releases
  a lock. A nil dereference is the effect \<open>NilDeref\<close>, a panic of a channel is \<open>None\<close>.

  \<^bold>\<open>What the groups of lemmas show\<close>

  The programs: a server that runs has a complete configuration, installed firewall rules and
  consistent sessions in every interleaving of its goroutines (C2, C3, C5, C21), and a Windows client
  keeps its keys and releases what it opened (C12). The two handshakes agree and a packet crosses the
  tunnel unchanged (C1, C6, C16, C36); nothing reaches either tunnel device without the session key
  (C4, C7, C14); what \<open>Serve\<close> does with a connection is a run of the handlers, and a closed connection is
  dead (C9, C10, C11). The goroutines of a client's session and of the server never block on their
  channels and end when told to, once a blocked read returns (C3, C13, C26, C27). The policy engine
  (C15, C23, C24), the codecs (C28 to C31, C37), the panel's store, its file, its answers, its logins
  and its front end (C8, C17 to C20, C33, C39), the routes (C22), the loaded configurations (C40).
  Properties that show where the code falls short state the behaviour exactly as it is (C19, C23, C25
  to C27, C31 to C33, C37, C38).

  \<^bold>\<open>Bounds and termination\<close>

  No definition uses fuel: loops are structural recursions or come with a measure. \<open>serve_frames\<close>
  ends because each frame shortens the stream, \<open>bufio_read_full\<close> because each chunk is used up. A
  loop that waits (a ticker, an accept, a read with a deadline) takes one pass per event, and a run is
  a list of events: every finite prefix of what the program does. That \<open>Run\<close> or a session has not
  returned is a value of the state (\<open>RunWaiting\<close>, \<open>None\<close>), so blocking is stated and proved as such. The
  receive buffers of 2048 and 65535 bytes and the frame limit of 65535 bytes are the code's own.

  \<^bold>\<open>Not modelled\<close>

  What a system call or a package outside the repository does (sockets, files, \<open>water\<close>, the wintun
  driver, commands) is an argument: its outcome is quantified over. Left out: log lines, the texts of
  wrapped errors and of errors of the standard library, the pages of redirects, JSON strings with
  characters beyond ASCII in the round trips, data races between goroutines within one handler (a
  step is a whole handler, or the part of it between two locks where a theory says so), and the web
  front end. \<open>VerifyReady\<close> returns three values and \<open>client.go\<close> uses the call as a condition, which Go
  does not compile; the model takes the first.
\<close>

text \<open>
  C1: The version 2 handshake of an honest client and server (each knows the other's public key,
  both the pre-shared key, the clocks are close, sources and connection work) ends on both
  sides: the two frames the server answers with make doHandshake return the very session key the
  server stores, the server's state is ready and bound under the session identifier the client
  keeps.
\<close>

theorem handshake_v2_agreement:
  assumes "honest_setup x25519 ck sk (cl_cfg cl) (cfg s) shared"
    and "wc_ProtocolVersion (cl_cfg cl) = ''v2''" "conns s c = None"
    and "draw_ok d" "draw_ok (env_rng e1 0)" "draw_ok (env_rng e2 0)"
    and "conn_ok e1 c" "conn_ok e2 c" "env_x25519 e1 = x25519" "all_writes_ok n"
    and "0 \<le> now" "now < 2 ^ 63"
    and "ValidateTimestamp (clock e1 2 div 1000000000) now (sc_HandshakeSkewSec (cfg s))"
  shows "\<exists>hello auth w1 w2 key s2.
    s2 = handleTCPPayload e2 c auth (handleTCPPayload e1 c hello s)
    \<and> effects s2 = effects s @ [TCPWrite c w1, TCPWrite c w2]
    \<and> doHandshake x25519 d now cl (n\<lparr>rx := w1 @ w2\<rparr>)
        = (Inr key, cl\<lparr>cl_sessionID := newSessionID e2\<rparr>,
           n\<lparr>rx := [], tx := tx n @ [frame_bytes hello, frame_bytes auth]\<rparr>)
    \<and> conns s2 c = Some (next_ptr s) \<and> secureReady (heap s2 (next_ptr s))
    \<and> sessionKey (heap s2 (next_ptr s)) = key \<and> protoVersion (heap s2 (next_ptr s)) = ''v2''
    \<and> sessionID (heap s2 (next_ptr s)) = newSessionID e2 \<and> bySID s2 (newSessionID e2) = Some (next_ptr s)"
  using handshake_v2_agrees [OF assms] by blast

theorem handshake_v2_agreement_witness:
  "\<exists>hello auth key. secureReady (heap (handleTCPPayload up_env 7 auth (handleTCPPayload up_env 7 hello empty_server)) 0)
    \<and> sessionKey (heap (handleTCPPayload up_env 7 auth (handleTCPPayload up_env 7 hello empty_server)) 0) = key
    \<and> length key = 32"
proof -
  have "honest_setup toy_x25519 toy_keys toy_keys (cl_cfg win_client) (cfg empty_server) base_point"
    using honest_sample by (simp add: win_client_def empty_server_def)
  from handshake_v2_agreement [OF this, of 7 ones up_env up_env up_net 0]
  obtain hello auth key n' cl' n where "secureReady (heap (handleTCPPayload up_env 7 auth (handleTCPPayload up_env 7 hello empty_server)) 0)"
    "sessionKey (heap (handleTCPPayload up_env 7 auth (handleTCPPayload up_env 7 hello empty_server)) 0) = key"
    "sessionID (heap (handleTCPPayload up_env 7 auth (handleTCPPayload up_env 7 hello empty_server)) 0) = newSessionID up_env"
    "conns (handleTCPPayload up_env 7 auth (handleTCPPayload up_env 7 hello empty_server)) 7 = Some 0"
    by (auto simp: win_client_def win_cfg_def empty_server_def ones_def ValidateTimestamp_def Let_def in_int64_def)
  moreover have "server_inv (fold server_step [EvTCP up_env 7 hello, EvTCP up_env 7 auth] empty_server)"
    by (rule server.reach_inv [OF empty_server_init(2)])
  ultimately show ?thesis
    using server_inv_conn(3) by (fastforce simp: state_ok_def)
qed





text \<open>
  C4: Every packet the server ever gave to its tunnel device was carried, encrypted under the
  session key of a ready peer, by the frame or datagram of one step of the run; it is an IP
  packet and no longer than the configured maximum.
\<close>

theorem tunnel_audit:
  assumes "server_init s"
  shows "set (tunnel_log (fold server_step evs s)) \<subseteq> {w. \<exists>before e after. evs = before @ e # after
    \<and> authentic e (fold server_step before s) w \<and> isIPPacket w
    \<and> int (length w) \<le> sc_MaxPacketSize (cfg (fold server_step before s))}"
proof
  fix w assume "w \<in> set (tunnel_log (fold server_step evs s))"
  moreover have "tunnel_log s = []"
    using assms by (auto simp: server_init_def New_def Let_def tunnel_log_def map_filter_def split: if_splits sum.splits)
  ultimately show "w \<in> {w. \<exists>before e after. evs = before @ e # after
    \<and> authentic e (fold server_step before s) w \<and> isIPPacket w
    \<and> int (length w) \<le> sc_MaxPacketSize (cfg (fold server_step before s))}"
    using server.sourced [OF server.init_inv [OF assms], of w evs] by (auto simp: tunnel_justified_def)
qed

theorem tunnel_audit_witness:
  "packet 20 \<notin> set (tunnel_log (fold server_step [EvReap up_env [7], EvListenUDP] empty_server))"
  using tunnel_audit [OF empty_server_init(2), of "[EvReap up_env [7], EvListenUDP]"]
  by (auto simp: Cons_eq_append_conv)



text \<open>
  C6: When the two ends of a version 2 session are up, the client accepts every IP packet of at
  most 1320 bytes read from its device, sends exactly one frame or one datagram for it, and that
  frame (on the connection) or datagram (through the receive buffer, from any address) makes the
  server write exactly this packet to its tunnel.
\<close>

theorem packet_delivery:
  assumes "same_session cl key c p s" "tunnel s" "udpSrv s" "isIPPacket pkt" "tun_ok env pkt"
    and "length pkt \<le> 1320" "int (length pkt) \<le> sc_MaxPacketSize (cfg s)"
    and "2048 \<le> wrap64 (sc_MaxPacketSize (cfg s) * 8)" "length (cl_sessionID cl) = 16"
    and "\<And>i. draw_ok (rng i)" "all_writes_ok n"
  shows "\<exists>cl' n'. sendEncryptedPayload rng key pkt 1 cl n = (Inr (), cl', n') \<and>
    ((\<exists>raw. tx n' = tx n @ [frame_bytes raw] \<and> dgrams n' = dgrams n
        \<and> tunnel_log (handleTCPPayload env c raw s) = tunnel_log s @ [pkt])
     \<or> (\<exists>d. dgrams n' = dgrams n @ [d] \<and> tx n' = tx n
        \<and> tunnel_log (handleUDPPayload env a (udp_receive d) s) = tunnel_log s @ [pkt]))"
  by (rule packet_delivered [OF assms])

theorem packet_delivery_witness:
  "\<exists>cl' n'. sendEncryptedPayload zero_rng (replicate 32 2) (packet 1000) 1 win_client up_net = (Inr (), cl', n')"
proof -
  have sid: "length (cl_sessionID win_client) = 16" by (simp add: win_client_def)
  show ?thesis
    using packet_delivery [OF same_session_sample _ _ _ _ _ _ _ sid, of "packet 1000" up_env zero_rng up_net "''a''"]
    by simp blast
qed

text \<open>
  C7: A live session becomes ready in one kind of step only: a frame on its own connection that
  is either a hello of another version than 2 with a fresh timestamp and the right tag, or, for
  a session that has been sent a ticket, the proof for this ticket under its session key. No
  datagram, reaper round or tunnel packet makes a session ready.
\<close>

theorem ready_only_by_own_handshake:
  assumes "server_inv s" "conns s c = Some p" "\<not> secureReady (heap s p)" "secureReady (heap (server_step e s) p)"
  shows "\<exists>env payload. e = EvTCP env c payload \<and>
    ((\<exists>hello nonce. ParseHello payload = Inr (hello, nonce) \<and> hello_accepted env s hello nonce
        \<and> hello_ProtoVersion hello \<noteq> ''v2'' \<and> \<not> awaitAuthV2 (heap s p))
     \<or> (awaitAuthV2 (heap s p) \<and> auth_accepted (heap s p) payload))"
  by (rule ready_step [OF assms]) blast

theorem ready_only_by_own_handshake_witness:
  "\<exists>env payload. EvTCP up_env 7 sample_auth = EvTCP env 7 payload \<and> auth_accepted (peer False) payload"
proof -
  have "secureReady (heap (server_step (EvTCP up_env 7 sample_auth) (one_session False)) 0)"
    using server_auth_v2(4) [of "one_session False" 7 0 "replicate 32 2" "''t''" up_env]
    by (simp add: sample_auth_def)
  from ready_only_by_own_handshake [OF one_session_inv _ _ this, of 7] show ?thesis by auto
qed

text \<open>
  C8: The panel's store refines two maps from identifiers and the settings: any sequence of
  operations on the two lists, with any outcomes of the saves, is the same sequence of writes
  and deletes on the maps, and an update of the settings stores them with the defaults filled
  in.
\<close>

theorem store_refines_maps:
  "abs_store (fold store_step ops s) = fold spec_step (map snd ops) (abs_store s)"
  by (rule store_run_refines)

text \<open>
  C9: The connection loop of Serve hands its handler exactly the frames written to the stream,
  in order and whole, whatever follows them, and it ends after at most a third as many frames as
  the stream has bytes.
\<close>

theorem stream_reassembly:
  assumes "list_all frame_ok ps"
  shows "serve_frames fin (concat (map frame_bytes ps) @ rest) = ps @ serve_frames fin rest
    \<and> list_all frame_ok (serve_frames fin rest) \<and> 3 * length (serve_frames fin rest) \<le> length rest"
  using serve_frames_frames [OF assms] serve_frames_ok serve_frames_bound by blast

theorem stream_reassembly_witness:
  "serve_frames EEOF (concat (map frame_bytes [[1], [2, 3]]) @ [9]) = [[1], [2, 3]]"
  using stream_reassembly [of "[[1], [2, 3]]" EEOF "[9]"] serve_frames_short [of "[9]" EEOF]
  by (simp add: frame_ok_def)

text \<open>
  C10: What Serve does with a connection, chunk by chunk through its buffering reader, is what
  the server does with the frames of the stream, in order: with all of them, or with those up to
  some frame at which the server closed the connection and those left in the buffer.
\<close>

theorem connection_loop_refines:
  "\<exists>handled rest. serve_frames fin (concat stream) = handled @ rest
     \<and> serve_connection fin c envs stream s = handle_frames (\<lambda>k. handleTCPPayload (envs k) c) 0 handled s
     \<and> (rest = [] \<or> (\<exists>n. 0 < n \<and> n \<le> length handled
          \<and> closed_by c (handle_frames (\<lambda>k. handleTCPPayload (envs k) c) 0 (take n handled) s)))"
  using serve_loop_prefix [of fin "[]" stream "\<lambda>k. handleTCPPayload (envs k) c" "closed_by c" 0 s]
  unfolding serve_connection_def append_Nil .

text \<open>
  C11: The buffering reader still hands over what it holds after the server has closed a
  connection. Whatever these frames are, a complete handshake included, they change neither
  table of sessions nor any session's state, and none of them reaches the tunnel.
\<close>

theorem closed_connection_stays_dead:
  assumes "conns s c = None" "\<And>k. \<not> conn_ok (envs k) c"
    and t_def: "t = serve_loop fin (\<lambda>k. handleTCPPayload (envs k) c) (closed_by c) k buf stream s"
  shows "conns t = conns s \<and> bySID t = bySID s \<and> (\<forall>p < next_ptr s. heap t p = heap s p) \<and> tunnel_log t = tunnel_log s"
proof -
  have "same_sessions s t" unfolding t_def by (rule dead_connection [OF assms(1,2)])
  then show ?thesis by (simp add: same_sessions_def)
qed

theorem closed_connection_stays_dead_witness:
  "conns (serve_loop ENet (\<lambda>k. handleTCPPayload (up_env\<lparr>conn_ok := (\<lambda>_. False)\<rparr>) 7) (closed_by 7) 0
       (frame_bytes [1, 2, 3]) [] empty_server) = conns empty_server"
  using closed_connection_stays_dead [of empty_server 7 "\<lambda>k. up_env\<lparr>conn_ok := (\<lambda>_. False)\<rparr>", OF _ _ refl]
  by (simp add: empty_server_def)

text \<open>
  C12: A Windows client that has started keeps, through all its sessions, a complete
  configuration with the key pair that the next start will find in its file or its
  configuration. Once the program has returned, it has closed as many adapters as it asked the
  driver for sessions, those of failed sessions included, and its datagram socket.
\<close>

theorem winclient_program_run:
  assumes "x25519_laws x25519"
    and "winclient_program getenv files keyfile io d x25519 windows os rs ws m = (ex, Some cl, m', cs, kept)"
  shows "ex \<in> {Serving, Finished}
    \<and> (\<exists>wc k. LoadConfig (files (config_path getenv ''DSP_WINCLIENT_CONFIG'' ''configs/winclient.json'')) = Inr wc
         \<and> WinConfig_ok wc \<and> cl_cfg cl = with_pair k wc
         \<and> known_pair (case kept of None \<Rightarrow> keyfile (wc_KeyFile wc) | Some b \<Rightarrow> Some b) wc = Some k)
    \<and> (ex = Finished \<longrightarrow> \<not> cl_udp cl \<and> count_list cs CloseAdapter = count_list cs StartSession)"
  using winclient_run_facts [OF assms] unfolding released_def by metis

theorem winclient_program_run_witness:
  "\<exists>cl kept. winclient_program (\<lambda>_. []) (\<lambda>_. Inr win_file) (\<lambda>_. None) (Inr ()) ones toy_x25519 True win_os no_names [dead_world]
       \<lparr>cmds = [], world = ()\<rparr> = (Finished, Some cl, \<lparr>cmds = [], world = ()\<rparr>, [], kept)
     \<and> \<not> cl_udp cl \<and> kept \<noteq> None"
proof -
  obtain cl b where p: "winclient_program (\<lambda>_. []) (\<lambda>_. Inr win_file) (\<lambda>_. None) (Inr ()) ones toy_x25519 True win_os no_names
      [dead_world] \<lparr>cmds = [], world = ()\<rparr> = (Finished, Some cl, \<lparr>cmds = [], world = ()\<rparr>, [], Some b)"
    using win_file_runs by blast
  from winclient_program_run [OF toy_x25519_laws p] p show ?thesis by blast
qed

text \<open>
  C13: In every run of a tunnel session (its three goroutines, the function that waits for them,
  arriving bytes, failing writes and an interrupt, in any order) the goroutines never wait for
  room in the error channel, the function returns nil only after an interrupt, and when it has
  returned no goroutine is left.
\<close>

theorem tunnel_session_invariant:
  assumes "t = fold (ts_step key) evs (ts_start c n)"
  shows "length (errCh t) + running (up_pc t) + running (down_pc t) + running (dgram_pc t) \<le> 3
    \<and> (main t = Returned None \<longrightarrow> interrupted t)
    \<and> (\<forall>r. main t = Returned r \<longrightarrow> up_pc t = Gone \<and> down_pc t = Gone \<and> dgram_pc t = Gone)
    \<and> (main t = Selecting \<and> up_pc t = Gone \<and> down_pc t = Gone \<and> dgram_pc t = Gone \<longrightarrow> interrupted t \<or> errCh t \<noteq> [])"
proof -
  have "ts_init (ts_start c n)" by (auto simp: ts_init_def)
  then have "ts_inv t" unfolding assms by (rule tunnel_session.reach_inv)
  then show ?thesis by (auto simp: ts_inv_def)
qed

theorem tunnel_session_invariant_witness:
  "main (fold (ts_step []) ([Interrupt, PickInterrupt] @ returns zero_rng (Inl EOs) (Inl ETimeout)) (ts_start win_client up_net)) = Returned None
    \<and> interrupted (fold (ts_step []) ([Interrupt, PickInterrupt] @ returns zero_rng (Inl EOs) (Inl ETimeout)) (ts_start win_client up_net))"
proof -
  let ?t = "fold (ts_step []) ([Interrupt, PickInterrupt] @ returns zero_rng (Inl EOs) (Inl ETimeout)) (ts_start win_client up_net)"
  have "main ?t = Returned None" by (simp add: ts_start_def returns_def loop_head_def)
  then show ?thesis using tunnel_session_invariant [OF refl [of ?t]] by blast
qed

text \<open>
  C14: Every packet the Windows client ever writes to its tunnel device in a session was
  decrypted with the session key in one step of the run: from the next frame on the connection,
  or from a datagram on channel 1 that carries the session's own identifier; and it is not
  empty.
\<close>

theorem client_device_audit:
  assumes "dev_out n = []" "w \<in> set (dev_out (ts_n (fold (ts_step key) evs (ts_start c n))))"
  shows "w \<noteq> [] \<and> (\<exists>before e after s. evs = before @ e # after \<and> s = fold (ts_step key) before (ts_start c n)
    \<and> (e = DownGot \<and> (\<exists>n'. readEncryptedPayload key (ts_c s) (ts_n s) = (Inr w, n'))
       \<or> (\<exists>raw frame. e = DgramGot (Inr raw) \<and> ParseDatagramFrameV2 key (udp_receive raw) = Inr (frame, w)
            \<and> dg_SessionID frame = cl_sessionID (ts_c s) \<and> dg_Channel frame = 1)))"
proof -
  have "ts_init (ts_start c n)" by (auto simp: ts_init_def)
  moreover have "dev_out (ts_n (ts_start c n)) = []" by (simp add: ts_start_def assms(1))
  ultimately obtain before e after where e: "evs = before @ e # after"
    and j: "ts_justified key e (fold (ts_step key) before (ts_start c n)) w"
    using tunnel_session.sourced [OF tunnel_session.init_inv assms(2)] by auto
  define s where "s = fold (ts_step key) before (ts_start c n)"
  have "w \<noteq> []" and src: "e = DownGot \<and> (\<exists>n'. readEncryptedPayload key (ts_c s) (ts_n s) = (Inr w, n'))
       \<or> (\<exists>raw frame. e = DgramGot (Inr raw) \<and> ParseDatagramFrameV2 key (udp_receive raw) = Inr (frame, w)
            \<and> dg_SessionID frame = cl_sessionID (ts_c s) \<and> dg_Channel frame = 1)"
    using j by (cases e; simp add: s_def; fail)+
  with e s_def show ?thesis by blast
qed

theorem client_device_audit_witness:
  "\<exists>raw. packet 40 \<in> set (dev_out (ts_n (fold (ts_step (replicate 32 2)) [Dgram, DgramGot (Inr raw)] (ts_start win_client up_net))))
    \<and> (\<exists>frame. ParseDatagramFrameV2 (replicate 32 2) (udp_receive raw) = Inr (frame, packet 40) \<and> dg_Channel frame = 1)"
proof -
  let ?k = "replicate 32 2 :: bytes"
  have m: "''burst'' \<in> obfs_modes" by (simp add: obfs_modes_def)
  then have a: "ascii ''burst''" using obfs_modes_plain plain_text_ascii by blast
  obtain raw where raw: "BuildDatagramFrameV2 zero_rng ?k sample_sid 1 7 ''burst'' (packet 40) 64 = Inr raw"
    using BuildDatagramFrameV2_ok [of zero_rng, OF zero_rng_simps(1) zero_rng_simps(1) zero_rng_simps(1) a] by blast
  note sid = sample_sid_ok(1-3)
  then have u: "udp_receive raw = raw" using datagram_fits [OF raw m] by simp
  obtain d where "ParseDatagramFrameV2 ?k raw = Inr (d, packet 40)" "dg_SessionID d = sample_sid" "dg_Channel d = 1"
    using ParseDatagram_BuildDatagram [OF raw a plain_text_ascii [OF sid(1)] sid(3)] by blast
  then have "packet 40 \<in> set (dev_out (ts_n (fold (ts_step ?k) [Dgram, DgramGot (Inr raw)] (ts_start win_client up_net))))"
    using u sid(3) by (simp add: ts_start_def loop_head_def datagramRound_def win_client_def up_net_def dev_WritePacket_def)
  moreover from client_device_audit [OF _ this] have "\<exists>frame. ParseDatagramFrameV2 ?k (udp_receive raw) = Inr (frame, packet 40) \<and> dg_Channel frame = 1"
    by (auto simp: Cons_eq_append_conv up_net_def)
  ultimately show ?thesis by blast
qed

text \<open>
  C15: Through all sessions of the command-line client, however they end, its configuration
  stays the loaded one, its policy engine goes only through observations from its start on, so
  its two fault counters stay equal and its mode is UDP or TCP; and Run returns nothing but nil.
\<close>

theorem client_run_engine:
  assumes "client_program getenv files now x25519 ws = (ex, Some cl)"
  shows "ex \<in> {Serving, Finished}
    \<and> LoadClientConfig (files (config_path getenv ''DSP_CLIENT_CONFIG'' ''configs/client.json'')) = Inr (c_cfg cl)
    \<and> (\<exists>evs. c_policy cl = engine_run evs (c_policy (New_client now (c_cfg cl)))
         \<and> (\<forall>e \<in> set evs. \<exists>ok rtt. snd (snd e) = EvObserve ok rtt))
    \<and> current (c_policy cl) \<in> {ModeUDP, ModeTCP} \<and> failuresUDP (c_policy cl) = consecutiveFailures (c_policy cl)"
proof -
  obtain c r where c: "LoadClientConfig (files (config_path getenv ''DSP_CLIENT_CONFIG'' ''configs/client.json'')) = Inr c"
    and r: "Client_Run x25519 ws (New_client now c) = (r, cl)" and ex: "ex = exit_of ''client stopped with error'' r"
    using assms by (auto simp: client_program_def Let_def split: sum.splits prod.splits)
  have o: "observed (New_client now c) cl" and n: "r = None \<or> r = Some (Inr ())"
    using run_observed [OF r] by simp_all
  then have "c_cfg cl = c" by (simp add: observed_def New_client_def)
  moreover have "engine_inv (c_policy cl)" by (rule observed_engine_inv [OF o New_client_inv])
  ultimately show ?thesis
    using c o n ex by (auto simp: exit_of_def observed_def engine_inv_def)
qed

theorem client_run_engine_witness:
  "\<exists>ex cl. client_program (\<lambda>_. []) (\<lambda>_. Inr client_file) 0 toy_x25519 [] = (ex, Some cl)
    \<and> failuresUDP (c_policy cl) = consecutiveFailures (c_policy cl)"
proof -
  obtain ex cl where p: "client_program (\<lambda>_. []) (\<lambda>_. Inr client_file) 0 toy_x25519 [] = (ex, Some cl)"
    using client_file_runs by blast
  from client_run_engine [OF p] p show ?thesis by blast
qed

text \<open>
  C16: The version 1 handshake of an honest client and server ends after one frame each way with
  the same session key on both sides, and the server is ready without waiting for anything from
  the client.
\<close>

theorem handshake_v1_agreement:
  assumes "honest_setup x25519 ck sk (cl_cfg cl) (cfg s) shared"
    and "wc_ProtocolVersion (cl_cfg cl) = ''v1''" "conns s c = None"
    and "draw_ok d" "draw_ok (env_rng e1 0)" "conn_ok e1 c" "env_x25519 e1 = x25519" "all_writes_ok n"
    and "0 \<le> now" "now < 2 ^ 63"
    and "ValidateTimestamp (clock e1 2 div 1000000000) now (sc_HandshakeSkewSec (cfg s))"
  shows "\<exists>hello w key s1.
    s1 = handleTCPPayload e1 c hello s \<and> effects s1 = effects s @ [TCPWrite c w]
    \<and> doHandshake x25519 d now cl (n\<lparr>rx := w\<rparr>) = (Inr key, cl, n\<lparr>rx := [], tx := tx n @ [frame_bytes hello]\<rparr>)
    \<and> conns s1 c = Some (next_ptr s) \<and> secureReady (heap s1 (next_ptr s))
    \<and> sessionKey (heap s1 (next_ptr s)) = key \<and> protoVersion (heap s1 (next_ptr s)) = ''v1''"
  using handshake_v1_agrees [OF assms] by blast

theorem handshake_v1_agreement_witness:
  "\<exists>hello. secureReady (heap (handleTCPPayload up_env 7 hello empty_server) 0)"
proof -
  have "honest_setup toy_x25519 toy_keys toy_keys (cl_cfg (win_client\<lparr>cl_cfg := win_cfg ''v1''\<rparr>)) (cfg empty_server) base_point"
    using honest_sample by (simp add: win_client_def empty_server_def)
  from handshake_v1_agreement [OF this, of 7 ones up_env up_net 0] show ?thesis
    by (auto simp: win_cfg_def empty_server_def ones_def ValidateTimestamp_def Let_def in_int64_def)
qed

text \<open>
  C17: A request changes the panel's stored state only when it carries a live token, and that
  token was handed out by an earlier request of the run: a login with the configured user name
  and a password with the configured hash, which got the token as its cookie.
\<close>

theorem store_changes_need_a_login:
  assumes "panel_init s" and t_def: "t = fold panel_step reqs s"
    and "ps_store (snd (serve env r t)) \<noteq> ps_store t"
  shows "authorized env r t \<and> (\<exists>before e after. reqs = before @ e # after
    \<and> login_grants e (fold panel_step before s) (readSessionToken r))"
proof -
  have tok: "readSessionToken r \<in> dom (sessions (ps_auth (fold panel_step reqs s)))"
    using store_change_authorized(2) [OF assms(3)] by (simp add: t_def)
  moreover have "sessions (ps_auth s) = (\<lambda>_. None)"
    using assms(1) by (rule panel_init_no_sessions)
  ultimately show ?thesis
    using panel.sourced [OF panel.init_inv [OF assms(1)] tok] store_change_authorized(1) [OF assms(3)] by auto
qed

theorem store_changes_need_a_login_witness:
  "login_grants (panel_env, login_req) panel0 the_token
    \<and> ps_store (snd (serve panel_env delete_req (panel_step (panel_env, login_req) panel0)))
        \<noteq> ps_store (panel_step (panel_env, login_req) panel0)"
proof -
  have "ps_store (snd (serve panel_env delete_req (panel_step (panel_env, login_req) panel0)))
      \<noteq> ps_store (panel_step (panel_env, login_req) panel0)" by (rule delete_changes)
  moreover from this have "\<exists>before e after. [(panel_env, login_req)] = before @ e # after
      \<and> login_grants e (fold panel_step before panel0) (readSessionToken delete_req)"
    using store_changes_need_a_login [OF panel0_init, of _ "[(panel_env, login_req)]" panel_env delete_req] by simp
  moreover have "readSessionToken delete_req = the_token" by (simp add: readSessionToken_def delete_req_def)
  ultimately show ?thesis by (auto simp: Cons_eq_append_conv)
qed

text \<open>
  C18: The panel's state survives a restart: after any run whose values are ASCII text, 64-bit
  numbers and times in whole-minute zones, when an operation's save succeeds, a new store that
  loads the bytes of the file has exactly the state the old one had, every list, setting and
  time to the nanosecond.
\<close>

theorem restart_keeps_state:
  assumes "store_init s" "state_text_ok (st_state s)" "list_all (\<lambda>e. op_text_ok (snd e)) (ops @ [e])"
    and t_def: "t = fold store_step ops s" and "st_saved (store_step e t) \<noteq> st_saved t"
  shows "\<exists>t'. NewStore (Contents (last (st_saved (store_step e t)))) ok = Inr t' \<and> st_state t' = st_state (store_step e t)"
proof -
  have r: "store_step e t = fold store_step (ops @ [e]) s" by (simp add: t_def)
  have "settings_ok (state_Settings (st_state (store_step e t)))"
    using panel_store.reach_inv [OF assms(1), of "ops @ [e]"] unfolding r by (simp add: store_inv_def)
  moreover have "state_text_ok (st_state (store_step e t))" unfolding r by (rule text_ok_run [OF assms(2,3)])
  ultimately show ?thesis using load_saved [OF last_saved [OF assms(5)]] by blast
qed

theorem restart_keeps_state_witness:
  "\<exists>t :: Store. st_state t = \<lparr>Inbounds = [], Clients = [sample_client], state_Settings = DefaultSettings\<rparr>
    \<and> (\<exists>t'. NewStore (Contents (last (st_saved t))) True = Inr t' \<and> st_state t' = st_state t)"
proof -
  let ?s = "\<lparr>st_state = empty_state, st_saved = saved_now True empty_state\<rparr>"
  let ?e = "(True, OpUpsertClient sample_client)"
  have "NewStore Missing True = Inr ?s"
    using empty_state_marshal by (auto simp: NewStore_def load_def saveLocked_def saved_now_def empty_state_def [symmetric])
  then have i: "store_init ?s" unfolding store_init_def by (auto simp: ids_ok_def empty_state_def)
  have "st_state (store_step ?e ?s) = \<lparr>Inbounds = [], Clients = [sample_client], state_Settings = DefaultSettings\<rparr>"
    by (simp add: UpsertClient_def empty_state_def)
  moreover from this have "st_saved (store_step ?e ?s) \<noteq> st_saved ?s"
    using step_saved [of True "OpUpsertClient sample_client" ?s] sample_client_ok(2) by (auto simp: saved_now_def)
  ultimately show ?thesis
    using restart_keeps_state [OF i _ _ refl, where ops = "[]" and e = ?e and ok = True] sample_client_ok(1) empty_state_text
    by - (rule exI [of _ "store_step ?e ?s"], simp)
qed



text \<open>
  C20: The front end serves no file outside its directory, whatever bytes the request's path
  holds, encoded or not: a file that is served lies in web-ui/dist or web, under the elements of
  the path, none of which is .. or holds a slash, or it is the directory's index.html.
\<close>

theorem frontend_stays_inside:
  assumes "\<And>dir. p_stat env dir = Some False \<Longrightarrow> p_stat env (path_Join dir ''index.html'') = None"
    and "rbody (fst (handleSPA env r s)) = BFile f"
  shows "\<exists>root elems. root \<in> {''web-ui/dist'', ''web''} \<and> findFrontendRoot (p_stat env) = Some root
    \<and> f = join_with CHR ''/'' (root # elems) \<and> (elems = path_elems (req_Path r) \<or> elems = [''index.html''])
    \<and> (\<forall>e \<in> set elems. e \<notin> {[], ''.'', ''..''} \<and> CHR ''/'' \<notin> set e)"
proof -
  have api: "take 5 (req_Path r) \<noteq> ''/api/''"
    using assms(2) by (rule contrapos_pn) (simp add: handleSPA_def http_Error_def)
  moreover have "findFrontendRoot (p_stat env) \<noteq> None"
    using assms(2) by (rule contrapos_pn) (simp add: handleSPA_def http_Error_def)
  ultimately obtain root where root: "findFrontendRoot (p_stat env) = Some root" by blast
  then have "p_stat env (path_Join root ''index.html'') = Some False" by (auto simp: findFrontendRoot_def split: if_splits)
  then have "p_stat env root \<noteq> Some False" using assms(1) [of root] by auto
  from handleSPA_serves [OF root api this, of s] assms(2)
  have dd: "\<not> containsDotDot (req_Path r)" and f: "f = frontend_file (p_stat env) root (path_elems (req_Path r))"
    by (auto simp: http_Error_def ServeFile_def ok_response_def split: if_splits)
  have elems: "\<forall>e \<in> set (path_elems (req_Path r)). e \<notin> {[], ''.'', ''..''} \<and> CHR ''/'' \<notin> set e"
    using path_elems_proper no_dotdot [OF dd] by (fastforce simp: proper_def path_elems_def)
  show ?thesis
  proof (cases "f = join_with CHR ''/'' (root # path_elems (req_Path r))")
    case True
    then show ?thesis using root frontend_roots [OF root] elems by blast
  next
    case False
    then have "f = join_with CHR ''/'' (root # [''index.html''])" by (auto simp: f frontend_file_def Let_def split: if_splits)
    then show ?thesis using root frontend_roots [OF root] by (intro exI [of _ root] exI [of _ "[''index.html'']"]) auto
  qed
qed

theorem frontend_stays_inside_witness:
  "\<exists>env. p_stat env ''web/app.js'' = Some False
    \<and> (\<exists>elems. rbody (fst (handleSPA env (delete_req\<lparr>req_EscapedPath := ''/%2e/app.js''\<rparr>) panel0)) = BFile ''web/app.js''
        \<and> (\<forall>e \<in> set elems. e \<noteq> ''..'') \<and> ''web/app.js'' = join_with CHR ''/'' (''web'' # elems))"
proof -
  define env where "env = panel_env\<lparr>p_stat := (\<lambda>f. if f = ''web/app.js'' \<or> f = ''web/index.html'' then Some False else None)\<rparr>"
  have st: "p_stat env = (\<lambda>f. if f = ''web/app.js'' \<or> f = ''web/index.html'' then Some False else None)" by (simp add: env_def)
  have j: "path_Join ''web/app.js'' ''index.html'' = ''web/app.js/index.html''" "path_Join ''web/index.html'' ''index.html'' = ''web/index.html/index.html''"
    "path_Join ''web'' ''index.html'' = ''web/index.html''" "path_Join ''web-ui/dist'' ''index.html'' = ''web-ui/dist/index.html''"
    "path_Clean (trim_prefix ''/'' ''/./app.js'') = ''app.js''" "path_Join ''web'' ''app.js'' = ''web/app.js''"
    "path_unescape ''/%2e/app.js'' = ''/./app.js''" "containsDotDot ''/./app.js'' = False" "has_suffix ''/index.html'' ''/./app.js'' = False"
    by code_simp+
  have root: "findFrontendRoot (p_stat env) = Some ''web''" by (simp add: findFrontendRoot_def st j)
  have law: "p_stat env (path_Join dir ''index.html'') = None" if "p_stat env dir = Some False" for dir
    using that by (auto simp: st j split: if_splits)
  have b: "rbody (fst (handleSPA env (delete_req\<lparr>req_EscapedPath := ''/%2e/app.js''\<rparr>) panel0)) = BFile ''web/app.js''"
  proof -
    have "req_Path (delete_req\<lparr>req_EscapedPath := ''/%2e/app.js''\<rparr>) = ''/./app.js''"
      unfolding req_Path_def by (simp add: j(7) del: path_unescape.simps)
    moreover have "p_stat env ''web/app.js'' = Some False" by (simp add: st)
    ultimately show ?thesis using root by (simp add: handleSPA_def ServeFile_def j Let_def ok_response_def)
  qed
  obtain root elems where r: "findFrontendRoot (p_stat env) = Some root" "''web/app.js'' = join_with CHR ''/'' (root # elems)"
    "\<forall>e \<in> set elems. e \<notin> {[], ''.'', ''..''} \<and> CHR ''/'' \<notin> set e"
    using frontend_stays_inside [OF law b] by blast
  have "root = ''web''" using root r(1) by (simp only: option.inject)
  moreover have "p_stat env ''web/app.js'' = Some False" by (simp add: st)
  moreover have "\<forall>e \<in> set elems. e \<noteq> ''..''" using r(3) by (metis insertCI)
  ultimately show ?thesis using b r(2) by metis
qed





text \<open>
  C23: A client whose engine is fresh and on UDP and whose requests all succeed never leaves
  UDP, however often the datagram plane fails: each fault is followed by the success of the
  repeated request over TCP, which resets the counters, so every request pays the datagram
  timeout again.
\<close>

theorem client_never_leaves_UDP:
  assumes "current (c_policy c) = ModeUDP" "consecutiveFailures (c_policy c) = 0" "failuresUDP (c_policy c) = 0"
    and "sessionTicks uc k ticks c n = (Inr (), c', n')"
  shows "current (c_policy c') = ModeUDP"
  using sessionTicks_stay [OF assms(4)] assms(1-3) by (simp add: fresh_on_UDP_def)

theorem client_never_leaves_UDP_witness:
  "\<exists>raw c' n'. sessionTicks True (replicate 32 2) [(zero_rng, 0, (0, 0), (0, 0), 5)] cli_client (cli_net [frame_bytes raw])
     = (Inr (), c', n') \<and> current (c_policy c') = ModeUDP"
proof -
  obtain raw where "BuildDataFrameV2 zero_rng (replicate 32 2) 2 9 ''drip'' [1] 48 = Inr raw"
    using BuildDataFrameV2_ok by fastforce
  then obtain c' n' where t: "sessionTicks True (replicate 32 2) [(zero_rng, 0, (0, 0), (0, 0), 5)] cli_client
      (cli_net [frame_bytes raw]) = (Inr (), c', n')" using cli_tick by blast
  from client_never_leaves_UDP [OF _ _ _ t] t show ?thesis by auto
qed

text \<open>
  C24: A probe of a version 2 client on UDP that fails on the datagram plane and on the
  connection counts two faults: once the engine's pause of two seconds is over the client is on
  TCP, so the next session does not try the datagram plane first.
\<close>

theorem failed_probe_leaves_UDP:
  assumes "sessionTick rng now ts us rtt True k c n = (Inl e, c', n')"
    and "cc_ProtocolVersion (c_cfg c) = ''v2''" "c_sessionID c \<noteq> []"
    and "engine_inv (c_policy c)" "current (c_policy c) = ModeUDP"
    and "0 \<le> consecutiveFailures (c_policy c)" "consecutiveFailures (c_policy c) < 2 ^ 62"
    and "lastSwitchAt (c_policy c) + 2 * Second < fst ts" "fst ts \<le> fst us"
  shows "current (c_policy c') = ModeTCP"
  using two_faults_switch_to_TCP [OF assms(4-9)] failed_tick [OF assms(1,2,5,3)] by simp

theorem failed_probe_leaves_UDP_witness:
  "\<exists>e c' n'. sessionTick zero_rng 0 (3 * Second, 3 * Second) (4 * Second, 4 * Second) 5 True (replicate 32 2)
      cli_client (cli_net []) = (Inl e, c', n') \<and> current (c_policy c') = ModeTCP"
proof -
  obtain e c' n' where t: "sessionTick zero_rng 0 (3 * Second, 3 * Second) (4 * Second, 4 * Second) 5 True
      (replicate 32 2) cli_client (cli_net []) = (Inl e, c', n')" using cli_tick_fails by blast
  have "engine_inv (c_policy cli_client)" by (simp add: cli_client_def New_client_inv)
  then have "current (c_policy c') = ModeTCP"
    by (intro failed_probe_leaves_UDP [OF t]) (simp_all add: cli_client_start Second_def)
  with t show ?thesis by blast
qed

text \<open>
  C25: The race the two locks of handleTCPPayload allow: the handler has fetched the state of a
  waiting connection and released the lock, the reaper drops the connection, and the handler
  goes on with the proof. The session ends up ready and bound to its identifier although no
  connection owns its state, and no later reaper round, which walks over the connections,
  unbinds it as long as no live connection carries the same identifier.
\<close>

theorem reaper_race_orphan:
  assumes "server_inv s" "conns s c = Some p" "awaitAuthV2 (heap s p)" "0 < sc_SessionIdleSec (cfg s)"
    and "reaped renv order s c" "auth_accepted (heap s p) payload" "newSessionID env \<noteq> []"
    and t_def: "t = handleTCPState env c payload p (dropIdleConnStates renv order s)"
  shows "bySID t (newSessionID env) = Some p \<and> p \<notin> ran (conns t) \<and> secureReady (heap t p)
    \<and> ((\<forall>q \<in> ran (conns t). sessionID (heap t q) \<noteq> newSessionID env)
        \<longrightarrow> bySID (dropIdleConnStates renv' order' t) (newSessionID env) = Some p)"
  using reaper_race [OF assms(1-7), folded t_def] orphan_not_reaped [of t "newSessionID env" p renv' order']
  by (auto simp: ran_def)

theorem reaper_race_orphan_witness:
  "bySID (handleTCPState up_env 7 sample_auth 0 (dropIdleConnStates (up_env\<lparr>clock := (\<lambda>_. 10 ^ 15)\<rparr>) [7] (one_session False)))
     (newSessionID up_env) = Some 0"
proof -
  have "reaped (up_env\<lparr>clock := (\<lambda>_. 10 ^ 15)\<rparr>) [7] (one_session False) 7"
    by (simp add: reaped_def idle_def idle_cutoff_def wrap64_def)
  from reaper_race_orphan [OF one_session_inv _ _ _ this _ _ refl, of 0 sample_auth up_env]
  show ?thesis using sample_auth_accepted by simp
qed

text \<open>
  C26: Run waits for the relay, and nothing closes the tunnel device the relay reads. A server
  that is told to stop while the relay waits for a packet does not return, whatever else
  happens, until the read returns; once one packet has come, the next deadlines of the listeners
  let Run return nil.
\<close>

theorem quiet_tunnel_holds_shutdown:
  fixes evs
  assumes "relay_pc s = InCall" "run_main s = RunSelecting"
    and "\<And>env order rd. RelayRead env order rd \<notin> set evs"
  defines "s' \<equiv> fold run_step ([Stop, PickStop] @ evs) s"
  shows "run_main s' = RunWaiting \<and> run_main (fold run_step (shutdown env order rd a u t) s') = RunReturned (Inr ())"
proof -
  let ?s = "fold run_step [Stop, PickStop] s"
  have "relay_pc ?s = InCall" "run_main ?s = RunWaiting" "stopped ?s" using assms(1,2) by simp_all
  then have "run_main s' = RunWaiting" "stopped s'"
    using blocked_run_waits [OF _ _ assms(3), of ?s] stopped_stays [of ?s evs] by (simp_all add: s'_def)
  then show ?thesis by (simp add: shutdown_returns)
qed

theorem quiet_tunnel_holds_shutdown_witness:
  "run_main (fold run_step [Stop, PickStop, Reap None, UdpListen (Inr ()) (Inr ()), UdpRead up_env TimedOut, TcpListen (Inr ()),
      TcpAccept TimedOut, Finish] (run_step RelayHead (run_start empty_server))) = RunWaiting"
  using quiet_tunnel_holds_shutdown [of "run_step RelayHead (run_start empty_server)"
      "[Reap None, UdpListen (Inr ()) (Inr ()), UdpRead up_env TimedOut, TcpListen (Inr ()), TcpAccept TimedOut, Finish]"]
  by (simp add: run_start_def empty_server_def loop_head_def)





text \<open>
  C29: A built datagram parses under the session key to its payload, session identifier,
  channel, sequence number and mode, and the header the server reads before it knows the key
  names the same session.
\<close>

theorem datagram_roundtrip:
  assumes "BuildDatagramFrameV2 rng k sid ch seq mode p maxPad = Inr raw" "ascii mode" "ascii sid" "sid \<noteq> []"
  shows "(\<exists>d. ParseDatagramFrameV2 k raw = Inr (d, p) \<and> dg_SessionID d = sid \<and> dg_Channel d = ch
      \<and> dg_Sequence d = seq \<and> dg_Mode d = mode)
    \<and> ParseDatagramSessionID raw = Inr sid"
  using ParseDatagram_BuildDatagram [OF assms] ParseDatagramSessionID_of_frame by blast

theorem datagram_roundtrip_witness:
  "\<exists>raw. BuildDatagramFrameV2 zero_rng (replicate 32 2) sample_sid 2 3 ''bind'' (bytes_of_str ''bind'') 24 = Inr raw
    \<and> ParseDatagramSessionID raw = Inr sample_sid"
proof -
  have a: "ascii ''bind''" by (rule plain_text_ascii, rule plain_name_text) (simp add: between_def is_digit_def)
  obtain raw where raw: "BuildDatagramFrameV2 zero_rng (replicate 32 2) sample_sid 2 3 ''bind'' (bytes_of_str ''bind'') 24 = Inr raw"
    using BuildDatagramFrameV2_ok [of zero_rng, OF zero_rng_simps(1) zero_rng_simps(1) zero_rng_simps(1) a] by blast
  then show ?thesis using datagram_roundtrip [OF raw a] by simp
qed

text \<open>
  C30: The buffering reader of the TCP client returns, for every division of the stream into
  chunks, the frame or the error the plain reader finds at the start of the stream.
\<close>

theorem buffered_reader_equivalent:
  "fst (Client_Receive fin cs) = fst (readFrame fin (concat cs))"
  by (rule Client_Receive_readFrame)

text \<open>
  C31: Its buffer is thrown away after each call: the bytes that arrive in one chunk with a
  frame are read ahead and lost, so a second frame sent right behind the first is never
  received.
\<close>

theorem read_ahead_lost:
  assumes "frame_ok p" "length (frame_bytes p @ ahead) \<le> bufio_size"
  shows "Client_Receive fin ((frame_bytes p @ ahead) # rest) = (Inr p, rest)"
  by (rule Client_Receive_coalesced [OF assms])

theorem read_ahead_lost_witness:
  "Client_Receive EEOF [frame_bytes [1] @ frame_bytes [2]] = (Inr [1], [])"
  using read_ahead_lost [of "[1]" "frame_bytes [2]" EEOF "[]"]
  by (simp add: frame_ok_def frame_bytes_def bufio_size_def)

text \<open>
  C32: A hello is in time exactly when its timestamp is at most the skew away from the clock,
  with one exception that two's complement makes: a timestamp exactly 2 to the 63 seconds behind
  the clock is accepted too, because the smallest 64-bit integer is its own negation.
\<close>

theorem timestamp_window:
  assumes "in_int64 ts" "0 \<le> now" "0 \<le> skew" "now + skew < 2 ^ 63"
  shows "ValidateTimestamp now ts skew \<longleftrightarrow> \<bar>now - ts\<bar> \<le> skew \<or> ts = now - 2 ^ 63"
proof -
  consider "in_int64 (now - ts)" "now - ts \<noteq> - (2 ^ 63)" | "ts = now - 2 ^ 63" | "2 ^ 63 < now - ts"
    using assms by (force simp: in_int64_def)
  then show ?thesis
  proof cases
    case 1
    then show ?thesis using ValidateTimestamp_exact [OF 1] by (auto simp: in_int64_def)
  next
    case 2
    then show ?thesis using ValidateTimestamp_overflow(2) [of now skew] assms by (simp add: in_int64_def)
  next
    case 3
    have "wrap64 (now - ts) = now - ts - 2 ^ 64"
      using 3 assms mod_add_self2 [of "now - ts - 2 ^ 63" "2 ^ 64"]
      by (simp add: wrap64_def in_int64_def mod_pos_pos_trivial add.commute)
    moreover have "wrap64 (2 ^ 64 - (now - ts)) = 2 ^ 64 - (now - ts)"
      using 3 assms by (intro wrap64_id) (simp add: in_int64_def)
    ultimately show ?thesis using 3 assms by (simp add: ValidateTimestamp_def Let_def in_int64_def)
  qed
qed

theorem timestamp_window_witness:
  "ValidateTimestamp 1000 940 60 \<and> \<not> ValidateTimestamp 1000 939 60 \<and> ValidateTimestamp 0 (- (2 ^ 63)) 60"
  using timestamp_window [of 940 1000 60] timestamp_window [of 939 1000 60] timestamp_window [of "- (2 ^ 63)" 0 60]
  by (simp add: in_int64_def)

text \<open>
  C33: One accepted request can stop the panel from saving anything: a client whose expiry is a
  valid RFC 3339 time but whose year in UTC has five digits is answered 500, yet stays in the
  store, and from then on no operation that leaves that client alone writes the file.
\<close>

theorem unprintable_expiry_blocks_saves:
  assumes "req_Method r = ''POST''" "decode_body client_req_decode zero_client_req r = Some req"
    and "cr_Email req \<noteq> []" "cr_InboundID req \<noteq> []"
    and "parse_rfc3339 False (cr_ExpiresAt req) = Some x" "format_rfc3339 (UTC (fst x)) = None"
    and s'_def: "s' = snd (handleClients env r s)"
  shows "status (fst (handleClients env r s)) = 500
    \<and> (\<exists>c \<in> set (Clients (st_state (ps_store s'))). cl_Email c = cr_Email req
        \<and> (\<forall>ops. list_all (\<lambda>e. leaves_client (cl_ID c) (snd e)) ops
             \<longrightarrow> st_saved (fold store_step ops (ps_store s')) = st_saved (ps_store s)))"
proof -
  have "enc_time (UTC (fst x)) = None" using assms(6) by (simp add: enc_time_def)
  from post_unprintable [OF assms(1-5) this, of env s, folded s'_def]
  obtain c where "status (fst (handleClients env r s)) = 500" and c: "unprintable_client (ps_store s') c" "cl_Email c = cr_Email req"
    and "st_saved (ps_store s') = st_saved (ps_store s)" by blast
  moreover have "c \<in> set (Clients (st_state (ps_store s')))"
    using c(1) by (auto simp: unprintable_client_def lookup_def find_Some_iff)
  ultimately show ?thesis using unprintable_run [OF c(1)] by metis
qed

theorem unprintable_expiry_blocks_saves_witness:
  "\<exists>r. status (fst (handleClients panel_env r panel0)) = 500
    \<and> (\<exists>c \<in> set (Clients (st_state (ps_store (snd (handleClients panel_env r panel0))))). cl_Email c = ''a@b''
      \<and> st_saved (store_step (True, OpUpdateSettings DefaultSettings) (ps_store (snd (handleClients panel_env r panel0)))) = st_saved (ps_store panel0))"
proof -
  let ?r = "\<lparr>req_Method = ''POST'', req_EscapedPath = ''/api/clients'', req_Cookie = Some the_token, req_Lines = [],
     req_Body = Inr [(''email'', JStr ''a@b''), (''inbound_id'', JStr ''i''), (''expires_at'', JStr ''9999-12-31T23:59:59-01:00'')]\<rparr>"
  let ?q = "\<lparr>cr_ID = [], cr_Email = ''a@b'', cr_InboundID = ''i'', cr_ExpiresAt = ''9999-12-31T23:59:59-01:00'', cr_Enabled = False\<rparr>"
  have d: "decode_body client_req_decode zero_client_req ?r = Some ?q"
    by (simp add: decode_body_def client_req_decode_def zero_client_req_def field_def field_eval)
  note w = unprintable_expiry_blocks_saves [OF _ d _ _ _ _ refl, of "(253402304399000000000, - 3600)" panel_env panel0]
  have "status (fst (handleClients panel_env ?r panel0)) = 500" by (rule w [THEN conjunct1]) (simp_all add: late_expiry)
  moreover obtain c where c: "c \<in> set (Clients (st_state (ps_store (snd (handleClients panel_env ?r panel0)))))" "cl_Email c = ''a@b''"
    and q: "\<And>ops. list_all (\<lambda>e. leaves_client (cl_ID c) (snd e)) ops \<Longrightarrow>
      st_saved (fold store_step ops (ps_store (snd (handleClients panel_env ?r panel0)))) = st_saved (ps_store panel0)"
    using w [THEN conjunct2] late_expiry by auto
  moreover have "st_saved (store_step (True, OpUpdateSettings DefaultSettings) (ps_store (snd (handleClients panel_env ?r panel0)))) = st_saved (ps_store panel0)"
    using q [of "[(True, OpUpdateSettings DefaultSettings)]"] by (simp add: leaves_client_def)
  ultimately show ?thesis by blast
qed

text \<open>
  C34: A reaper round closes exactly the connections it visits whose last activity is before the
  cutoff, each once; it forgets these connections and the session identifiers of their states
  and nothing else.
\<close>

theorem idle_connections_reaped:
  assumes "0 < sc_SessionIdleSec (cfg s)"
  shows "\<exists>cl. set cl = {c \<in> set order. \<exists>p. conns s c = Some p \<and> lastSeen (heap s p) < idle_cutoff env s} \<and> distinct cl
    \<and> effects (dropIdleConnStates env order s) = effects s @ map TCPClose cl
    \<and> conns (dropIdleConnStates env order s) = (\<lambda>c. if c \<in> set cl then None else conns s c)
    \<and> bySID (dropIdleConnStates env order s) = (\<lambda>sid.
        if sid \<noteq> [] \<and> (\<exists>c p. c \<in> set cl \<and> conns s c = Some p \<and> sessionID (heap s p) = sid)
        then None else bySID s sid)
    \<and> heap (dropIdleConnStates env order s) = heap s"
proof -
  have "{c. reaped env order s c} = {c \<in> set order. \<exists>p. conns s c = Some p \<and> lastSeen (heap s p) < idle_cutoff env s}"
    by (auto simp: reaped_def idle_def split: option.splits)
  note c = this
  show ?thesis
    using dropIdle_result [OF assms, where env = env and order = order]
  proof cases
    case (1 cl)
    then show ?thesis by (intro exI [of _ cl]) (simp add: c [symmetric])
  qed
qed

theorem idle_connections_reaped_witness:
  "\<exists>cl. set cl = {7 :: nat} \<and> effects (dropIdleConnStates (up_env\<lparr>clock := (\<lambda>_. 10 ^ 15)\<rparr>) [7] (one_session True)) = map TCPClose cl"
proof -
  have "{c \<in> set [7]. \<exists>p. conns (one_session True) c = Some p
      \<and> lastSeen (heap (one_session True) p) < idle_cutoff (up_env\<lparr>clock := (\<lambda>_. 10 ^ 15)\<rparr>) (one_session True)} = {7}"
    by (auto simp: idle_cutoff_def wrap64_def)
  with idle_connections_reaped [of "one_session True" "[7]" "up_env\<lparr>clock := (\<lambda>_. 10 ^ 15)\<rparr>"] show ?thesis
    by auto
qed

text \<open>
  C35: A version 2 frame that is no tunnel packet is answered with one frame on the same
  connection that decrypts under the session key to dsp-ok: followed by the payload and at most
  32 padding zeros, on the same channel with the next sequence number.
\<close>

theorem echo_reply:
  assumes "server_inv s" "conns s c = Some p" "secureReady (heap s p)" "protoVersion (heap s p) = ''v2''"
    and "sc_ServerPrivateKey (cfg s) \<noteq> []"
    and "payload \<noteq> []" "int (length payload) \<le> wrap64 (sc_MaxPacketSize (cfg s) * 8)"
    and "ParseDataFrameV2 (sessionKey (heap s p)) payload = Inr (frame, plain)"
    and "int (length plain) \<le> sc_MaxPacketSize (cfg s)" "length plain \<le> 48000"
    and "MaxPadding (obfsCfg s) \<le> 32"
    and "\<not> (tunnel s \<and> df_Channel frame = 1 \<and> isIPPacket plain)"
    and "draw_ok (env_rng env 2)" "draw_ok (env_rng env 3)" "draw_ok (env_rng env 4)" "conn_ok env c"
  shows "\<exists>raw k reply. effects (handleTCPPayload env c payload s) = effects s @ [TCPWrite c (frame_bytes raw)]
    \<and> ParseDataFrameV2 (sessionKey (heap s p)) raw = Inr (reply, bytes_of_str ''dsp-ok:'' @ plain @ replicate k 0)
    \<and> df_Sequence reply = df_Sequence frame + 1 \<and> df_Channel reply = df_Channel frame \<and> k \<le> 32"
  by (rule echo_v2 [OF assms])

theorem echo_reply_witness:
  "\<exists>payload raw. effects (handleTCPPayload up_env 7 payload (one_session True)) = [TCPWrite 7 (frame_bytes raw)]"
proof -
  obtain raw where raw: "BuildDataFrameV2 zero_rng (replicate 32 2) 2 5 ''cover'' [1, 2, 3] 64 = Inr raw"
    using BuildDataFrameV2_ok by fastforce
  have m: "''cover'' \<in> obfs_modes" "ascii ''cover''"
    using obfs_modes_plain [of "''cover''"] plain_text_ascii by (auto simp: obfs_modes_def)
  obtain f where f: "ParseDataFrameV2 (replicate 32 2) raw = Inr (f, [1, 2, 3])" "df_Channel f = 2"
    using ParseDataFrameV2_BuildDataFrameV2 [OF raw m(2)] by blast
  have len: "length raw \<le> 2048" "raw \<noteq> []"
    using data_frame_fits [OF raw m(1)] BuildDataFrameV2_nonempty [OF raw] by auto
  show ?thesis
    using echo_reply [OF one_session_inv, of True 7 0 raw f "[1, 2, 3]" up_env] f len by auto
qed

text \<open>
  C36: A packet read from the server's tunnel leaves as one datagram to the address of the
  chosen ready session, under this session's identifier and key, and it parses to the packet on
  channel 1.
\<close>

theorem relay_reaches_client:
  assumes "server_inv s" "findSecureConnState order s = Some p" "protoVersion (heap s p) = ''v2''"
    and "udpAddr (heap s p) = Some a" "udpSrv s" "pkt \<noteq> []"
    and "draw_ok (env_rng env 0)" "draw_ok (env_rng env 1)" "draw_ok (env_rng env 2)"
    and "\<And>raw. udp_ok env a raw"
  shows "\<exists>raw d. effects (relayTunnelToClient env order (Inr pkt) s) = effects s @ [UDPWrite a raw]
    \<and> ParseDatagramFrameV2 (sessionKey (heap s p)) raw = Inr (d, pkt)
    \<and> dg_SessionID d = sessionID (heap s p) \<and> dg_Channel d = 1"
  by (rule relay_datagram [OF assms])

theorem relay_reaches_client_witness:
  "\<exists>raw. effects (relayTunnelToClient up_env [7] (Inr (packet 40)) (one_session True)) = [UDPWrite ''10.0.0.9:5'' raw]"
  using relay_reaches_client [OF one_session_inv, of "[7]" True 0 "''10.0.0.9:5''" "packet 40" up_env] by auto

text \<open>
  C37: The converse: a packet of the client's full MTU of 1380 bytes with 22 or more padding
  bytes makes a datagram longer than the receive buffer; what is left of it does not parse and
  the server drops it without a trace, although the client has counted it as sent.
\<close>

theorem full_packet_truncated:
  assumes "BuildDatagramFrameV2 rng k sid 1 seq mode pkt 64 = Inr d" "mode \<in> obfs_modes" "plain_text sid"
    and "length pkt = 1380" "length sid = 16" "length mode = 5"
    and "randomPadding (rng_skip 1 rng) 64 = Inr pad" "22 \<le> length pad"
    and "sc_ServerPrivateKey (cfg s) \<noteq> []"
  shows "udp_buffer < length d \<and> handleUDPPayload env a (udp_receive d) s = s"
  using full_packet_lost [OF assms] by blast

theorem full_packet_truncated_witness:
  "\<exists>d. BuildDatagramFrameV2 (\<lambda>_. \<lparr>draw_ok = True, draw_byte = (\<lambda>_. 0), draw_num = 30\<rparr>) (replicate 32 2) sample_sid 1 7
      ''burst'' (packet 1379) 64 = Inr d
    \<and> handleUDPPayload up_env ''10.0.0.9:5'' (udp_receive d) (one_session True) = one_session True"
proof -
  define rng where "rng = (\<lambda>_ :: nat. \<lparr>draw_ok = True, draw_byte = (\<lambda>_. 0 :: byte), draw_num = 30\<rparr>)"
  have m: "''burst'' \<in> obfs_modes" by (simp add: obfs_modes_def)
  then have a: "ascii ''burst''" using obfs_modes_plain plain_text_ascii by blast
  have ok: "draw_ok (rng i)" for i by (simp add: rng_def)
  obtain d where d: "BuildDatagramFrameV2 rng (replicate 32 2) sample_sid 1 7 ''burst'' (packet 1379) 64 = Inr d"
    using BuildDatagramFrameV2_ok [of rng, OF ok ok ok a] by blast
  have "randomPadding (rng_skip 1 rng) 64 = Inr (map (\<lambda>_. 0) [0..<30])"
    by (simp add: randomPadding_def rand_int_def read_full_def rng_def)
  with full_packet_truncated [OF d m _ _ _ _ this, of "one_session True" up_env "''10.0.0.9:5''"] d show ?thesis
    by (auto simp: rng_def)
qed

text \<open>
  C38: A datagram whose readable header names a live session refreshes the session and redirects
  its downlink to the sender's address even when its content does not decrypt under the session
  key: the assignments come before the decryption, so whoever knows the identifier can move the
  session.
\<close>

theorem datagram_moves_session:
  assumes "server_inv s" "bySID s sid = Some p" "udpSrv s" "sc_ServerPrivateKey (cfg s) \<noteq> []"
    and "payload \<noteq> []" "int (length payload) \<le> wrap64 (sc_MaxPacketSize (cfg s) * 8)"
    and "ParseDatagramSessionID payload = Inr sid"
    and "ParseDatagramFrameV2 (sessionKey (heap s p)) payload = Inl e"
  shows "handleUDPPayload env a payload s = s\<lparr>heap := (heap s)(p := (heap s p)\<lparr>lastSeen := clock env 1, udpAddr := Some a\<rparr>)\<rparr>"
  using udp_redirect [OF assms] by (simp add: upd_def)

theorem datagram_moves_session_witness:
  "\<exists>payload. udpAddr (heap (handleUDPPayload up_env ''6.6.6.6:6'' payload (one_session True)) 0) = Some ''6.6.6.6:6''"
proof -
  define d where "d = \<lparr>dg_Type = TypeData, dg_ProtoVersion = ''v2'', dg_SessionID = sample_sid, dg_Channel = 1,
      dg_Sequence = 1, dg_Mode = ''drip'', dg_Ciphertext = [], dg_Padding = []\<rparr>"
  define raw where "raw = DatagramFrameV2_marshal d"
  have a: "plain_text ''drip''" using obfs_modes_plain [of "''drip''"] by (simp add: obfs_modes_def)
  have "DatagramFrameV2_ascii d" using a by (simp add: d_def DatagramFrameV2_ascii_def plain_text_ascii)
  then have p: "DatagramFrameV2_unmarshal raw = Inr d" by (simp add: raw_def DatagramFrameV2_roundtrip)
  have sid: "ParseDatagramSessionID raw = Inr sample_sid"
    using DatagramFrameV2_unmarshal_Inr [OF p] by (auto simp: ParseDatagramSessionID_def d_def)
  have bad: "ParseDatagramFrameV2 (sessionKey (heap (one_session True) 0)) raw = Inl (EMsg ''ciphertext too short'')"
    by (simp add: ParseDatagramFrameV2_def p) (simp add: d_def Decrypt_def NonceSize_def)
  have "length raw = 137 + length (nat_digits (unat (1 :: 8 word))) + length (nat_digits (unat (1 :: 32 word)))"
    unfolding raw_def using a by (subst DatagramFrameV2_length) (simp_all add: d_def)
  then have len: "raw \<noteq> []" "length raw \<le> 200"
    using channel_digits [of 1] sequence_digits [of 1] by (auto simp del: unat_1)
  show ?thesis
    using datagram_moves_session [OF one_session_inv _ _ _ _ _ sid bad, of up_env "''6.6.6.6:6''"] len
    by (intro exI [of _ raw]) simp
qed





end
